(* ===== verification/Prelude.thy ===== *)
theory Prelude
  imports Main "HOL-Library.Word" "HOL-Library.List_Lexorder" "HOL-Library.Code_Target_Nat"
    "HOL-Library.Monad_Syntax"
begin

text \<open>
  Shared vocabulary of the development: the automation collections, results with an
  early return, the UUID and byte types, the ordered set that stands for Rust's
  \<^verbatim>\<open>BTreeSet\<close>, and the interface of such a set as a locale with its interpretation.
  Rust's \<^verbatim>\<open>Result<T, E>\<close> is \<open>'e + 't\<close> (\<open>Inl\<close> the error), and the question-mark operator
  is \<open>bindr\<close>. A function returning \<^verbatim>\<open>Result<T, ()>\<close> is an \<open>option\<close>.
\<close>

named_theorems scope_simps \<open>unfolding rules for the source-scope component\<close>
named_theorems text_simps \<open>facts about trimming, splitting and joining text\<close>
named_theorems db_simps \<open>unfolding rules for the statements on the durable tables\<close>
named_theorems auth_simps \<open>unfolding rules for the authentication component\<close>

type_synonym u8 = "8 word"
type_synonym u16 = "16 word"
type_synonym u32 = "32 word"
type_synonym uuid = "128 word"
type_synonym timestamp = int
type_synonym bytes = "u8 list"

section \<open>Results with early return\<close>

primrec bindr :: "'e + 'a \<Rightarrow> ('a \<Rightarrow> 'e + 'b) \<Rightarrow> 'e + 'b" where
  "bindr (Inl e) k = Inl e"
| "bindr (Inr x) k = k x"

primrec map_err :: "('e \<Rightarrow> 'f) \<Rightarrow> 'e + 'a \<Rightarrow> 'f + 'a" where
  "map_err f (Inl e) = Inl (f e)"
| "map_err f (Inr x) = Inr x"

primrec ok_or :: "'e \<Rightarrow> 'a option \<Rightarrow> 'e + 'a" where
  "ok_or e None = Inl e"
| "ok_or e (Some x) = Inr x"

primrec is_ok :: "'e + 'a \<Rightarrow> bool" where
  "is_ok (Inl e) = False"
| "is_ok (Inr x) = True"

text \<open>Collecting an iterator of results stops at the first error.\<close>

primrec traverse :: "('a \<Rightarrow> 'e + 'b) \<Rightarrow> 'a list \<Rightarrow> 'e + 'b list" where
  "traverse f [] = Inr []"
| "traverse f (x # xs) = bindr (f x) (\<lambda>y. bindr (traverse f xs) (\<lambda>ys. Inr (y # ys)))"

text \<open>A loop whose body may return early with an error.\<close>

primrec fold_res :: "('a \<Rightarrow> 's \<Rightarrow> 'e + 's) \<Rightarrow> 'a list \<Rightarrow> 's \<Rightarrow> 'e + 's" where
  "fold_res f [] s = Inr s"
| "fold_res f (x # xs) s = bindr (f x s) (fold_res f xs)"

text \<open>A check in a function returning \<^verbatim>\<open>Result<T, ()>\<close>.\<close>

definition ensure :: "bool \<Rightarrow> unit option" where
  "ensure b = (if b then Some () else None)"

section \<open>Ordered sets\<close>

text \<open>A \<^verbatim>\<open>BTreeSet\<close> is the ascending list of its elements.\<close>

definition btree_insert :: "'a::linorder \<Rightarrow> 'a list \<Rightarrow> 'a list" where
  "btree_insert x t = (if x \<in> set t then t else insort x t)"

definition btree_collect :: "'a::linorder list \<Rightarrow> 'a list" where
  "btree_collect xs = fold btree_insert xs []"

definition btree_contains :: "'a list \<Rightarrow> 'a \<Rightarrow> bool" where
  "btree_contains t x \<longleftrightarrow> x \<in> set t"

definition btree_ok :: "'a::linorder list \<Rightarrow> bool" where
  "btree_ok t \<longleftrightarrow> sorted t \<and> distinct t"

definition btree_is_disjoint :: "'a list \<Rightarrow> 'a list \<Rightarrow> bool" where
  "btree_is_disjoint s t \<longleftrightarrow> list_all (\<lambda>x. \<not> btree_contains t x) s"

definition btree_is_subset :: "'a list \<Rightarrow> 'a list \<Rightarrow> bool" where
  "btree_is_subset s t \<longleftrightarrow> list_all (btree_contains t) s"

section \<open>Lemmas on results\<close>

lemma bindr_eq_Inr [simp]: "bindr r k = Inr y \<longleftrightarrow> (\<exists>x. r = Inr x \<and> k x = Inr y)"
  by (cases r) auto

lemma bindr_eq_Inl: "bindr r k = Inl e \<longleftrightarrow> r = Inl e \<or> (\<exists>x. r = Inr x \<and> k x = Inl e)"
  by (cases r) auto

text \<open>A guard with an early return, read as a condition on success.\<close>

lemma guard_eq_Inr [simp]: "(if c then Inl e else r) = Inr x \<longleftrightarrow> \<not> c \<and> r = Inr x"
  by simp

lemma guard_neg_eq_Inr [simp]: "(if c then r else Inl e) = Inr x \<longleftrightarrow> c \<and> r = Inr x"
  by simp

lemma map_err_eq_Inr [simp]: "map_err f r = Inr x \<longleftrightarrow> r = Inr x"
  by (cases r) auto

lemma map_err_eq_Inl [simp]: "map_err f r = Inl e \<longleftrightarrow> (\<exists>e'. r = Inl e' \<and> e = f e')"
  by (cases r) auto

lemma ok_or_eq_Inr [simp]: "ok_or e r = Inr x \<longleftrightarrow> r = Some x"
  by (cases r) auto

lemma ok_or_eq_Inl [simp]: "ok_or e r = Inl e' \<longleftrightarrow> r = None \<and> e' = e"
  by (cases r) auto

lemma is_ok_iff: "is_ok r \<longleftrightarrow> (\<exists>x. r = Inr x)"
  by (cases r) auto

lemma traverse_eq_Inr:
  "traverse f xs = Inr ys \<longleftrightarrow> length ys = length xs \<and> (\<forall>i < length xs. f (xs ! i) = Inr (ys ! i))"
proof (induction xs arbitrary: ys)
  case Nil
  then show ?case by auto
next
  case (Cons x xs)
  show ?case
  proof (cases ys)
    case (Cons y ys')
    then show ?thesis
      using Cons.IH [of ys'] by (auto simp: nth_Cons less_Suc_eq_0_disj split: nat.splits)
  qed auto
qed

lemma traverse_map: "traverse f (map g xs) = traverse (f \<circ> g) xs"
  by (induction xs) auto

lemma traverse_all_ok: "(\<And>x. x \<in> set xs \<Longrightarrow> f x = Inr (g x)) \<Longrightarrow> traverse f xs = Inr (map g xs)"
  by (induction xs) auto

lemma traverse_id: "(\<And>x. x \<in> set xs \<Longrightarrow> f x = Inr x) \<Longrightarrow> traverse f xs = Inr xs"
  by (induction xs) auto

lemma traverse_set:
  assumes "traverse f xs = Inr ys"
  shows "set ys = {y. \<exists>x \<in> set xs. f x = Inr y}"
  using assms by (induction xs arbitrary: ys) fastforce+

lemma traverse_error:
  "traverse f xs = Inl e \<Longrightarrow> \<exists>x \<in> set xs. f x = Inl e"
  by (induction xs) (auto simp: bindr_eq_Inl)

lemma traverse_is_ok: "is_ok (traverse f xs) \<longleftrightarrow> (\<forall>x \<in> set xs. is_ok (f x))"
  by (induction xs) (auto simp: is_ok_iff)

lemma ensure_eq_Some [simp]: "ensure b = Some u \<longleftrightarrow> b"
  by (simp add: ensure_def)

lemma fold_res_inv:
  assumes "fold_res f xs s = Inr s'" and "P s"
    and "\<And>x s t. x \<in> set xs \<Longrightarrow> P s \<Longrightarrow> f x s = Inr t \<Longrightarrow> P t"
  shows "P s'"
  using assms by (induction xs arbitrary: s) auto

lemma fold_res_error:
  assumes "fold_res f xs s = Inl e" and "\<And>x s e. f x s = Inl e \<Longrightarrow> P e"
  shows "P e"
  using assms by (induction xs arbitrary: s) (auto simp: bindr_eq_Inl)

lemma filter_unique:
  assumes "distinct xs" and "x \<in> set xs" and "P x" and "\<And>y. y \<in> set xs \<Longrightarrow> P y \<Longrightarrow> y = x"
  shows "filter P xs = [x]"
proof -
  have "P y \<longleftrightarrow> y = x" if "y \<in> set xs" for y
    using that assms(3,4) by blast
  then have "filter P xs = filter (\<lambda>y. y = x) xs"
    by (rule filter_cong [OF refl])
  moreover have "distinct xs \<Longrightarrow> x \<in> set xs \<Longrightarrow> filter (\<lambda>y. y = x) xs = [x]"
    by (induction xs) (auto simp: filter_empty_conv)
  ultimately show ?thesis
    using assms(1,2) by simp
qed

lemma find_append: "find P (xs @ ys) = (case find P xs of None \<Rightarrow> find P ys | Some x \<Rightarrow> Some x)"
  by (induction xs) auto

lemma find_SomeD: "find P xs = Some x \<Longrightarrow> x \<in> set xs \<and> P x"
  by (induction xs) (auto split: if_splits)

section \<open>The interface of an ordered set\<close>

text \<open>
  What a client of \<^verbatim>\<open>BTreeSet\<close> relies on: an invariant kept by insertion, the abstraction
  to a set, and iteration in ascending order. The client lemmas say what collecting a
  list gives and that the iteration order is canonical.
\<close>

locale ordered_set =
  fixes ins :: "'a::linorder \<Rightarrow> 's \<Rightarrow> 's"
    and emp :: 's
    and mem :: "'s \<Rightarrow> 'a \<Rightarrow> bool"
    and iter :: "'s \<Rightarrow> 'a list"
    and wf :: "'s \<Rightarrow> bool"
  assumes wf_emp: "wf emp"
    and wf_ins: "wf s \<Longrightarrow> wf (ins x s)"
    and iter_emp: "iter emp = []"
    and set_iter_ins: "wf s \<Longrightarrow> set (iter (ins x s)) = insert x (set (iter s))"
    and iter_sorted: "wf s \<Longrightarrow> sorted (iter s) \<and> distinct (iter s)"
    and mem_iff: "wf s \<Longrightarrow> mem s x \<longleftrightarrow> x \<in> set (iter s)"
begin

lemma wf_fold: "wf s \<Longrightarrow> wf (fold ins xs s)"
  by (induction xs arbitrary: s) (auto simp: wf_ins)

lemma set_fold: "wf s \<Longrightarrow> set (iter (fold ins xs s)) = set xs \<union> set (iter s)"
  by (induction xs arbitrary: s) (auto simp: wf_ins set_iter_ins)

lemma iter_canonical:
  assumes "wf s" and "wf t" and "set (iter s) = set (iter t)"
  shows "iter s = iter t"
  using assms iter_sorted by (blast intro: sorted_distinct_set_unique)

lemma collect_iter: "iter (fold ins xs emp) = sorted_list_of_set (set xs)"
proof (rule sorted_distinct_set_unique)
  have "wf (fold ins xs emp)"
    by (rule wf_fold [OF wf_emp])
  then show "sorted (iter (fold ins xs emp))" and "distinct (iter (fold ins xs emp))"
    using iter_sorted by blast+
  show "set (iter (fold ins xs emp)) = set (sorted_list_of_set (set xs))"
    by (simp add: set_fold [OF wf_emp] iter_emp)
qed simp_all

lemma fold_mem: "mem (fold ins xs emp) x \<longleftrightarrow> x \<in> set xs"
  by (simp add: mem_iff wf_fold wf_emp set_fold iter_emp)

end

interpretation btree: ordered_set btree_insert "[]" btree_contains "\<lambda>t. t" btree_ok
  by unfold_locales
    (auto simp: btree_insert_def btree_contains_def btree_ok_def sorted_insort set_insort_key
      distinct_insort)

lemma set_btree_insert [simp]: "set (btree_insert x t) = insert x (set t)"
  by (auto simp: btree_insert_def set_insort_key)

lemma btree_collect_eq: "btree_collect xs = sorted_list_of_set (set xs)"
  unfolding btree_collect_def by (rule btree.collect_iter)

lemma btree_ok_collect [simp]: "btree_ok (btree_collect xs)"
  by (simp add: btree_collect_eq btree_ok_def)

lemma set_btree_collect [simp]: "set (btree_collect xs) = set xs"
  by (simp add: btree_collect_eq)

lemma btree_collect_id: "btree_ok t \<Longrightarrow> btree_collect t = t"
  by (simp add: btree_collect_eq btree_ok_def sorted_list_of_set.idem_if_sorted_distinct)

lemma btree_collect_eq_Nil [simp]: "btree_collect xs = [] \<longleftrightarrow> xs = []"
  by (metis set_btree_collect set_empty)

lemma length_btree_collect: "length (btree_collect xs) \<le> length xs"
  by (simp add: btree_collect_eq card_length)

lemma btree_is_disjoint_iff [simp]: "btree_is_disjoint s t \<longleftrightarrow> set s \<inter> set t = {}"
  by (auto simp: btree_is_disjoint_def btree_contains_def list_all_iff)

lemma btree_is_subset_iff [simp]: "btree_is_subset s t \<longleftrightarrow> set s \<subseteq> set t"
  by (auto simp: btree_is_subset_def btree_contains_def list_all_iff)

end
