(* ===== verification/Rust_Text.thy ===== *)
theory Rust_Text
  imports Prelude
begin

text \<open>
  Rust text. A \<^verbatim>\<open>&str\<close> or \<^verbatim>\<open>String\<close> is the list of its Unicode scalar values, so
  \<^verbatim>\<open>chars().count()\<close> is \<open>length\<close>, \<^verbatim>\<open>len()\<close> is the number of UTF-8 bytes \<open>byte_len\<close>, and the
  byte-wise order of \<^verbatim>\<open>str\<close> is the lexicographic order of the scalar values (UTF-8 preserves
  it). The standard-library operations the program calls are defined here; the only tables
  of the Unicode standard used by them are the white-space characters, which are written out.
\<close>

type_synonym uchar = nat
type_synonym rstr = "uchar list"

definition lit :: "string \<Rightarrow> rstr" where
  "lit s = map of_char s"

definition len_utf8 :: "uchar \<Rightarrow> nat" where
  "len_utf8 c = (if c < 128 then 1 else if c < 2048 then 2 else if c < 65536 then 3 else 4)"

definition byte_len :: "rstr \<Rightarrow> nat" where
  "byte_len s = sum_list (map len_utf8 s)"

definition is_whitespace :: "uchar \<Rightarrow> bool" where
  "is_whitespace c \<longleftrightarrow> 9 \<le> c \<and> c \<le> 13 \<or> c = 32 \<or> c = 133 \<or> c = 160 \<or> c = 5760
     \<or> 8192 \<le> c \<and> c \<le> 8202 \<or> c = 8232 \<or> c = 8233 \<or> c = 8239 \<or> c = 8287 \<or> c = 12288"

definition is_ascii_whitespace :: "uchar \<Rightarrow> bool" where
  "is_ascii_whitespace c \<longleftrightarrow> c = 9 \<or> c = 10 \<or> c = 12 \<or> c = 13 \<or> c = 32"

definition is_ascii_digit :: "uchar \<Rightarrow> bool" where
  "is_ascii_digit c \<longleftrightarrow> 48 \<le> c \<and> c \<le> 57"

definition is_ascii_alphanumeric :: "uchar \<Rightarrow> bool" where
  "is_ascii_alphanumeric c \<longleftrightarrow> is_ascii_digit c \<or> 65 \<le> c \<and> c \<le> 90 \<or> 97 \<le> c \<and> c \<le> 122"

definition is_ascii_hexdigit :: "uchar \<Rightarrow> bool" where
  "is_ascii_hexdigit c \<longleftrightarrow> is_ascii_digit c \<or> 65 \<le> c \<and> c \<le> 70 \<or> 97 \<le> c \<and> c \<le> 102"

definition ascii_lower :: "uchar \<Rightarrow> uchar" where
  "ascii_lower c = (if 65 \<le> c \<and> c \<le> 90 then c + 32 else c)"

definition to_ascii_lowercase :: "rstr \<Rightarrow> rstr" where
  "to_ascii_lowercase s = map ascii_lower s"

definition eq_ignore_ascii_case :: "rstr \<Rightarrow> rstr \<Rightarrow> bool" where
  "eq_ignore_ascii_case s t \<longleftrightarrow> to_ascii_lowercase s = to_ascii_lowercase t"

definition trim_start_matches :: "(uchar \<Rightarrow> bool) \<Rightarrow> rstr \<Rightarrow> rstr" where
  "trim_start_matches p s = dropWhile p s"

definition trim_end_matches :: "(uchar \<Rightarrow> bool) \<Rightarrow> rstr \<Rightarrow> rstr" where
  "trim_end_matches p s = rev (dropWhile p (rev s))"

definition trim_matches :: "(uchar \<Rightarrow> bool) \<Rightarrow> rstr \<Rightarrow> rstr" where
  "trim_matches p s = trim_end_matches p (trim_start_matches p s)"

definition trim :: "rstr \<Rightarrow> rstr" where
  "trim s = trim_matches is_whitespace s"

text \<open>\<^verbatim>\<open>str::split\<close>: one more piece than there are separators.\<close>

fun split_on :: "(uchar \<Rightarrow> bool) \<Rightarrow> rstr \<Rightarrow> rstr list" where
  "split_on p [] = [[]]"
| "split_on p (c # cs) =
     (if p c then [] # split_on p cs
      else (case split_on p cs of [] \<Rightarrow> [[c]] | w # ws \<Rightarrow> (c # w) # ws))"

definition split_whitespace :: "rstr \<Rightarrow> rstr list" where
  "split_whitespace s = filter (\<lambda>w. w \<noteq> []) (split_on is_whitespace s)"

definition split_ascii_whitespace :: "rstr \<Rightarrow> rstr list" where
  "split_ascii_whitespace s = filter (\<lambda>w. w \<noteq> []) (split_on is_ascii_whitespace s)"

fun split_once :: "uchar \<Rightarrow> rstr \<Rightarrow> (rstr \<times> rstr) option" where
  "split_once d [] = None"
| "split_once d (c # cs) =
     (if c = d then Some ([], cs)
      else map_option (\<lambda>(a, b). (c # a, b)) (split_once d cs))"

fun join :: "rstr \<Rightarrow> rstr list \<Rightarrow> rstr" where
  "join sep [] = []"
| "join sep [w] = w"
| "join sep (w # v # ws) = w @ sep @ join sep (v # ws)"

fun strip_prefix :: "rstr \<Rightarrow> rstr \<Rightarrow> rstr option" where
  "strip_prefix [] s = Some s"
| "strip_prefix (p # ps) [] = None"
| "strip_prefix (p # ps) (c # cs) = (if p = c then strip_prefix ps cs else None)"

definition strip_suffix :: "rstr \<Rightarrow> rstr \<Rightarrow> rstr option" where
  "strip_suffix suf s = map_option rev (strip_prefix (rev suf) (rev s))"

definition starts_with_char :: "uchar \<Rightarrow> rstr \<Rightarrow> bool" where
  "starts_with_char c s \<longleftrightarrow> (case s of [] \<Rightarrow> False | x # _ \<Rightarrow> x = c)"

definition ends_with_char :: "uchar \<Rightarrow> rstr \<Rightarrow> bool" where
  "ends_with_char c s \<longleftrightarrow> starts_with_char c (rev s)"

text \<open>Decimal text of an unsigned number, as \<^verbatim>\<open>Display\<close> prints it.\<close>

fun show_nat :: "nat \<Rightarrow> rstr" where
  "show_nat n = (if n < 10 then [48 + n] else show_nat (n div 10) @ [48 + n mod 10])"

declare show_nat.simps [simp del]

section \<open>Trimming\<close>

lemma trim_end_matches_last: "trim_end_matches p s \<noteq> [] \<Longrightarrow> \<not> p (last (trim_end_matches p s))"
  by (simp add: trim_end_matches_def last_rev hd_dropWhile)

lemma trim_start_matches_hd: "trim_start_matches p s \<noteq> [] \<Longrightarrow> \<not> p (hd (trim_start_matches p s))"
  by (simp add: trim_start_matches_def hd_dropWhile)

lemma trim_end_matches_id: "s = [] \<or> \<not> p (last s) \<Longrightarrow> trim_end_matches p s = s"
  by (cases s rule: rev_cases) (auto simp: trim_end_matches_def)

lemma trim_start_matches_id: "s = [] \<or> \<not> p (hd s) \<Longrightarrow> trim_start_matches p s = s"
  by (cases s) (auto simp: trim_start_matches_def)

lemma trim_end_matches_prefix: "\<exists>r. s = trim_end_matches p s @ r \<and> list_all p r"
proof
  let ?r = "rev (takeWhile p (rev s))"
  have "rev s = takeWhile p (rev s) @ dropWhile p (rev s)"
    by simp
  then have "s = rev (dropWhile p (rev s)) @ ?r"
    by (metis rev_append rev_rev_ident)
  moreover have "list_all p ?r"
    by (auto simp: list_all_iff dest: set_takeWhileD)
  ultimately show "s = trim_end_matches p s @ ?r \<and> list_all p ?r"
    by (simp add: trim_end_matches_def)
qed

lemma trim_end_matches_hd: "trim_end_matches p s \<noteq> [] \<Longrightarrow> hd (trim_end_matches p s) = hd s"
  using trim_end_matches_prefix [of s p] by (metis hd_append2)

lemma trim_matches_ends:
  assumes "trim_matches p s \<noteq> []"
  shows "\<not> p (hd (trim_matches p s))" and "\<not> p (last (trim_matches p s))"
proof -
  let ?t = "trim_start_matches p s"
  from assms have "trim_end_matches p ?t \<noteq> []"
    by (simp add: trim_matches_def)
  moreover from this have "?t \<noteq> []"
    by (auto simp: trim_end_matches_def)
  ultimately show "\<not> p (hd (trim_matches p s))"
    by (simp add: trim_matches_def trim_end_matches_hd trim_start_matches_hd)
  from assms show "\<not> p (last (trim_matches p s))"
    by (simp add: trim_matches_def trim_end_matches_last)
qed

lemma trim_matches_id: "s = [] \<or> \<not> p (hd s) \<and> \<not> p (last s) \<Longrightarrow> trim_matches p s = s"
  by (auto simp: trim_matches_def trim_start_matches_id trim_end_matches_id)

lemma trim_matches_idem [simp]: "trim_matches p (trim_matches p s) = trim_matches p s"
  using trim_matches_ends [of p s] by (intro trim_matches_id) blast

lemma trim_idem [text_simps, simp]: "trim (trim s) = trim s"
  by (simp add: trim_def)

lemma trim_id: "s = [] \<or> \<not> is_whitespace (hd s) \<and> \<not> is_whitespace (last s) \<Longrightarrow> trim s = s"
  unfolding trim_def by (rule trim_matches_id)

lemma trim_id_no_whitespace: "\<forall>c \<in> set s. \<not> is_whitespace c \<Longrightarrow> trim s = s"
  by (rule trim_id) (metis hd_in_set last_in_set)

lemma set_trim_end_matches: "set (trim_end_matches p s) \<subseteq> set s"
  by (auto simp: trim_end_matches_def dest: set_dropWhileD)

lemma set_trim_matches: "set (trim_matches p s) \<subseteq> set s"
  using set_trim_end_matches [of p "trim_start_matches p s"]
  by (auto simp: trim_matches_def trim_start_matches_def dest: set_dropWhileD)

lemma set_trim: "set (trim s) \<subseteq> set s"
  unfolding trim_def by (rule set_trim_matches)

section \<open>Splitting and joining\<close>

lemma split_on_nonempty [simp]: "split_on p s \<noteq> []"
  by (induction s) (auto split: list.splits)

lemma split_on_pieces: "w \<in> set (split_on p s) \<Longrightarrow> c \<in> set w \<Longrightarrow> \<not> p c"
proof (induction s arbitrary: w)
  case (Cons d cs)
  then show ?case
    by (cases "split_on p cs") (fastforce split: if_splits)+
qed simp

lemma split_on_no_sep: "\<forall>c \<in> set s. \<not> p c \<Longrightarrow> split_on p s = [s]"
  by (induction s) auto

lemma split_on_append_sep:
  assumes "\<forall>c \<in> set w. \<not> p c" and "p d"
  shows "split_on p (w @ d # s) = w # split_on p s"
  using assms by (induction w) auto

lemma join_split_on: "join [d] (split_on (\<lambda>c. c = d) s) = s"
proof (induction s)
  case (Cons c cs)
  obtain w ws where "split_on (\<lambda>c. c = d) cs = w # ws"
    by (cases "split_on (\<lambda>c. c = d) cs") auto
  with Cons show ?case
    by (cases ws) auto
qed simp

lemma split_on_join:
  assumes "ws \<noteq> []" and "\<forall>w \<in> set ws. d \<notin> set w"
  shows "split_on (\<lambda>c. c = d) (join [d] ws) = ws"
  using assms
proof (induction "[d]" ws rule: join.induct)
  case (2 w)
  then show ?case by (auto intro!: split_on_no_sep)
next
  case (3 w v ws)
  then have "split_on (\<lambda>c. c = d) (w @ d # join [d] (v # ws)) = w # split_on (\<lambda>c. c = d) (join [d] (v # ws))"
    by (intro split_on_append_sep) auto
  with 3 show ?case by simp
qed simp

lemma split_whitespace_words:
  assumes "w \<in> set (split_whitespace s)"
  shows "w \<noteq> []" and "\<forall>c \<in> set w. \<not> is_whitespace c"
  using assms split_on_pieces by (auto simp: split_whitespace_def)

lemma split_whitespace_join:
  assumes "\<forall>w \<in> set ws. w \<noteq> [] \<and> (\<forall>c \<in> set w. \<not> is_whitespace c)"
  shows "split_whitespace (join [32] ws) = ws"
  using assms
proof (induction "[32::nat]" ws rule: join.induct)
  case 1
  then show ?case by (simp add: split_whitespace_def)
next
  case (2 w)
  then show ?case by (simp add: split_whitespace_def split_on_no_sep)
next
  case (3 w v ws)
  have "is_whitespace 32"
    by (simp add: is_whitespace_def)
  with 3 show ?case
    by (simp add: split_whitespace_def split_on_append_sep)
qed

text \<open>
  Collapsing white space is the normal form the program stores: splitting it again
  gives the same words, so collapsing is idempotent, and it has no white space at its ends.
\<close>

definition collapse :: "rstr \<Rightarrow> rstr" where
  "collapse s = join [32] (split_whitespace s)"

lemma split_whitespace_collapse [text_simps]: "split_whitespace (collapse s) = split_whitespace s"
  unfolding collapse_def using split_whitespace_words by (intro split_whitespace_join) blast

lemma collapse_idem [text_simps]: "collapse (collapse s) = collapse s"
  by (simp add: collapse_def split_whitespace_collapse [unfolded collapse_def])

lemma collapse_cong: "split_whitespace s = split_whitespace t \<Longrightarrow> collapse s = collapse t"
  by (simp add: collapse_def)

lemma collapse_eq_iff: "collapse s = collapse t \<longleftrightarrow> split_whitespace s = split_whitespace t"
  by (metis collapse_cong split_whitespace_collapse)

lemma join_nonempty_hd_last:
  assumes "ws \<noteq> []" and "\<forall>w \<in> set ws. w \<noteq> []"
  shows "join sep ws \<noteq> [] \<and> hd (join sep ws) = hd (hd ws) \<and> last (join sep ws) = last (last ws)"
  using assms
proof (induction sep ws rule: join.induct)
  case (3 sep w v ws)
  then have "join sep (v # ws) \<noteq> []" and "last (join sep (v # ws)) = last (last (v # ws))"
    by auto
  with 3 show ?case by auto
qed auto

lemma trim_collapse [text_simps]: "trim (collapse s) = collapse s"
proof (cases "split_whitespace s = []")
  case True
  then show ?thesis by (simp add: collapse_def trim_id)
next
  case False
  let ?ws = "split_whitespace s"
  have ne: "\<forall>w \<in> set ?ws. w \<noteq> [] \<and> (\<forall>c \<in> set w. \<not> is_whitespace c)"
    using split_whitespace_words by blast
  then have "\<not> is_whitespace (hd (hd ?ws))" and "\<not> is_whitespace (last (last ?ws))"
    using False by (metis hd_in_set, metis last_in_set)
  moreover have "hd (collapse s) = hd (hd ?ws)" and "last (collapse s) = last (last ?ws)"
    using join_nonempty_hd_last [OF False, of "[32]"] ne by (auto simp: collapse_def)
  ultimately show ?thesis by (intro trim_id) simp
qed

lemma split_once_Some: "split_once d s = Some (a, b) \<longleftrightarrow> s = a @ d # b \<and> d \<notin> set a"
proof (induction s arbitrary: a)
  case (Cons c cs)
  show ?case
  proof (cases a)
    case Nil
    then show ?thesis by auto
  next
    case (Cons e a')
    then show ?thesis using Cons.IH [of a'] by (auto simp: split_once.simps)
  qed
qed simp

section \<open>Prefixes, suffixes and case\<close>

lemma strip_prefix_Some [simp]: "strip_prefix p s = Some r \<longleftrightarrow> s = p @ r"
  by (induction p s rule: strip_prefix.induct) auto

lemma strip_suffix_Some [simp]: "strip_suffix suf s = Some r \<longleftrightarrow> s = r @ suf"
proof -
  have "strip_suffix suf s = Some r \<longleftrightarrow> strip_prefix (rev suf) (rev s) = Some (rev r)"
    by (auto simp: strip_suffix_def)
  also have "\<dots> \<longleftrightarrow> rev s = rev (r @ suf)"
    by simp
  finally show ?thesis by (metis rev_rev_ident)
qed

lemma strip_prefix_append [simp]: "strip_prefix p (p @ r) = Some r"
  by (simp)

lemma starts_with_char_iff [simp]: "starts_with_char c s \<longleftrightarrow> (\<exists>r. s = c # r)"
  by (cases s) (auto simp: starts_with_char_def)

lemma ends_with_char_iff [simp]: "ends_with_char c s \<longleftrightarrow> (\<exists>r. s = r @ [c])"
  unfolding ends_with_char_def starts_with_char_iff by (metis rev_eq_Cons_iff rev_rev_ident)

lemma to_ascii_lowercase_idem [text_simps, simp]:
  "to_ascii_lowercase (to_ascii_lowercase s) = to_ascii_lowercase s"
  by (simp add: to_ascii_lowercase_def ascii_lower_def)

lemma length_to_ascii_lowercase [simp]: "length (to_ascii_lowercase s) = length s"
  by (simp add: to_ascii_lowercase_def)

lemma byte_len_append [simp]: "byte_len (s @ t) = byte_len s + byte_len t"
  by (simp add: byte_len_def)

lemma byte_len_ge_length: "length s \<le> byte_len s"
  by (induction s) (auto simp: byte_len_def len_utf8_def)

lemma byte_len_ascii: "\<forall>c \<in> set s. c < 128 \<Longrightarrow> byte_len s = length s"
  by (induction s) (auto simp: byte_len_def len_utf8_def)

lemma byte_len_0 [simp]: "byte_len s = 0 \<longleftrightarrow> s = []"
  using byte_len_ge_length [of s] by (cases s) (auto simp: byte_len_def len_utf8_def)

end
