(* ===== verification/Http_Errors.thy ===== *)
theory Http_Errors
  imports Rust_Text
begin

text \<open>
  The error type every handler returns (\<^verbatim>\<open>src/error.rs\<close>): a status code, a machine-readable
  code and a message. \<open>into_response\<close> is the response the client sees. The request-failed log
  line of \<^verbatim>\<open>HttpError::internal\<close> is not part of the model.
\<close>

record http_error =
  err_status :: nat
  err_code :: string
  err_message :: rstr

definition HttpError_new :: "nat \<Rightarrow> string \<Rightarrow> rstr \<Rightarrow> http_error" where
  "HttpError_new status code message = \<lparr>err_status = status, err_code = code, err_message = message\<rparr>"

definition HttpError_validation :: "rstr \<Rightarrow> http_error" where
  "HttpError_validation error = HttpError_new 422 ''validation_error'' error"

definition HttpError_bad_request :: "rstr \<Rightarrow> http_error" where
  "HttpError_bad_request message = HttpError_new 400 ''bad_request'' message"

definition HttpError_unauthorized :: "rstr \<Rightarrow> http_error" where
  "HttpError_unauthorized message = HttpError_new 401 ''unauthorized'' message"

definition HttpError_forbidden :: "rstr \<Rightarrow> http_error" where
  "HttpError_forbidden message = HttpError_new 403 ''forbidden'' message"

definition HttpError_not_found :: "rstr \<Rightarrow> http_error" where
  "HttpError_not_found message = HttpError_new 404 ''not_found'' message"

definition HttpError_conflict :: "rstr \<Rightarrow> http_error" where
  "HttpError_conflict message = HttpError_new 409 ''conflict'' message"

definition HttpError_database_required :: http_error where
  "HttpError_database_required =
     HttpError_new 503 ''database_required'' (lit ''this route requires durable PostgreSQL storage'')"

definition HttpError_ingest_auth_required :: http_error where
  "HttpError_ingest_auth_required =
     HttpError_new 503 ''ingest_auth_required''
       (lit ''page ingestion is disabled until crawler authentication is configured'')"

text \<open>The internal error is logged, never shown: the response does not depend on it.\<close>

definition HttpError_internal :: "rstr \<Rightarrow> http_error" where
  "HttpError_internal error =
     HttpError_new 500 ''internal_error'' (lit ''the request could not be completed'')"

definition into_response :: "http_error \<Rightarrow> nat \<times> string \<times> rstr" where
  "into_response e = (err_status e, err_code e, err_message e)"

lemmas http_error_defs =
  HttpError_new_def HttpError_validation_def HttpError_bad_request_def HttpError_unauthorized_def
  HttpError_forbidden_def HttpError_not_found_def HttpError_conflict_def
  HttpError_database_required_def HttpError_ingest_auth_required_def HttpError_internal_def

lemma internal_uninformative: "HttpError_internal e = HttpError_internal e'"
  by (simp add: HttpError_internal_def)

lemma http_error_status [simp]:
  "err_status (HttpError_validation m) = 422" "err_status (HttpError_bad_request m) = 400"
  "err_status (HttpError_unauthorized m) = 401" "err_status (HttpError_forbidden m) = 403"
  "err_status (HttpError_not_found m) = 404" "err_status (HttpError_conflict m) = 409"
  "err_status HttpError_database_required = 503" "err_status HttpError_ingest_auth_required = 503"
  "err_status (HttpError_internal m) = 500"
  by (simp_all add: http_error_defs)

lemma http_error_distinct_status: "err_status e \<noteq> err_status e' \<Longrightarrow> e \<noteq> e'"
  by auto

end
