(* ===== verification/Uuid_Text.thy ===== *)
theory Uuid_Text
  imports Rust_Text
begin

text \<open>
  The text form of UUIDs. The \<^verbatim>\<open>uuid\<close> crate is not part of the repository: what the program
  uses of it is the locale \<open>uuid_codec\<close>, its printer and its parser with the documented
  contract (\<^verbatim>\<open>Display\<close> prints 36 hexadecimal digits and hyphens, \<^verbatim>\<open>parse_str\<close> reads them back).
  The reference codec of RFC 4122 (\<open>hyphenated\<close>, \<open>parse_hyphenated\<close>) satisfies the contract.
\<close>

locale uuid_codec =
  fixes parse_str :: "rstr \<Rightarrow> uuid option"
    and to_str :: "uuid \<Rightarrow> rstr"
  assumes parse_to_str: "parse_str (to_str u) = Some u"
    and to_str_chars: "c \<in> set (to_str u) \<Longrightarrow> is_ascii_hexdigit c \<or> c = 45"
    and to_str_length: "length (to_str u) = 36"
begin

lemma to_str_inject: "to_str u = to_str v \<longleftrightarrow> u = v"
  by (metis option.inject parse_to_str)

lemma to_str_no_whitespace: "c \<in> set (to_str u) \<Longrightarrow> \<not> is_whitespace c"
  using to_str_chars [of c u]
  by (auto simp: is_ascii_hexdigit_def is_ascii_digit_def is_whitespace_def)

lemma to_str_nonempty: "to_str u \<noteq> []"
  using to_str_length [of u] by auto

lemma to_str_not_source: "strip_prefix (lit ''source:'') (to_str u) = None"
proof (rule ccontr)
  assume "strip_prefix (lit ''source:'') (to_str u) \<noteq> None"
  then obtain r where "to_str u = lit ''source:'' @ r"
    by auto
  then have "115 \<in> set (to_str u)"
    by (simp add: lit_def)
  then show False
    using to_str_chars [of 115 u] by (simp add: is_ascii_hexdigit_def is_ascii_digit_def)
qed

end

definition hex_char :: "nat \<Rightarrow> uchar" where
  "hex_char d = (if d < 10 then 48 + d else 87 + d)"

definition hex_value :: "uchar \<Rightarrow> nat option" where
  "hex_value c = (if 48 \<le> c \<and> c \<le> 57 then Some (c - 48)
     else if 97 \<le> c \<and> c \<le> 102 then Some (c - 87)
     else if 65 \<le> c \<and> c \<le> 70 then Some (c - 55) else None)"

primrec hex_digits :: "nat \<Rightarrow> nat \<Rightarrow> rstr" where
  "hex_digits 0 n = []"
| "hex_digits (Suc k) n = hex_digits k (n div 16) @ [hex_char (n mod 16)]"

fun hex_number :: "nat \<Rightarrow> rstr \<Rightarrow> nat option" where
  "hex_number acc [] = Some acc"
| "hex_number acc (c # cs) = (case hex_value c of None \<Rightarrow> None | Some d \<Rightarrow> hex_number (16 * acc + d) cs)"

definition hyphenated :: "uuid \<Rightarrow> rstr" where
  "hyphenated u = (let h = hex_digits 32 (unat u) in
     take 8 h @ [45] @ take 4 (drop 8 h) @ [45] @ take 4 (drop 12 h) @ [45] @
     take 4 (drop 16 h) @ [45] @ drop 20 h)"

definition parse_hyphenated :: "rstr \<Rightarrow> uuid option" where
  "parse_hyphenated s =
     (if length s = 36 \<and> s ! 8 = 45 \<and> s ! 13 = 45 \<and> s ! 18 = 45 \<and> s ! 23 = 45
      then map_option word_of_nat (hex_number 0
        (take 8 s @ take 4 (drop 9 s) @ take 4 (drop 14 s) @ take 4 (drop 19 s) @ drop 24 s))
      else None)"

lemma length_hex_digits [simp]: "length (hex_digits k n) = k"
  by (induction k arbitrary: n) auto

lemma hex_value_char: "d < 16 \<Longrightarrow> hex_value (hex_char d) = Some d"
  by (auto simp: hex_value_def hex_char_def)

lemma hex_char_hexdigit: "d < 16 \<Longrightarrow> is_ascii_hexdigit (hex_char d)"
  by (auto simp: hex_char_def is_ascii_hexdigit_def is_ascii_digit_def)

lemma hex_number_append:
  "hex_number acc (s @ t) = (case hex_number acc s of None \<Rightarrow> None | Some a \<Rightarrow> hex_number a t)"
  by (induction acc s rule: hex_number.induct) (auto split: option.splits)

lemma hex_number_digits: "hex_number acc (hex_digits k n) = Some (acc * 16 ^ k + n mod 16 ^ k)"
proof (induction k arbitrary: n)
  case (Suc k)
  have "n mod 16 ^ Suc k = 16 * (n div 16 mod 16 ^ k) + n mod 16"
    by (simp add: mod_mult2_eq)
  then show ?case
    by (simp add: hex_number_append Suc hex_value_char algebra_simps)
qed simp

lemma set_hex_digits: "c \<in> set (hex_digits k n) \<Longrightarrow> is_ascii_hexdigit c"
  by (induction k arbitrary: n) (auto simp: hex_char_hexdigit)

lemma split_at_32:
  assumes "length h = 32"
  shows "take 8 h @ take 4 (drop 8 h) @ take 4 (drop 12 h) @ take 4 (drop 16 h) @ drop 20 h = h"
proof -
  have "take 4 (drop 16 h) @ drop 20 h = drop 16 h"
    using append_take_drop_id [of 4 "drop 16 h"] by simp
  moreover have "take 4 (drop 12 h) @ drop 16 h = drop 12 h"
    using append_take_drop_id [of 4 "drop 12 h"] by simp
  moreover have "take 4 (drop 8 h) @ drop 12 h = drop 8 h"
    using append_take_drop_id [of 4 "drop 8 h"] by simp
  ultimately show ?thesis by simp
qed

lemma parse_hyphenated_hyphenated: "parse_hyphenated (hyphenated u) = Some u"
proof -
  define h where "h = hex_digits 32 (unat u)"
  have len: "length h = 32"
    by (simp add: h_def)
  have "hex_number 0 h = Some (unat u)"
    using unsigned_less [where 'a = nat, of u] by (simp add: h_def hex_number_digits)
  then show ?thesis
    using len split_at_32 [OF len]
    by (simp add: parse_hyphenated_def hyphenated_def Let_def nth_append flip: h_def)
qed

lemma set_hyphenated: "c \<in> set (hyphenated u) \<Longrightarrow> is_ascii_hexdigit c \<or> c = 45"
  by (auto simp: hyphenated_def Let_def dest!: in_set_takeD in_set_dropD set_hex_digits)

lemma length_hyphenated: "length (hyphenated u) = 36"
  by (simp add: hyphenated_def Let_def)

interpretation rfc4122: uuid_codec parse_hyphenated hyphenated
  by unfold_locales (auto simp: parse_hyphenated_hyphenated length_hyphenated dest: set_hyphenated)

end
