(* ===== verification/Source_Scope.thy ===== *)
theory Source_Scope
  imports Uuid_Text
begin

text \<open>
  Alert-rule source scoping (\<^verbatim>\<open>src/source_scope.rs\<close>). A rule's \<^verbatim>\<open>source_filters\<close> are texts
  \<^verbatim>\<open>source:<uuid>\<close>; \<open>constrain_search_sources\<close> computes the sources a match evaluation may
  search. The abstract policy \<open>scope_policy\<close> is the set-level model of
  \<^verbatim>\<open>formal/source-scope/model.py\<close>; the refinement theorem shows the code implements it for
  every rule scope and request, not only for the three-source universe of that script.
\<close>

definition MAX_SOURCE_FILTERS :: nat where
  "MAX_SOURCE_FILTERS = 100"

definition SOURCE_PREFIX :: rstr where
  "SOURCE_PREFIX = lit ''source:''"

datatype source_scope_error =
  TooManyRuleFilters | InvalidRuleFilter | RequestedSourceOutsideRuleScope

primrec source_scope_error_fmt :: "source_scope_error \<Rightarrow> rstr" where
  "source_scope_error_fmt TooManyRuleFilters = lit ''source_filters must contain at most 100 source IDs''"
| "source_scope_error_fmt InvalidRuleFilter =
     lit ''each source_filters value must be a UUID or source:<UUID>''"
| "source_scope_error_fmt RequestedSourceOutsideRuleScope =
     lit ''requested source_ids must be a subset of the alert rule source_filters''"

definition parse_source_filter :: "(rstr \<Rightarrow> uuid option) \<Rightarrow> rstr \<Rightarrow> source_scope_error + uuid" where
  "parse_source_filter parse_str value0 =
     (let value1 = trim value0 in
      if value1 = [] then Inl InvalidRuleFilter
      else let uuid1 = (case strip_prefix SOURCE_PREFIX value1 of None \<Rightarrow> value1 | Some r \<Rightarrow> r)
           in ok_or InvalidRuleFilter (parse_str uuid1))"

definition parse_source_filter_ids ::
  "(rstr \<Rightarrow> uuid option) \<Rightarrow> rstr list \<Rightarrow> source_scope_error + uuid list" where
  "parse_source_filter_ids parse_str values =
     (if length values > MAX_SOURCE_FILTERS then Inl TooManyRuleFilters
      else bindr (traverse (parse_source_filter parse_str) values) (\<lambda>ids. Inr (btree_collect ids)))"

definition normalize_source_filters ::
  "(rstr \<Rightarrow> uuid option) \<Rightarrow> (uuid \<Rightarrow> rstr) \<Rightarrow> rstr list \<Rightarrow> source_scope_error + rstr list" where
  "normalize_source_filters parse_str to_str values =
     bindr (parse_source_filter_ids parse_str values)
       (\<lambda>ids. Inr (map (\<lambda>source_id. SOURCE_PREFIX @ to_str source_id) ids))"

definition validate_source_filters ::
  "(rstr \<Rightarrow> uuid option) \<Rightarrow> rstr list \<Rightarrow> source_scope_error + unit" where
  "validate_source_filters parse_str values =
     bindr (parse_source_filter_ids parse_str values) (\<lambda>_. Inr ())"

definition constrain_search_sources ::
  "(rstr \<Rightarrow> uuid option) \<Rightarrow> rstr list \<Rightarrow> uuid list \<Rightarrow> source_scope_error + uuid list" where
  "constrain_search_sources parse_str rule_filters requested_source_ids =
     bindr (parse_source_filter_ids parse_str rule_filters) (\<lambda>rule_scope.
       let requested = btree_collect requested_source_ids in
       if rule_scope = [] then Inr requested
       else let rule_scope1 = btree_collect rule_scope in
         if requested = [] then Inr rule_scope1
         else if list_ex (\<lambda>source_id. \<not> btree_contains rule_scope1 source_id) requested
           then Inl RequestedSourceOutsideRuleScope
         else Inr requested)"

text \<open>The set-level policy.\<close>

definition scope_policy :: "'a set \<Rightarrow> 'a set \<Rightarrow> 'a set option" where
  "scope_policy rule_scope request_scope =
     (if rule_scope = {} then Some request_scope
      else if request_scope = {} then Some rule_scope
      else if \<not> request_scope \<subseteq> rule_scope then None
      else Some request_scope)"

section \<open>Parsing rule filters\<close>

lemma parse_source_filter_ids_ok:
  assumes "parse_source_filter_ids p vs = Inr ids"
  shows "btree_ok ids" and "length ids \<le> 100" and "ids = [] \<longleftrightarrow> vs = []"
    and "set ids = {u. \<exists>v \<in> set vs. parse_source_filter p v = Inr u}"
proof -
  from assms obtain us where len: "length vs \<le> 100"
    and us: "traverse (parse_source_filter p) vs = Inr us" and ids: "ids = btree_collect us"
    by (auto simp: parse_source_filter_ids_def MAX_SOURCE_FILTERS_def split: if_splits)
  from us have eq: "length us = length vs"
    by (simp add: traverse_eq_Inr)
  show "btree_ok ids" by (simp add: ids)
  show "length ids \<le> 100" using length_btree_collect [of us] len eq by (simp add: ids)
  show "ids = [] \<longleftrightarrow> vs = []" using eq by (auto simp: ids)
  show "set ids = {u. \<exists>v \<in> set vs. parse_source_filter p v = Inr u}"
    using traverse_set [OF us] by (simp add: ids)
qed

lemma parse_source_filter_errors: "parse_source_filter p v = Inl e \<Longrightarrow> e = InvalidRuleFilter"
  by (auto simp: parse_source_filter_def Let_def split: if_splits)

lemma parse_source_filter_ids_error:
  "parse_source_filter_ids p vs = Inl e \<longleftrightarrow>
     (length vs > 100 \<and> e = TooManyRuleFilters) \<or>
     (length vs \<le> 100 \<and> e = InvalidRuleFilter \<and> (\<exists>v \<in> set vs. \<not> is_ok (parse_source_filter p v)))"
proof (cases "traverse (parse_source_filter p) vs")
  case (Inl e')
  obtain v where v: "v \<in> set vs" "parse_source_filter p v = Inl e'"
    using traverse_error [OF Inl] by blast
  have "e' = InvalidRuleFilter"
    using v(2) by (rule parse_source_filter_errors)
  moreover have "\<not> is_ok (parse_source_filter p v)"
    using v(2) by simp
  ultimately have "e' = InvalidRuleFilter \<and> (\<exists>v \<in> set vs. \<not> is_ok (parse_source_filter p v))"
    using v(1) by blast
  with Inl show ?thesis
    by (auto simp: parse_source_filter_ids_def MAX_SOURCE_FILTERS_def)
next
  case (Inr us)
  then have "\<forall>v \<in> set vs. is_ok (parse_source_filter p v)"
    by (simp flip: traverse_is_ok)
  with Inr show ?thesis
    by (auto simp: parse_source_filter_ids_def MAX_SOURCE_FILTERS_def)
qed

section \<open>Normal form of rule filters\<close>

lemma SOURCE_PREFIX_hd: "SOURCE_PREFIX = 115 # tl SOURCE_PREFIX"
  by (simp add: SOURCE_PREFIX_def lit_def)

context uuid_codec
begin

lemma parse_prefixed: "parse_source_filter parse_str (SOURCE_PREFIX @ to_str u) = Inr u"
proof -
  have "last (to_str u) \<in> set (to_str u)"
    using to_str_nonempty by simp
  then have "\<not> is_whitespace (last (to_str u))"
    using to_str_no_whitespace by blast
  moreover have "hd (SOURCE_PREFIX @ to_str u) = 115" and "\<not> is_whitespace 115"
    by (subst SOURCE_PREFIX_hd, simp) (simp add: is_whitespace_def)
  ultimately have "trim (SOURCE_PREFIX @ to_str u) = SOURCE_PREFIX @ to_str u"
    by (intro trim_id) (simp add: to_str_nonempty)
  then show ?thesis
    by (simp add: parse_source_filter_def Let_def to_str_nonempty parse_to_str)
qed

lemma parse_bare: "parse_source_filter parse_str (to_str u) = Inr u"
proof -
  have "trim (to_str u) = to_str u"
    using to_str_no_whitespace by (intro trim_id_no_whitespace) blast
  then show ?thesis
    by (simp add: parse_source_filter_def Let_def to_str_nonempty parse_to_str SOURCE_PREFIX_def
        to_str_not_source)
qed

lemma parse_normal_form:
  assumes "btree_ok ids" and "length ids \<le> 100"
  shows "parse_source_filter_ids parse_str (map (\<lambda>u. SOURCE_PREFIX @ to_str u) ids) = Inr ids"
proof -
  have "traverse (parse_source_filter parse_str) (map (\<lambda>u. SOURCE_PREFIX @ to_str u) ids) = Inr ids"
    unfolding traverse_map by (rule traverse_id) (simp add: parse_prefixed)
  then show ?thesis
    using assms by (simp add: parse_source_filter_ids_def MAX_SOURCE_FILTERS_def btree_collect_id)
qed

lemma normalize_stable:
  assumes "normalize_source_filters parse_str to_str vs = Inr ws"
  shows "parse_source_filter_ids parse_str ws = parse_source_filter_ids parse_str vs"
    and "normalize_source_filters parse_str to_str ws = Inr ws"
    and "distinct ws"
proof -
  from assms obtain ids where ids: "parse_source_filter_ids parse_str vs = Inr ids"
    and ws: "ws = map (\<lambda>u. SOURCE_PREFIX @ to_str u) ids"
    by (auto simp: normalize_source_filters_def)
  note ok = parse_source_filter_ids_ok [OF ids]
  show eq: "parse_source_filter_ids parse_str ws = parse_source_filter_ids parse_str vs"
    using parse_normal_form [OF ok(1,2)] ids ws by simp
  then show "normalize_source_filters parse_str to_str ws = Inr ws"
    using ids ws by (simp add: normalize_source_filters_def)
  show "distinct ws"
    using ok(1) by (auto simp: ws distinct_map btree_ok_def inj_on_def to_str_inject)
qed

end

section \<open>Properties\<close>

text \<open>
  C23. The effective search scope refines the abstract policy, for every list of rule
  filters and every request: malformed filters fail with the parse error; otherwise the
  result is exactly the policy's set, in ascending order without duplicates, and a request
  outside a nonempty rule scope is rejected. A client can therefore never broaden a rule.
\<close>

theorem constrain_refines_policy:
  "constrain_search_sources p filters requested =
     bindr (parse_source_filter_ids p filters) (\<lambda>scope.
       ok_or RequestedSourceOutsideRuleScope
         (map_option sorted_list_of_set (scope_policy (set scope) (set requested))))"
proof (cases "parse_source_filter_ids p filters")
  case (Inr scope)
  have "btree_ok scope"
    using parse_source_filter_ids_ok [OF Inr] by simp
  then have "btree_collect scope = scope"
    by (rule btree_collect_id)
  with Inr show ?thesis
    by (auto simp: constrain_search_sources_def scope_policy_def Let_def btree_contains_def
        list_ex_iff btree_collect_eq)
qed (simp add: constrain_search_sources_def)

text \<open>
  Normalising the filters of a rule does not change the sources they name, is idempotent
  and leaves no duplicates, for any UUID codec that meets the documented contract.
\<close>

theorem normalize_source_filters_stable:
  assumes "uuid_codec parse_str to_str"
    and "normalize_source_filters parse_str to_str vs = Inr ws"
  shows "parse_source_filter_ids parse_str ws = parse_source_filter_ids parse_str vs \<and>
    normalize_source_filters parse_str to_str ws = Inr ws \<and> distinct ws"
  using uuid_codec.normalize_stable [OF assms] by blast

theorem normalize_source_filters_stable_witness:
  "normalize_source_filters parse_hyphenated hyphenated [hyphenated 7, SOURCE_PREFIX @ hyphenated 7]
     = Inr [SOURCE_PREFIX @ hyphenated 7] \<and>
   normalize_source_filters parse_hyphenated hyphenated [SOURCE_PREFIX @ hyphenated 7]
     = Inr [SOURCE_PREFIX @ hyphenated 7]"
proof -
  have h: "normalize_source_filters parse_hyphenated hyphenated
      [hyphenated 7, SOURCE_PREFIX @ hyphenated 7] = Inr [SOURCE_PREFIX @ hyphenated 7]"
    by (simp add: normalize_source_filters_def parse_source_filter_ids_def MAX_SOURCE_FILTERS_def
        rfc4122.parse_bare rfc4122.parse_prefixed btree_collect_def btree_insert_def)
  from normalize_source_filters_stable [OF rfc4122.uuid_codec_axioms h] h show ?thesis
    by blast
qed

end
