(* ===== verification/Floats.thy ===== *)
theory Floats
  imports Prelude
begin

text \<open>
  IEEE-754 values at their width: an \<^verbatim>\<open>f32\<close> is its 32-bit pattern, an \<^verbatim>\<open>f64\<close> its 64-bit
  pattern. A magnitude (the pattern without its sign) is decoded to an exact multiple of the
  format's smallest subnormal (\<open>dec\<close>), and an exact number is rounded to the nearest
  magnitude, ties to even (\<open>enc\<close>). Rust's comparisons (false on NaN) and PostgreSQL's (NaN is
  equal to itself and above every number) are kept apart. The sign of \<^verbatim>\<open>max\<close> of two zeros and
  the payload of a NaN, which Rust leaves open, are not observed by the program.
\<close>

type_synonym f32 = "32 word"
type_synonym f64 = "64 word"

fun ilog2 :: "nat \<Rightarrow> nat" where
  "ilog2 n = (if n < 2 then 0 else Suc (ilog2 (n div 2)))"

declare ilog2.simps [simp del]

text \<open>Round \<open>v / 2 ^ k\<close> to the nearest integer, ties to even.\<close>

definition rne :: "nat \<Rightarrow> nat \<Rightarrow> nat" where
  "rne v k = (let q = v div 2 ^ k; r = v mod 2 ^ k in
     if 2 * r > 2 ^ k \<or> 2 * r = 2 ^ k \<and> odd q then Suc q else q)"

definition dec :: "nat \<Rightarrow> nat \<Rightarrow> nat" where
  "dec p m = (let e = m div 2 ^ (p - 1); f = m mod 2 ^ (p - 1) in
     if e = 0 then f else (2 ^ (p - 1) + f) * 2 ^ (e - 1))"

definition enc :: "nat \<Rightarrow> nat \<Rightarrow> nat \<Rightarrow> nat" where
  "enc p s v = (let k = ilog2 v + 1 - (p + s) in rne v (k + s) + k * 2 ^ (p - 1))"

abbreviation inf32 :: nat where "inf32 \<equiv> 2139095040"
abbreviation inf64 :: nat where "inf64 \<equiv> 9218868437227405312"

definition mag32 :: "f32 \<Rightarrow> nat" where "mag32 x = unat x mod 2 ^ 31"
definition neg32 :: "f32 \<Rightarrow> bool" where "neg32 x \<longleftrightarrow> 2 ^ 31 \<le> unat x"
definition mag64 :: "f64 \<Rightarrow> nat" where "mag64 x = unat x mod 2 ^ 63"
definition neg64 :: "f64 \<Rightarrow> bool" where "neg64 x \<longleftrightarrow> 2 ^ 63 \<le> unat x"

definition mk32 :: "bool \<Rightarrow> nat \<Rightarrow> f32" where
  "mk32 s m = word_of_nat (m + (if s then 2 ^ 31 else 0))"

definition mk64 :: "bool \<Rightarrow> nat \<Rightarrow> f64" where
  "mk64 s m = word_of_nat (m + (if s then 2 ^ 63 else 0))"

definition is_finite32 :: "f32 \<Rightarrow> bool" where "is_finite32 x \<longleftrightarrow> mag32 x < inf32"
definition is_nan32 :: "f32 \<Rightarrow> bool" where "is_nan32 x \<longleftrightarrow> mag32 x > inf32"
definition is_finite64 :: "f64 \<Rightarrow> bool" where "is_finite64 x \<longleftrightarrow> mag64 x < inf64"
definition is_nan64 :: "f64 \<Rightarrow> bool" where "is_nan64 x \<longleftrightarrow> mag64 x > inf64"

text \<open>The order of the non-NaN values is the order of their signed magnitudes.\<close>

definition ord32 :: "f32 \<Rightarrow> int" where
  "ord32 x = (if neg32 x then - int (mag32 x) else int (mag32 x))"

definition ord64 :: "f64 \<Rightarrow> int" where
  "ord64 x = (if neg64 x then - int (mag64 x) else int (mag64 x))"

definition le32 :: "f32 \<Rightarrow> f32 \<Rightarrow> bool" where
  "le32 x y \<longleftrightarrow> \<not> is_nan32 x \<and> \<not> is_nan32 y \<and> ord32 x \<le> ord32 y"

definition lt32 :: "f32 \<Rightarrow> f32 \<Rightarrow> bool" where
  "lt32 x y \<longleftrightarrow> \<not> is_nan32 x \<and> \<not> is_nan32 y \<and> ord32 x < ord32 y"

definition le64 :: "f64 \<Rightarrow> f64 \<Rightarrow> bool" where
  "le64 x y \<longleftrightarrow> \<not> is_nan64 x \<and> \<not> is_nan64 y \<and> ord64 x \<le> ord64 y"

definition lt64 :: "f64 \<Rightarrow> f64 \<Rightarrow> bool" where
  "lt64 x y \<longleftrightarrow> \<not> is_nan64 x \<and> \<not> is_nan64 y \<and> ord64 x < ord64 y"

definition zero32 :: f32 where "zero32 = 0"
definition one32 :: f32 where "one32 = 1065353216"
definition zero64 :: f64 where "zero64 = 0"
definition one64 :: f64 where "one64 = 4607182418800017408"

text \<open>\<^verbatim>\<open>(0.0..=1.0).contains(&x)\<close>\<close>

definition in_unit32 :: "f32 \<Rightarrow> bool" where "in_unit32 x \<longleftrightarrow> le32 zero32 x \<and> le32 x one32"
definition in_unit64 :: "f64 \<Rightarrow> bool" where "in_unit64 x \<longleftrightarrow> le64 zero64 x \<and> le64 x one64"

definition max32 :: "f32 \<Rightarrow> f32 \<Rightarrow> f32" where
  "max32 x y = (if is_nan32 x then y else if is_nan32 y then x else if lt32 x y then y else x)"

definition max64 :: "f64 \<Rightarrow> f64 \<Rightarrow> f64" where
  "max64 x y = (if is_nan64 x then y else if is_nan64 y then x else if lt64 x y then y else x)"

text \<open>\<^verbatim>\<open>f64::from(x)\<close> and \<^verbatim>\<open>x as f64\<close> widen exactly; \<^verbatim>\<open>x as f32\<close> rounds to nearest even.\<close>

definition f64_from :: "f32 \<Rightarrow> f64" where
  "f64_from x = (if is_nan32 x then mk64 (neg32 x) (inf64 + 2 ^ 51)
     else if mag32 x = inf32 then mk64 (neg32 x) inf64
     else mk64 (neg32 x) (enc 53 0 (dec 24 (mag32 x) * 2 ^ 925)))"

definition f32_from :: "f64 \<Rightarrow> f32" where
  "f32_from x = (if is_nan64 x then mk32 (neg64 x) (inf32 + 2 ^ 22)
     else if mag64 x = inf64 then mk32 (neg64 x) inf32
     else mk32 (neg64 x) (min inf32 (enc 24 925 (dec 53 (mag64 x)))))"

text \<open>Subtraction of doubles, as PostgreSQL computes \<^verbatim>\<open>1.0 - distance\<close>.\<close>

definition val64 :: "f64 \<Rightarrow> int" where
  "val64 x = (if neg64 x then - int (dec 53 (mag64 x)) else int (dec 53 (mag64 x)))"

definition sub64 :: "f64 \<Rightarrow> f64 \<Rightarrow> f64" where
  "sub64 x y = (if is_nan64 x \<or> is_nan64 y then mk64 False (inf64 + 2 ^ 51)
     else if mag64 x = inf64 then
       (if mag64 y = inf64 \<and> neg64 x = neg64 y then mk64 False (inf64 + 2 ^ 51) else x)
     else if mag64 y = inf64 then mk64 (\<not> neg64 y) inf64
     else let d = val64 x - val64 y
       in mk64 (d < 0) (min inf64 (enc 53 0 (nat \<bar>d\<bar>))))"

text \<open>PostgreSQL's order on \<^verbatim>\<open>double precision\<close>.\<close>

definition pg_key :: "f64 \<Rightarrow> int" where
  "pg_key x = (if is_nan64 x then 2 ^ 63 else ord64 x)"

definition pg_le :: "f64 \<Rightarrow> f64 \<Rightarrow> bool" where "pg_le x y \<longleftrightarrow> pg_key x \<le> pg_key y"
definition pg_lt :: "f64 \<Rightarrow> f64 \<Rightarrow> bool" where "pg_lt x y \<longleftrightarrow> pg_key x < pg_key y"

section \<open>Rounding\<close>

lemma ilog2_bounds: "0 < n \<Longrightarrow> 2 ^ ilog2 n \<le> n \<and> n < 2 ^ Suc (ilog2 n)"
proof (induction n rule: ilog2.induct)
  case (1 n)
  show ?case
  proof (cases "n < 2")
    case True
    with 1 show ?thesis by (simp add: ilog2.simps)
  next
    case False
    with 1 have IH: "2 ^ ilog2 (n div 2) \<le> n div 2 \<and> n div 2 < 2 ^ Suc (ilog2 (n div 2))"
      by simp
    from False have "ilog2 n = Suc (ilog2 (n div 2))"
      by (simp add: ilog2.simps [of n])
    with IH show ?thesis by (auto; linarith)
  qed
qed

lemma ilog2_unique: "2 ^ k \<le> n \<Longrightarrow> n < 2 ^ Suc k \<Longrightarrow> ilog2 n = k"
proof -
  assume a: "2 ^ k \<le> n" "n < 2 ^ Suc k"
  then have b: "2 ^ ilog2 n \<le> n" "n < 2 ^ Suc (ilog2 n)"
    using ilog2_bounds [of n] by (auto intro: Nat.gr0I)
  from a(1) b(2) have "k < Suc (ilog2 n)"
    by (metis le_less_trans numeral_One numeral_less_iff power_strict_increasing_iff semiring_norm(76))
  moreover from b(1) a(2) have "ilog2 n < Suc k"
    by (metis le_less_trans numeral_One numeral_less_iff power_strict_increasing_iff semiring_norm(76))
  ultimately show ?thesis by simp
qed

lemma ilog2_less: "n < 2 ^ k \<Longrightarrow> 0 < n \<Longrightarrow> ilog2 n < k"
  using ilog2_bounds [of n]
  by (metis le_less_trans numeral_One numeral_less_iff power_strict_increasing_iff semiring_norm(76))

lemma ilog2_mono: "v \<le> w \<Longrightarrow> ilog2 v \<le> ilog2 w"
proof (cases "v = 0")
  case True
  then show ?thesis by (simp add: ilog2.simps [of 0])
next
  case False
  assume "v \<le> w"
  with False have "v < 2 ^ Suc (ilog2 w)"
    using ilog2_bounds [of w] by auto
  with False show ?thesis using ilog2_less [of v "Suc (ilog2 w)"] by simp
qed

lemma rne_bounds: "v div 2 ^ k \<le> rne v k" "rne v k \<le> Suc (v div 2 ^ k)"
  by (simp_all add: rne_def Let_def)

lemma rne_exact [simp]: "rne (q * 2 ^ k) k = q"
  by (simp add: rne_def Let_def)

lemma rne_mono: "v \<le> w \<Longrightarrow> rne v k \<le> rne w k"
proof -
  assume le: "v \<le> w"
  then have d: "v div 2 ^ k \<le> w div 2 ^ k"
    by (rule div_le_mono)
  show ?thesis
  proof (cases "v div 2 ^ k = w div 2 ^ k")
    case True
    then have "v mod 2 ^ k \<le> w mod 2 ^ k"
      using le by (metis div_mult_mod_eq add_le_cancel_left)
    with True show ?thesis by (auto simp: rne_def Let_def)
  next
    case False
    with d have "Suc (v div 2 ^ k) \<le> w div 2 ^ k" by simp
    then show ?thesis using rne_bounds [of v k] rne_bounds [of w k] by linarith
  qed
qed

lemma enc_lower:
  assumes "k = ilog2 v + 1 - (p + s)" and "0 < k" and "0 < p"
  shows "(k + 1) * 2 ^ (p - 1) \<le> enc p s v"
proof -
  from assms have "ilog2 v = (p - 1) + (k + s)" by simp
  moreover have "0 < v" using assms by (auto intro!: Nat.gr0I simp: ilog2.simps [of 0])
  ultimately have "2 ^ (p - 1) * 2 ^ (k + s) \<le> v"
    using ilog2_bounds [of v] by (simp add: power_add)
  then have "2 ^ (p - 1) \<le> v div 2 ^ (k + s)"
    by (simp add: less_eq_div_iff_mult_less_eq)
  then have "2 ^ (p - 1) \<le> rne v (k + s)"
    using rne_bounds(1) [of v "k + s"] by linarith
  then show ?thesis
    unfolding enc_def Let_def assms(1) [symmetric] by (simp add: algebra_simps)
qed

lemma enc_upper:
  assumes "k = ilog2 v + 1 - (p + s)" and "0 < p"
  shows "enc p s v \<le> (k + 2) * 2 ^ (p - 1)"
proof -
  have "v < 2 ^ (p + (k + s))"
  proof (cases "v = 0")
    case False
    then have "v < 2 ^ Suc (ilog2 v)" using ilog2_bounds [of v] by simp
    also have "\<dots> \<le> 2 ^ (p + (k + s))" using assms by (intro power_increasing) auto
    finally show ?thesis .
  qed simp
  then have "v div 2 ^ (k + s) < 2 ^ p"
    by (simp add: power_add less_mult_imp_div_less mult.commute)
  then have "rne v (k + s) \<le> 2 ^ p"
    using rne_bounds(2) [of v "k + s"] by linarith
  moreover have "(2::nat) ^ p = 2 * 2 ^ (p - 1)"
    using assms(2) by (cases p) auto
  ultimately show ?thesis
    unfolding enc_def Let_def assms(1) [symmetric] by (simp add: algebra_simps)
qed

lemma enc_mono:
  assumes "v \<le> w" and "0 < p"
  shows "enc p s v \<le> enc p s w"
proof -
  define kv kw where "kv = ilog2 v + 1 - (p + s)" and "kw = ilog2 w + 1 - (p + s)"
  have "kv \<le> kw" using ilog2_mono [OF assms(1)] by (simp add: kv_def kw_def)
  then consider "kv = kw" | "kv < kw" by linarith
  then show ?thesis
  proof cases
    case 1
    then show ?thesis using rne_mono [OF assms(1)] by (simp add: enc_def Let_def kv_def kw_def)
  next
    case 2
    then have "(kv + 2) * 2 ^ (p - 1) \<le> (kw + 1) * 2 ^ (p - 1)"
      by (intro mult_right_mono) auto
    moreover have "enc p s v \<le> (kv + 2) * 2 ^ (p - 1)"
      using kv_def assms(2) by (rule enc_upper)
    moreover have "(kw + 1) * 2 ^ (p - 1) \<le> enc p s w"
      using 2 by (intro enc_lower [OF kw_def _ assms(2)]) simp
    ultimately show ?thesis by linarith
  qed
qed

lemma enc_scaled: \<comment> \<open>a number with at most \<open>p\<close> significant bits is encoded exactly\<close>
  assumes "2 ^ (p - 1) \<le> q" and "q < 2 ^ p" and "0 < p"
  shows "enc p s (q * 2 ^ (k + s)) = q + k * 2 ^ (p - 1)"
proof -
  have "ilog2 (q * 2 ^ (k + s)) = (p - 1) + (k + s)"
  proof (rule ilog2_unique)
    show "2 ^ (p - 1 + (k + s)) \<le> q * 2 ^ (k + s)"
      using assms(1) by (simp add: power_add)
    have "q * 2 ^ (k + s) < 2 ^ p * 2 ^ (k + s)"
      using assms(2) by simp
    also have "\<dots> = 2 ^ Suc (p - 1 + (k + s))"
      using assms(3) by (simp flip: power_add power_Suc)
    finally show "q * 2 ^ (k + s) < 2 ^ Suc (p - 1 + (k + s))" .
  qed
  then have "ilog2 (q * 2 ^ (k + s)) + 1 - (p + s) = k"
    using assms(3) by simp
  then show ?thesis by (simp add: enc_def Let_def)
qed

lemma enc_small:
  assumes "v < 2 ^ p" and "0 < p"
  shows "enc p s (v * 2 ^ s) = v"
proof (cases "v = 0")
  case True
  with assms show ?thesis by (simp add: enc_def Let_def ilog2.simps [of 0] rne_def)
next
  case False
  with assms(1) have "ilog2 (v * 2 ^ s) < p + s"
    by (intro ilog2_less) (auto simp: power_add)
  then show ?thesis by (simp add: enc_def Let_def)
qed

lemma dec_cases:
  assumes "0 < p"
  obtains (sub) "m < 2 ^ (p - 1)" "dec p m = m"
  | (norm) e q where "m = q + e * 2 ^ (p - 1)" "2 ^ (p - 1) \<le> q" "q < 2 ^ p" "dec p m = q * 2 ^ e"
proof (cases "m div 2 ^ (p - 1) = 0")
  case True
  then have "m < 2 ^ (p - 1)" by (simp add: div_eq_0_iff)
  with sub show ?thesis by (simp add: dec_def Let_def)
next
  case False
  let ?e = "m div 2 ^ (p - 1) - 1" and ?q = "2 ^ (p - 1) + m mod 2 ^ (p - 1)"
  have "m = m div 2 ^ (p - 1) * 2 ^ (p - 1) + m mod 2 ^ (p - 1)"
    by (simp only: div_mult_mod_eq)
  also have "m div 2 ^ (p - 1) = Suc ?e" using False by simp
  finally have "m = ?q + ?e * 2 ^ (p - 1)" by simp
  moreover have "?q < 2 ^ p"
    using assms by (cases p) (auto simp: mult_2)
  ultimately show ?thesis
    using norm [of ?q ?e] False by (simp add: dec_def Let_def)
qed

lemma enc_dec:
  assumes p: "0 < p"
  shows "enc p s (dec p m * 2 ^ s) = m"
proof (cases rule: dec_cases [OF p, of m])
  case 1
  then have "m < 2 ^ p" using p by (cases p) auto
  then show ?thesis using 1 p by (simp add: enc_small)
next
  case (2 e q)
  then have "enc p s (q * 2 ^ (e + s)) = q + e * 2 ^ (p - 1)"
    using p by (intro enc_scaled)
  then show ?thesis using 2 by (simp add: power_add mult.assoc)
qed

lemma dec_enc_scaled:
  assumes "2 ^ (p - 1) \<le> q" and "q < 2 ^ p" and "0 < p"
  shows "dec p (q + k * 2 ^ (p - 1)) = q * 2 ^ k"
proof -
  define f where "f = q - 2 ^ (p - 1)"
  have q: "q = 2 ^ (p - 1) + f" using assms(1) by (simp add: f_def)
  have "(2::nat) ^ p = 2 ^ (p - 1) + 2 ^ (p - 1)" using assms(3) by (cases p) auto
  then have f: "f < 2 ^ (p - 1)" using assms(2) q by linarith
  have "q + k * 2 ^ (p - 1) = Suc k * 2 ^ (p - 1) + f" by (simp add: q)
  then have "(q + k * 2 ^ (p - 1)) div 2 ^ (p - 1) = Suc k" and "(q + k * 2 ^ (p - 1)) mod 2 ^ (p - 1) = f"
    using f by (simp_all del: mult_Suc)
  then show ?thesis by (simp add: dec_def q)
qed

lemma dec_enc_exact:
  assumes "a < 2 ^ p" and "0 < p"
  shows "dec p (enc p 0 (a * 2 ^ j)) = a * 2 ^ j"
proof (cases "a * 2 ^ j < 2 ^ p")
  case True
  then have e: "enc p 0 (a * 2 ^ j) = a * 2 ^ j" using enc_small [of "a * 2 ^ j" p 0] assms(2) by simp
  show ?thesis
  proof (cases "a * 2 ^ j < 2 ^ (p - 1)")
    case True
    then show ?thesis by (simp add: e dec_def Let_def)
  next
    case False
    with True assms(2) show ?thesis using dec_enc_scaled [of p "a * 2 ^ j" 0] by (simp add: e)
  qed
next
  case False
  then have "0 < a" by (auto intro: Nat.gr0I)
  define i where "i = p - 1 - ilog2 a"
  have "ilog2 a < p" using assms \<open>0 < a\<close> by (intro ilog2_less)
  then have i: "i + ilog2 a = p - 1" by (simp add: i_def)
  have lo: "2 ^ (p - 1) \<le> a * 2 ^ i" and hi: "a * 2 ^ i < 2 ^ p"
  proof -
    have "2 ^ ilog2 a * 2 ^ i \<le> a * 2 ^ i" using ilog2_bounds [OF \<open>0 < a\<close>] by simp
    then show "2 ^ (p - 1) \<le> a * 2 ^ i" using i by (metis add.commute power_add)
    have "a * 2 ^ i < 2 ^ Suc (ilog2 a) * 2 ^ i" using ilog2_bounds [OF \<open>0 < a\<close>] by simp
    also have "\<dots> = 2 ^ p" using i assms(2) by (simp flip: power_add power_Suc add: add.commute)
    finally show "a * 2 ^ i < 2 ^ p" .
  qed
  have "i \<le> j"
  proof (rule ccontr)
    assume "\<not> i \<le> j"
    then have "a * 2 ^ j \<le> a * 2 ^ i" by (intro mult_left_mono power_increasing) auto
    with hi False show False by simp
  qed
  then have "a * 2 ^ j = (a * 2 ^ i) * 2 ^ (j - i)" by (simp flip: power_add)
  moreover have "enc p 0 ((a * 2 ^ i) * 2 ^ (j - i)) = a * 2 ^ i + (j - i) * 2 ^ (p - 1)"
    using enc_scaled [OF lo hi assms(2), of 0 "j - i"] by simp
  ultimately show ?thesis
    by (metis dec_enc_scaled [OF lo hi assms(2), of "j - i"])
qed

lemma dec_mono:
  assumes "m \<le> n" and "0 < p"
  shows "dec p m \<le> dec p n"
proof (rule ccontr)
  assume "\<not> dec p m \<le> dec p n"
  then have "enc p 0 (dec p n) \<le> enc p 0 (dec p m)"
    using assms(2) by (intro enc_mono) auto
  then have "n \<le> m" using enc_dec [OF assms(2), of 0] by simp
  with assms(1) have "m = n" by simp
  with \<open>\<not> dec p m \<le> dec p n\<close> show False by simp
qed

section \<open>Evaluation of the classes and the order on bit patterns\<close>

lemma of_nat_mag32: "int (mag32 x) = uint x mod 2 ^ 31"
  by (simp add: mag32_def of_nat_mod)

lemma of_nat_mag64: "int (mag64 x) = uint x mod 2 ^ 63"
  by (simp add: mag64_def of_nat_mod)

lemma neg32_code [code]: "neg32 x \<longleftrightarrow> 2147483648 \<le> uint x"
proof -
  have "neg32 x \<longleftrightarrow> int (2 ^ 31) \<le> int (unat x)"
    unfolding neg32_def by (simp only: of_nat_le_iff)
  then show ?thesis by simp
qed

lemma neg64_code [code]: "neg64 x \<longleftrightarrow> 9223372036854775808 \<le> uint x"
proof -
  have "neg64 x \<longleftrightarrow> int (2 ^ 63) \<le> int (unat x)"
    unfolding neg64_def by (simp only: of_nat_le_iff)
  then show ?thesis by simp
qed

lemma class32_code [code]:
  "is_finite32 x \<longleftrightarrow> uint x mod 2147483648 < 2139095040"
  "is_nan32 x \<longleftrightarrow> uint x mod 2147483648 > 2139095040"
  "ord32 x = (if neg32 x then - (uint x mod 2147483648) else uint x mod 2147483648)"
  using of_nat_mag32 [of x] by (auto simp: is_finite32_def is_nan32_def ord32_def)

lemma class64_code [code]:
  "is_finite64 x \<longleftrightarrow> uint x mod 9223372036854775808 < 9218868437227405312"
  "is_nan64 x \<longleftrightarrow> uint x mod 9223372036854775808 > 9218868437227405312"
  "ord64 x = (if neg64 x then - (uint x mod 9223372036854775808) else uint x mod 9223372036854775808)"
  using of_nat_mag64 [of x] by (auto simp: is_finite64_def is_nan64_def ord64_def)

section \<open>Conversions between the widths\<close>

lemma mag32_less: "mag32 x < 2 ^ 31"
  by (simp add: mag32_def)

lemma mag64_less: "mag64 x < 2 ^ 63"
  by (simp add: mag64_def)

lemma mk32_fields:
  assumes "m < 2 ^ 31"
  shows "mag32 (mk32 s m) = m" and "neg32 (mk32 s m) = s"
proof -
  have "unat (mk32 s m) = m + (if s then 2 ^ 31 else 0)"
    unfolding mk32_def using assms by (subst unat_of_nat) simp
  then show "mag32 (mk32 s m) = m" and "neg32 (mk32 s m) = s"
    using assms by (simp_all add: mag32_def neg32_def)
qed

lemma mk64_fields:
  assumes "m < 2 ^ 63"
  shows "mag64 (mk64 s m) = m" and "neg64 (mk64 s m) = s"
proof -
  have "unat (mk64 s m) = m + (if s then 2 ^ 63 else 0)"
    unfolding mk64_def using assms by (subst unat_of_nat) simp
  then show "mag64 (mk64 s m) = m" and "neg64 (mk64 s m) = s"
    using assms by (simp_all add: mag64_def neg64_def)
qed

lemma mk32_collapse: "mk32 (neg32 x) (mag32 x) = x"
proof -
  have "unat x < 2 ^ 32" using unsigned_less [where 'a = nat, of x] by simp
  then have "mag32 x + (if neg32 x then 2 ^ 31 else 0) = unat x"
    by (auto simp: mag32_def neg32_def mod_if)
  then show ?thesis by (simp add: mk32_def)
qed

lemma widen_bound:
  assumes "m < inf32"
  shows "enc 53 0 (dec 24 m * 2 ^ 925) < inf64"
proof -
  have "dec 24 m \<le> dec 24 inf32" using assms by (intro dec_mono) auto
  also have "dec 24 inf32 = 2 ^ 23 * 2 ^ 254" by (simp add: dec_def)
  finally have "dec 24 m * 2 ^ 925 \<le> 2 ^ 52 * 2 ^ (1150 + 0)"
    using mult_right_mono [of "dec 24 m" "2 ^ 23 * 2 ^ 254" "2 ^ 925"] by (simp flip: power_add)
  then have "enc 53 0 (dec 24 m * 2 ^ 925) \<le> enc 53 0 (2 ^ 52 * 2 ^ (1150 + 0))"
    by (intro enc_mono) auto
  also have "\<dots> = 2 ^ 52 + 1150 * 2 ^ (53 - 1)" by (intro enc_scaled) auto
  finally show ?thesis by simp
qed

lemma f64_from_finite:
  assumes "is_finite32 x"
  shows "mag64 (f64_from x) = enc 53 0 (dec 24 (mag32 x) * 2 ^ 925)"
    and "neg64 (f64_from x) = neg32 x" and "is_finite64 (f64_from x)"
proof -
  have b: "enc 53 0 (dec 24 (mag32 x) * 2 ^ 925) < inf64"
    using assms by (intro widen_bound) (simp add: is_finite32_def)
  then have e: "f64_from x = mk64 (neg32 x) (enc 53 0 (dec 24 (mag32 x) * 2 ^ 925))"
    using assms by (simp add: f64_from_def is_finite32_def is_nan32_def)
  show m: "mag64 (f64_from x) = enc 53 0 (dec 24 (mag32 x) * 2 ^ 925)"
    unfolding e using b by (intro mk64_fields) simp
  show "neg64 (f64_from x) = neg32 x"
    unfolding e using b by (intro mk64_fields) simp
  show "is_finite64 (f64_from x)" using b by (simp only: is_finite64_def m)
qed

lemma dec24_less:
  assumes "m < inf32"
  shows "\<exists>a j. a < 2 ^ 53 \<and> dec 24 m * 2 ^ 925 = a * 2 ^ j"
proof -
  have p: "0 < (24::nat)" by simp
  show ?thesis
  proof (cases rule: dec_cases [OF p, of m])
    case 1
    then show ?thesis using assms by (intro exI [of _ m] exI [of _ 925]) simp
  next
    case (2 e q)
    then show ?thesis by (intro exI [of _ q] exI [of _ "e + 925"]) (simp add: power_add)
  qed
qed

text \<open>Narrowing undoes widening exactly.\<close>

lemma f32_from_f64_from:
  assumes "is_finite32 x"
  shows "f32_from (f64_from x) = x"
proof -
  note w = f64_from_finite [OF assms]
  have m: "mag32 x < inf32" using assms by (simp add: is_finite32_def)
  obtain a j where aj: "a < 2 ^ 53" "dec 24 (mag32 x) * 2 ^ 925 = a * 2 ^ j"
    using dec24_less [OF m] by blast
  have "dec 53 (mag64 (f64_from x)) = dec 24 (mag32 x) * 2 ^ 925"
    unfolding w(1) aj(2) by (rule dec_enc_exact [OF aj(1)]) simp
  then have "enc 24 925 (dec 53 (mag64 (f64_from x))) = mag32 x"
    by (simp only: enc_dec)
  then have "f32_from (f64_from x) = mk32 (neg32 x) (min inf32 (mag32 x))"
    using w(2,3) by (simp add: f32_from_def is_finite64_def is_nan64_def)
  also have "\<dots> = x" using m mk32_collapse [of x] by simp
  finally show ?thesis .
qed

text \<open>
  Both conversions are monotone on the values a threshold can take: those in the unit
  interval (which includes the negative zero).
\<close>

lemma in_unit64_iff: "in_unit64 x \<longleftrightarrow> (\<not> neg64 x \<or> mag64 x = 0) \<and> mag64 x \<le> 4607182418800017408"
proof -
  have "mag64 zero64 = 0" "\<not> neg64 zero64" "mag64 one64 = 4607182418800017408" "\<not> neg64 one64"
    by (simp_all add: zero64_def one64_def mag64_def neg64_def)
  then show ?thesis
    by (auto simp: in_unit64_def le64_def is_nan64_def ord64_def)
qed

lemma in_unit32_iff: "in_unit32 x \<longleftrightarrow> (\<not> neg32 x \<or> mag32 x = 0) \<and> mag32 x \<le> 1065353216"
proof -
  have "mag32 zero32 = 0" "\<not> neg32 zero32" "mag32 one32 = 1065353216" "\<not> neg32 one32"
    by (simp_all add: zero32_def one32_def mag32_def neg32_def)
  then show ?thesis
    by (auto simp: in_unit32_def le32_def is_nan32_def ord32_def)
qed

lemma in_unit32_finite: "in_unit32 x \<Longrightarrow> is_finite32 x"
  by (simp add: in_unit32_iff is_finite32_def)

lemma ord_unit32: "in_unit32 x \<Longrightarrow> ord32 x = int (mag32 x)"
  by (auto simp: in_unit32_iff ord32_def)

lemma ord_unit64: "in_unit64 x \<Longrightarrow> ord64 x = int (mag64 x)"
  by (auto simp: in_unit64_iff ord64_def)

lemma dec24_one: "dec 24 1065353216 = 2 ^ 149"
  by (simp add: dec_def)

lemma dec53_one: "dec 53 4607182418800017408 = 2 ^ 52 * 2 ^ 1022"
  by (simp add: dec_def)

lemma enc53_one: "enc 53 0 (2 ^ 149 * 2 ^ 925) = 4607182418800017408"
  using enc_scaled [of 53 "2 ^ 52" 0 1022] by (simp flip: power_add)

lemma enc24_one: "enc 24 925 (2 ^ 52 * 2 ^ 1022) = 1065353216"
  using enc_scaled [of 24 "2 ^ 23" 925 126] by (simp flip: power_add)

lemma f64_from_unit:
  assumes "in_unit32 x"
  shows "in_unit64 (f64_from x)"
proof -
  note w = f64_from_finite [OF in_unit32_finite [OF assms]]
  have "dec 24 (mag32 x) \<le> dec 24 1065353216"
    using assms by (intro dec_mono) (auto simp: in_unit32_iff)
  then have "dec 24 (mag32 x) * 2 ^ 925 \<le> 2 ^ 149 * 2 ^ 925"
    unfolding dec24_one by (intro mult_right_mono) simp_all
  then have "mag64 (f64_from x) \<le> enc 53 0 (2 ^ 149 * 2 ^ 925)"
    unfolding w(1) by (intro enc_mono) simp_all
  then have "mag64 (f64_from x) \<le> 4607182418800017408"
    by (simp only: enc53_one)
  moreover have "mag32 x = 0 \<Longrightarrow> mag64 (f64_from x) = 0"
    unfolding w(1) using enc_small [of 0 53 0] by (simp add: dec_def)
  ultimately show ?thesis using assms w(2) by (auto simp: in_unit64_iff in_unit32_iff)
qed

lemma f32_from_unit:
  assumes "in_unit64 x"
  shows "mag32 (f32_from x) = enc 24 925 (dec 53 (mag64 x))"
    and "in_unit32 (f32_from x)"
proof -
  have le: "mag64 x \<le> 4607182418800017408" using assms by (simp add: in_unit64_iff)
  then have "dec 53 (mag64 x) \<le> 2 ^ 52 * 2 ^ 1022"
    unfolding dec53_one [symmetric] by (intro dec_mono) simp_all
  then have "enc 24 925 (dec 53 (mag64 x)) \<le> enc 24 925 (2 ^ 52 * 2 ^ 1022)"
    by (intro enc_mono) simp_all
  then have b: "enc 24 925 (dec 53 (mag64 x)) \<le> 1065353216"
    by (simp only: enc24_one)
  have e: "f32_from x = mk32 (neg64 x) (enc 24 925 (dec 53 (mag64 x)))"
    using le b by (simp add: f32_from_def is_nan64_def min_def)
  show m: "mag32 (f32_from x) = enc 24 925 (dec 53 (mag64 x))"
    unfolding e using b by (intro mk32_fields) simp
  have "neg32 (f32_from x) = neg64 x" unfolding e using b by (intro mk32_fields) simp
  moreover have "mag64 x = 0 \<Longrightarrow> mag32 (f32_from x) = 0"
    unfolding m using enc_small [of 0 24 925] by (simp add: dec_def)
  ultimately show "in_unit32 (f32_from x)"
    using assms b m by (auto simp: in_unit64_iff in_unit32_iff)
qed

lemma le32_unit: "in_unit32 x \<Longrightarrow> in_unit32 y \<Longrightarrow> le32 x y \<longleftrightarrow> mag32 x \<le> mag32 y"
  by (simp add: le32_def is_nan32_def ord_unit32) (simp add: in_unit32_iff)

lemma le64_unit: "in_unit64 x \<Longrightarrow> in_unit64 y \<Longrightarrow> le64 x y \<longleftrightarrow> mag64 x \<le> mag64 y"
  by (simp add: le64_def is_nan64_def ord_unit64) (simp add: in_unit64_iff)

lemma f64_from_mono:
  assumes "in_unit32 x" and "in_unit32 y" and "le32 x y"
  shows "le64 (f64_from x) (f64_from y)"
proof -
  have "dec 24 (mag32 x) \<le> dec 24 (mag32 y)"
    using assms by (intro dec_mono) (auto simp: le32_unit)
  then have "enc 53 0 (dec 24 (mag32 x) * 2 ^ 925) \<le> enc 53 0 (dec 24 (mag32 y) * 2 ^ 925)"
    by (intro enc_mono mult_right_mono) simp_all
  then show ?thesis
    using assms by (simp only: le64_unit [OF f64_from_unit f64_from_unit]
        f64_from_finite(1) [OF in_unit32_finite])
qed

lemma f32_from_mono:
  assumes "in_unit64 x" and "in_unit64 y" and "le64 x y"
  shows "le32 (f32_from x) (f32_from y)"
proof -
  have "dec 53 (mag64 x) \<le> dec 53 (mag64 y)"
    using assms by (intro dec_mono) (auto simp: le64_unit)
  then have "enc 24 925 (dec 53 (mag64 x)) \<le> enc 24 925 (dec 53 (mag64 y))"
    by (intro enc_mono) simp_all
  then show ?thesis
    using assms by (simp only: le32_unit [OF f32_from_unit(2) f32_from_unit(2)] f32_from_unit(1))
qed

text \<open>A double at or above a single stays at or above it when narrowed.\<close>

lemma f32_from_ge:
  assumes "in_unit32 t" and "in_unit64 y" and "le64 (f64_from t) y"
  shows "le32 t (f32_from y)"
  using f32_from_mono [OF f64_from_unit [OF assms(1)] assms(2,3)]
    f32_from_f64_from [OF in_unit32_finite [OF assms(1)]] by simp

lemma max64_unit:
  assumes "in_unit64 x" and "in_unit64 y"
  shows "in_unit64 (max64 x y)" and "le64 x (max64 x y)" and "le64 y (max64 x y)"
  using assms by (auto simp: max64_def lt64_def le64_def is_nan64_def ord_unit64 in_unit64_iff)

lemma max32_unit:
  assumes "in_unit32 y"
  shows "le32 y (max32 x y)"
  using assms by (auto simp: max32_def lt32_def le32_def is_nan32_def in_unit32_iff)

lemma le32_trans: "le32 x y \<Longrightarrow> le32 y z \<Longrightarrow> le32 x z"
  by (auto simp: le32_def)

lemma le64_trans: "le64 x y \<Longrightarrow> le64 y z \<Longrightarrow> le64 x z"
  by (auto simp: le64_def)

lemma pg_le_iff: "\<not> is_nan64 x \<Longrightarrow> \<not> is_nan64 y \<Longrightarrow> pg_le x y \<longleftrightarrow> le64 x y"
  by (simp add: pg_le_def pg_key_def le64_def)

section \<open>Zero and one\<close>

lemma enc_0: "0 < p \<Longrightarrow> enc p s 0 = 0"
  using enc_small [of 0 p s] by simp

lemma f64_from_0: "f64_from 0 = 0"
  by (simp add: f64_from_def dec_def mk64_def mag32_def neg32_def is_nan32_def enc_0)

lemma f32_from_0: "f32_from 0 = 0"
  by (simp add: f32_from_def dec_def mk32_def mag64_def neg64_def is_nan64_def enc_0)

lemma one64_fields: "\<not> neg64 one64" "mag64 one64 = 4607182418800017408" "\<not> neg64 0" "mag64 0 = 0"
  "\<not> is_nan64 one64" "\<not> is_nan64 0"
  by (simp_all add: one64_def neg64_def mag64_def is_nan64_def)

lemma sub64_one_zero: "sub64 one64 0 = one64"
proof -
  have "val64 one64 - val64 0 = int (dec 53 4607182418800017408)"
    by (simp add: val64_def one64_fields dec_def)
  moreover have "enc 53 0 (dec 53 4607182418800017408) = 4607182418800017408"
    using enc_dec [of 53 0 4607182418800017408] by simp
  ultimately show ?thesis
    by (simp add: sub64_def one64_fields one64_fields [unfolded one64_def] mk64_def Let_def one64_def)
qed

lemma pg_key_0_1: "pg_key 0 = 0" "pg_key one64 = 4607182418800017408"
  by (simp_all add: pg_key_def ord64_def one64_fields)

end
