(* ===== verification/Alerts.thy ===== *)
theory Alerts
  imports Source_Scope Floats
begin

text \<open>
  Alert-rule input (\<^verbatim>\<open>src/alerts.rs\<close>): the request body \<open>create_alert_rule_input\<close>, its
  normalisation and validation, and the stored rule \<open>alert_rule\<close>. Validation errors are the
  texts the API returns.
\<close>

definition MAX_NAME_BYTES :: nat where "MAX_NAME_BYTES = 256"
definition MAX_QUERY_CHARS :: nat where "MAX_QUERY_CHARS = 700"
definition MAX_MODEL_BYTES :: nat where "MAX_MODEL_BYTES = 160"
definition MAX_DELIVERY_CHANNELS :: nat where "MAX_DELIVERY_CHANNELS = 32"
definition MAX_DELIVERY_CHANNEL_BYTES :: nat where "MAX_DELIVERY_CHANNEL_BYTES = 120"

record alert_rule =
  ar_id :: uuid
  ar_tenant_id :: uuid
  ar_owner_subject :: rstr
  ar_revision_id :: uuid
  ar_revision_number :: int
  ar_created_at :: timestamp
  ar_updated_at :: timestamp
  ar_revision_created_at :: timestamp
  ar_name :: rstr
  ar_query_text :: rstr
  ar_embedding_model :: rstr
  ar_similarity_threshold :: f32
  ar_source_filters :: "rstr list"
  ar_delivery_channels :: "rstr list"
  ar_enabled :: bool

record create_alert_rule_input =
  ca_name :: rstr
  ca_query_text :: rstr
  ca_embedding_model :: rstr
  ca_similarity_threshold :: f32
  ca_source_filters :: "rstr list"
  ca_delivery_channels :: "rstr list"
  ca_enabled :: bool

definition default_enabled :: bool where
  "default_enabled = True"

definition collapse_whitespace :: "rstr \<Rightarrow> rstr" where
  "collapse_whitespace input = join [32] (split_whitespace input)"

definition validate_list :: "rstr list \<Rightarrow> nat \<Rightarrow> nat \<Rightarrow> rstr \<Rightarrow> rstr + unit" where
  "validate_list values max_items max_bytes name =
     (if length values > max_items
      then Inl (name @ lit '' must contain at most '' @ show_nat max_items @ lit '' values'')
      else if list_ex (\<lambda>v. v = [] \<or> byte_len v > max_bytes) values
      then Inl (lit ''every '' @ name @ lit '' value must contain between 1 and '' @
                show_nat max_bytes @ lit '' bytes'')
      else Inr ())"

definition normalize_list :: "rstr list \<Rightarrow> nat \<Rightarrow> nat \<Rightarrow> rstr \<Rightarrow> rstr + rstr list" where
  "normalize_list values max_items max_bytes name =
     (let values1 = remdups_adj (sort (map trim values)) in
      bindr (validate_list values1 max_items max_bytes name) (\<lambda>_. Inr values1))"

definition validate_rule :: "(rstr \<Rightarrow> uuid option) \<Rightarrow> create_alert_rule_input \<Rightarrow> rstr + unit" where
  "validate_rule parse_str r =
     (if ca_name r = [] \<or> byte_len (ca_name r) > MAX_NAME_BYTES
      then Inl (lit ''name must contain between 1 and '' @ show_nat MAX_NAME_BYTES @ lit '' bytes'')
      else if \<not> (3 \<le> length (ca_query_text r) \<and> length (ca_query_text r) \<le> MAX_QUERY_CHARS)
      then Inl (lit ''query_text must contain between 3 and '' @ show_nat MAX_QUERY_CHARS @
                lit '' characters'')
      else if ca_embedding_model r = [] \<or> byte_len (ca_embedding_model r) > MAX_MODEL_BYTES
      then Inl (lit ''embedding_model must contain between 1 and '' @ show_nat MAX_MODEL_BYTES @
                lit '' bytes'')
      else if \<not> is_finite32 (ca_similarity_threshold r) \<or> \<not> in_unit32 (ca_similarity_threshold r)
      then Inl (lit ''similarity_threshold must be finite and between 0 and 1'')
      else bindr (map_err source_scope_error_fmt
               (validate_source_filters parse_str (ca_source_filters r))) (\<lambda>_.
             bindr (validate_list (ca_delivery_channels r) MAX_DELIVERY_CHANNELS
                 MAX_DELIVERY_CHANNEL_BYTES (lit ''delivery_channels'')) (\<lambda>_. Inr ())))"

definition normalized ::
  "(rstr \<Rightarrow> uuid option) \<Rightarrow> (uuid \<Rightarrow> rstr) \<Rightarrow> create_alert_rule_input \<Rightarrow> rstr + create_alert_rule_input" where
  "normalized parse_str to_str r0 =
     (let r1 = r0\<lparr>ca_name := trim (ca_name r0),
                  ca_query_text := collapse_whitespace (ca_query_text r0),
                  ca_embedding_model := trim (ca_embedding_model r0)\<rparr> in
      bindr (map_err source_scope_error_fmt
          (normalize_source_filters parse_str to_str (ca_source_filters r1))) (\<lambda>filters.
      bindr (normalize_list (ca_delivery_channels r1) MAX_DELIVERY_CHANNELS
          MAX_DELIVERY_CHANNEL_BYTES (lit ''delivery_channels'')) (\<lambda>channels.
      let r2 = r1\<lparr>ca_source_filters := filters, ca_delivery_channels := channels\<rparr> in
      bindr (validate_rule parse_str r2) (\<lambda>_. Inr r2))))"

lemmas alert_limits = MAX_NAME_BYTES_def MAX_QUERY_CHARS_def MAX_MODEL_BYTES_def
  MAX_DELIVERY_CHANNELS_def MAX_DELIVERY_CHANNEL_BYTES_def

section \<open>Lists of channels\<close>

lemma collapse_whitespace_eq: "collapse_whitespace = collapse"
  by (simp add: fun_eq_iff collapse_whitespace_def collapse_def)

lemma distinct_remdups_adj_sorted: "sorted xs \<Longrightarrow> distinct (remdups_adj xs)"
  by (induction xs rule: remdups_adj.induct) (auto simp: less_le)

lemma remdups_adj_distinct: "distinct xs \<Longrightarrow> remdups_adj xs = xs"
  by (induction xs rule: remdups_adj.induct) auto

lemma normalize_list_result:
  assumes "normalize_list vs n b name = Inr ws"
  shows "sorted ws" and "distinct ws" and "set ws = trim ` set vs"
    and "length ws \<le> n" and "\<forall>w \<in> set ws. w \<noteq> [] \<and> byte_len w \<le> b"
    and "validate_list ws n b name = Inr ()"
proof -
  from assms have ws: "ws = remdups_adj (sort (map trim vs))"
    and v: "validate_list ws n b name = Inr ()"
    by (auto simp: normalize_list_def Let_def)
  show "sorted ws" by (simp add: ws sorted_remdups_adj)
  show "distinct ws" by (simp add: ws distinct_remdups_adj_sorted)
  show "set ws = trim ` set vs" by (simp add: ws)
  show "validate_list ws n b name = Inr ()" by (rule v)
  from v show "length ws \<le> n" and "\<forall>w \<in> set ws. w \<noteq> [] \<and> byte_len w \<le> b"
    by (auto simp: validate_list_def list_ex_iff split: if_splits)
qed

lemma normalize_list_idem:
  assumes "normalize_list vs n b name = Inr ws"
  shows "normalize_list ws n b name = Inr ws"
proof -
  note r = normalize_list_result [OF assms]
  have "map trim ws = ws"
    using r(3) by (intro map_idI) auto
  then have "remdups_adj (sort (map trim ws)) = ws"
    using r(1,2) by (simp add: sorted_sort_id remdups_adj_distinct)
  with r(6) show ?thesis by (simp add: normalize_list_def Let_def)
qed

section \<open>Validated rules\<close>

text \<open>What a rule that passed \<open>validate_rule\<close> satisfies.\<close>

definition rule_wf :: "(rstr \<Rightarrow> uuid option) \<Rightarrow> create_alert_rule_input \<Rightarrow> bool" where
  "rule_wf parse_str r \<longleftrightarrow>
     ca_name r \<noteq> [] \<and> byte_len (ca_name r) \<le> 256 \<and>
     3 \<le> length (ca_query_text r) \<and> length (ca_query_text r) \<le> 700 \<and>
     ca_embedding_model r \<noteq> [] \<and> byte_len (ca_embedding_model r) \<le> 160 \<and>
     in_unit32 (ca_similarity_threshold r) \<and>
     length (ca_source_filters r) \<le> 100 \<and>
     (\<forall>v \<in> set (ca_source_filters r). is_ok (parse_source_filter parse_str v)) \<and>
     length (ca_delivery_channels r) \<le> 32 \<and>
     (\<forall>v \<in> set (ca_delivery_channels r). v \<noteq> [] \<and> byte_len v \<le> 120)"

lemma validate_source_filters_iff:
  "validate_source_filters p vs = Inr () \<longleftrightarrow>
     length vs \<le> 100 \<and> (\<forall>v \<in> set vs. is_ok (parse_source_filter p v))"
proof (cases "parse_source_filter_ids p vs")
  case (Inl e)
  then have "\<not> (length vs \<le> 100 \<and> (\<forall>v \<in> set vs. is_ok (parse_source_filter p v)))"
    using parse_source_filter_ids_error [of p vs e] by auto
  with Inl show ?thesis by (simp add: validate_source_filters_def)
next
  case (Inr ids)
  then have "length vs \<le> 100 \<and> (\<forall>v \<in> set vs. is_ok (parse_source_filter p v))"
    using parse_source_filter_ids_error [of p vs] by (metis linorder_not_less sum.distinct(1))
  with Inr show ?thesis by (simp add: validate_source_filters_def)
qed

lemma validate_list_iff:
  "validate_list vs n b name = Inr () \<longleftrightarrow> length vs \<le> n \<and> (\<forall>v \<in> set vs. v \<noteq> [] \<and> byte_len v \<le> b)"
  by (auto simp: validate_list_def list_ex_iff not_le)

lemma validate_rule_wf: "validate_rule p r = Inr () \<Longrightarrow> rule_wf p r"
  by (auto simp: validate_rule_def rule_wf_def alert_limits validate_source_filters_iff
      validate_list_iff split: if_splits)

text \<open>
  Validation decides the documented bounds exactly: a rule is accepted if and only if
  its name, query text, model, threshold, source filters and delivery channels satisfy the
  invariant of a well-formed rule.
\<close>

theorem validate_rule_iff: "validate_rule p r = Inr () \<longleftrightarrow> rule_wf p r"
proof -
  have "rule_wf p r \<Longrightarrow> is_finite32 (ca_similarity_threshold r)"
    by (auto simp: rule_wf_def intro: in_unit32_finite)
  then have "rule_wf p r \<Longrightarrow> validate_rule p r = Inr ()"
    by (auto simp: validate_rule_def rule_wf_def alert_limits validate_source_filters_iff
        validate_list_iff)
  then show ?thesis using validate_rule_wf by blast
qed

lemma normalized_fields:
  assumes "normalized p s r = Inr r'"
  shows "ca_name r' = trim (ca_name r)"
    and "ca_query_text r' = collapse (ca_query_text r)"
    and "ca_embedding_model r' = trim (ca_embedding_model r)"
    and "ca_similarity_threshold r' = ca_similarity_threshold r"
    and "ca_enabled r' = ca_enabled r"
    and "normalize_source_filters p s (ca_source_filters r) = Inr (ca_source_filters r')"
    and "normalize_list (ca_delivery_channels r) MAX_DELIVERY_CHANNELS MAX_DELIVERY_CHANNEL_BYTES
      (lit ''delivery_channels'') = Inr (ca_delivery_channels r')"
    and "validate_rule p r' = Inr ()"
  using assms by (auto simp: normalized_def Let_def collapse_whitespace_eq)

text \<open>
  C24. Normalising a rule gives a well-formed rule in normal form: normalising it again
  changes nothing, so a rule read back and re-submitted is stored unchanged.
\<close>

theorem normalized_idempotent:
  assumes "uuid_codec p s" and "normalized p s r = Inr r'"
  shows "rule_wf p r' \<and> normalized p s r' = Inr r'"
proof -
  note f = normalized_fields [OF assms(2)]
  have wf: "rule_wf p r'" using f(8) by (rule validate_rule_wf)
  have "normalize_source_filters p s (ca_source_filters r') = Inr (ca_source_filters r')"
    using uuid_codec.normalize_stable(2) [OF assms(1) f(6)] .
  moreover have "normalize_list (ca_delivery_channels r') MAX_DELIVERY_CHANNELS
      MAX_DELIVERY_CHANNEL_BYTES (lit ''delivery_channels'') = Inr (ca_delivery_channels r')"
    using f(7) by (rule normalize_list_idem)
  moreover have "r'\<lparr>ca_name := trim (ca_name r'), ca_query_text := collapse (ca_query_text r'),
      ca_embedding_model := trim (ca_embedding_model r'),
      ca_source_filters := ca_source_filters r',
      ca_delivery_channels := ca_delivery_channels r'\<rparr> = r'"
    by (simp add: f(1-3) collapse_idem)
  ultimately have "normalized p s r' = Inr r'"
    using f(8) by (simp add: normalized_def Let_def collapse_whitespace_eq)
  with wf show ?thesis by simp
qed

definition example_rule :: create_alert_rule_input where
  "example_rule = \<lparr>ca_name = lit '' Renewable launches '', ca_query_text = lit '' energy   tools '',
     ca_embedding_model = lit ''text-embedding-v1'', ca_similarity_threshold = 1056964608,
     ca_source_filters = [], ca_delivery_channels = [lit '' in_app '', lit ''in_app''],
     ca_enabled = True\<rparr>"

definition example_rule_normal :: create_alert_rule_input where
  "example_rule_normal = \<lparr>ca_name = lit ''Renewable launches'', ca_query_text = lit ''energy tools'',
     ca_embedding_model = lit ''text-embedding-v1'', ca_similarity_threshold = 1056964608,
     ca_source_filters = [], ca_delivery_channels = [lit ''in_app''], ca_enabled = True\<rparr>"

lemma example_rule_normalized:
  "normalized parse_hyphenated hyphenated example_rule = Inr example_rule_normal"
proof -
  have "example_rule\<lparr>ca_name := trim (ca_name example_rule),
      ca_query_text := collapse_whitespace (ca_query_text example_rule),
      ca_embedding_model := trim (ca_embedding_model example_rule)\<rparr>
    = example_rule_normal\<lparr>ca_delivery_channels := [lit '' in_app '', lit ''in_app'']\<rparr>"
    by code_simp
  moreover have "normalize_list [lit '' in_app '', lit ''in_app''] MAX_DELIVERY_CHANNELS
      MAX_DELIVERY_CHANNEL_BYTES (lit ''delivery_channels'') = Inr [lit ''in_app'']"
    by code_simp
  moreover have "validate_rule parse_hyphenated example_rule_normal = Inr ()"
    by code_simp
  moreover have "normalize_source_filters parse_hyphenated hyphenated [] = Inr []"
    by (simp add: normalize_source_filters_def parse_source_filter_ids_def)
  ultimately show ?thesis
    by (simp add: normalized_def Let_def example_rule_normal_def)
qed

theorem normalized_idempotent_witness:
  "rule_wf parse_hyphenated example_rule_normal \<and>
   normalized parse_hyphenated hyphenated example_rule_normal = Inr example_rule_normal"
  using normalized_idempotent [OF rfc4122.uuid_codec_axioms example_rule_normalized] .

end
