(* ===== verification/Indexing.thy ===== *)
theory Indexing
  imports Uuid_Text
begin

text \<open>
  Canonicalisation of indexed URLs (\<^verbatim>\<open>src/indexing.rs\<close>). The \<^verbatim>\<open>url\<close> crate is a parameter: its
  parser and printer are arguments, and a parsed \<^verbatim>\<open>Url\<close> is the record of the components its
  accessors return. The wire types \<^verbatim>\<open>CreateSourcePolicy\<close> and \<^verbatim>\<open>SourcePolicy\<close> come from the
  interface crate; their fields are those the program reads and the table stores.
\<close>

datatype url_host = Domain rstr | Ipv4 u32 | Ipv6 "128 word"

record url =
  url_scheme :: rstr
  url_username :: rstr
  url_password :: "rstr option"
  url_host_of :: "url_host option"
  url_port :: "u16 option"
  url_path :: rstr
  url_query :: "rstr option"
  url_fragment :: "rstr option"
  url_cannot_be_a_base :: bool

text \<open>
  The URL crate: the parser (with its error text), the serializer, and the setters
  \<^verbatim>\<open>set_port(None)\<close> and \<^verbatim>\<open>set_fragment(None)\<close>. The documented contract of the setters is
  \<open>url_contract\<close>: clearing the port fails only for a URL that cannot have one, and each setter
  changes nothing else.
\<close>

record url_crate =
  parse_url :: "rstr \<Rightarrow> rstr + url"
  url_to_string :: "url \<Rightarrow> rstr"
  url_set_port_none :: "url \<Rightarrow> url option"
  url_set_fragment_none :: "url \<Rightarrow> url"

definition url_contract :: "url_crate \<Rightarrow> bool" where
  "url_contract U \<longleftrightarrow>
     (\<forall>u. \<not> url_cannot_be_a_base u \<longrightarrow> url_host_of u \<noteq> None \<longrightarrow> url_scheme u \<noteq> lit ''file'' \<longrightarrow>
        url_set_port_none U u = Some (u\<lparr>url_port := None\<rparr>)) \<and>
     (\<forall>u. url_set_fragment_none U u = u\<lparr>url_fragment := None\<rparr>)"

record create_source_policy =
  cs_name :: rstr
  cs_root_url :: rstr
  cs_allowed_hosts :: "rstr list"
  cs_allowed_path_prefixes :: "rstr list"
  cs_include_subdomains :: bool
  cs_discovery_modes :: "rstr list"
  cs_crawl_interval_seconds :: u32
  cs_max_depth :: u16
  cs_max_pages_per_run :: u32
  cs_obey_robots :: bool
  cs_enabled :: bool

record source_policy =
  sp_id :: uuid
  sp_tenant_id :: uuid
  sp_name :: rstr
  sp_root_url :: rstr
  sp_allowed_hosts :: "rstr list"
  sp_allowed_path_prefixes :: "rstr list"
  sp_include_subdomains :: bool
  sp_discovery_modes :: "rstr list"
  sp_crawl_interval_seconds :: int
  sp_max_depth :: int
  sp_max_pages_per_run :: int
  sp_obey_robots :: bool
  sp_enabled :: bool
  sp_created_at :: timestamp
  sp_updated_at :: timestamp

definition normalize_host :: "rstr \<Rightarrow> rstr" where
  "normalize_host host = to_ascii_lowercase (trim_end_matches (\<lambda>c. c = 46) (trim host))"

definition host_is_allowed :: "rstr \<Rightarrow> rstr list \<Rightarrow> bool \<Rightarrow> bool" where
  "host_is_allowed host allowed_hosts include_subdomains =
     list_ex (\<lambda>allowed0.
       let allowed = normalize_host allowed0 in
       host = allowed \<or>
       (include_subdomains \<and>
        (case strip_suffix allowed host of
           None \<Rightarrow> False
         | Some prefix \<Rightarrow> ends_with_char 46 prefix \<and> byte_len prefix > 1))) allowed_hosts"

definition path_is_allowed :: "rstr \<Rightarrow> rstr \<Rightarrow> bool" where
  "path_is_allowed path prefix0 =
     (if prefix0 = [47] then True
      else let prefix = trim_end_matches (\<lambda>c. c = 47) prefix0 in
        path = prefix \<or>
        (case strip_prefix prefix path of
           None \<Rightarrow> False
         | Some remaining \<Rightarrow> starts_with_char 47 remaining))"

definition is_default_port :: "url \<Rightarrow> bool" where
  "is_default_port u \<longleftrightarrow>
     url_scheme u = lit ''http'' \<and> url_port u = Some 80 \<or>
     url_scheme u = lit ''https'' \<and> url_port u = Some 443"

definition canonicalize ::
  "url_crate \<Rightarrow> rstr \<Rightarrow> rstr list \<Rightarrow> bool \<Rightarrow> rstr list \<Rightarrow> rstr + rstr" where
  "canonicalize U raw_url allowed_hosts include_subdomains allowed_path_prefixes =
     bindr (map_err (\<lambda>error. lit ''invalid absolute URL: '' @ error) (parse_url U raw_url)) (\<lambda>u.
     if \<not> (url_scheme u = lit ''http'' \<or> url_scheme u = lit ''https'')
     then Inl (lit ''only http and https URLs may be indexed'')
     else if url_cannot_be_a_base u then Inl (lit ''URL cannot be used as a crawl base'')
     else if url_username u \<noteq> [] \<or> url_password u \<noteq> None
     then Inl (lit ''URL credentials are forbidden for indexed sources'')
     else bindr (case url_host_of u of
         Some (Domain host) \<Rightarrow> Inr (normalize_host host)
       | Some (Ipv4 _) \<Rightarrow>
           Inl (lit ''literal IP addresses are forbidden; configure an exact public domain'')
       | Some (Ipv6 _) \<Rightarrow>
           Inl (lit ''literal IP addresses are forbidden; configure an exact public domain'')
       | None \<Rightarrow> Inl (lit ''URL must include a public host'')) (\<lambda>host.
     if host = lit ''localhost'' \<or> 46 \<notin> set host
     then Inl (lit ''URL must use an exact public DNS host'')
     else if \<not> host_is_allowed host allowed_hosts include_subdomains
     then Inl (lit ''host '' @ host @ lit '' is outside the source allowlist'')
     else if \<not> list_ex (path_is_allowed (url_path u)) allowed_path_prefixes
     then Inl (lit ''path '' @ url_path u @ lit '' is outside the source allowlist'')
     else bindr (if is_default_port u
                 then ok_or (lit ''could not normalize URL port'') (url_set_port_none U u)
                 else Inr u) (\<lambda>u1.
       Inr (url_to_string U (url_set_fragment_none U u1)))))"

definition canonicalize_source_root :: "url_crate \<Rightarrow> create_source_policy \<Rightarrow> rstr + rstr" where
  "canonicalize_source_root U input =
     canonicalize U (cs_root_url input) (cs_allowed_hosts input) (cs_include_subdomains input)
       (cs_allowed_path_prefixes input)"

definition canonicalize_for_source :: "url_crate \<Rightarrow> source_policy \<Rightarrow> rstr \<Rightarrow> rstr + rstr" where
  "canonicalize_for_source U source raw_url =
     canonicalize U raw_url (sp_allowed_hosts source) (sp_include_subdomains source)
       (sp_allowed_path_prefixes source)"

section \<open>The policy the checks decide\<close>

text \<open>A host is in the allowlist: listed itself, or, with subdomains on, below a listed host.\<close>

definition host_covered :: "rstr \<Rightarrow> rstr list \<Rightarrow> bool \<Rightarrow> bool" where
  "host_covered host allowed_hosts include_subdomains \<longleftrightarrow>
     (\<exists>a \<in> set allowed_hosts. host = normalize_host a \<or>
        include_subdomains \<and> (\<exists>label. label \<noteq> [] \<and> host = label @ [46] @ normalize_host a))"

text \<open>A path is under a prefix at a segment boundary.\<close>

definition path_covered :: "rstr \<Rightarrow> rstr \<Rightarrow> bool" where
  "path_covered path prefix0 \<longleftrightarrow> prefix0 = [47] \<or>
     (\<exists>rest. path = trim_end_matches (\<lambda>c. c = 47) prefix0 @ rest \<and> (rest = [] \<or> hd rest = 47))"

definition url_admissible :: "url \<Rightarrow> rstr list \<Rightarrow> bool \<Rightarrow> rstr list \<Rightarrow> bool" where
  "url_admissible u hosts subdomains prefixes \<longleftrightarrow>
     url_scheme u \<in> {lit ''http'', lit ''https''} \<and> \<not> url_cannot_be_a_base u \<and>
     url_username u = [] \<and> url_password u = None \<and>
     (\<exists>d. url_host_of u = Some (Domain d) \<and> normalize_host d \<noteq> lit ''localhost'' \<and>
        46 \<in> set (normalize_host d) \<and> host_covered (normalize_host d) hosts subdomains) \<and>
     (\<exists>p \<in> set prefixes. path_covered (url_path u) p)"

text \<open>The canonical URL: no fragment, and no port where it is the scheme's default.\<close>

definition canonical_form :: "url \<Rightarrow> url" where
  "canonical_form u = (if is_default_port u then u\<lparr>url_port := None\<rparr> else u)\<lparr>url_fragment := None\<rparr>"

lemma byte_len_snoc_dot: "byte_len (l @ [46]) > 1 \<longleftrightarrow> l \<noteq> []"
  by (cases l) (simp_all add: byte_len_def len_utf8_def)

lemma host_is_allowed_iff: "host_is_allowed h hosts subs \<longleftrightarrow> host_covered h hosts subs"
proof -
  have "(case strip_suffix a h of None \<Rightarrow> False
      | Some prefix \<Rightarrow> ends_with_char 46 prefix \<and> byte_len prefix > 1) \<longleftrightarrow>
    (\<exists>label. label \<noteq> [] \<and> h = label @ [46] @ a)" for a
  proof (cases "strip_suffix a h")
    case None
    then have ne: "h \<noteq> r @ a" for r using strip_suffix_Some [of a h r] by simp
    have "h \<noteq> label @ [46] @ a" for label using ne [of "label @ [46]"] by simp
    then show ?thesis using None by simp
  next
    case (Some prefix)
    then have h: "h = prefix @ a" by simp
    have "h = label @ [46] @ a \<longleftrightarrow> prefix = label @ [46]" for label
      unfolding h append.assoc [symmetric] append_same_eq ..
    moreover have "(\<exists>r. prefix = r @ [46]) \<and> byte_len prefix > 1 \<longleftrightarrow>
        (\<exists>label. label \<noteq> [] \<and> prefix = label @ [46])"
      using byte_len_snoc_dot by blast
    ultimately show ?thesis unfolding Some option.case ends_with_char_iff by blast
  qed
  then show ?thesis
    by (simp add: host_is_allowed_def host_covered_def list_ex_iff Let_def)
qed

lemma path_is_allowed_iff: "path_is_allowed path pre \<longleftrightarrow> path_covered path pre"
proof -
  define p where "p = trim_end_matches (\<lambda>c. c = 47) pre"
  have "(path = p \<or> (case strip_prefix p path of None \<Rightarrow> False
      | Some remaining \<Rightarrow> starts_with_char 47 remaining)) \<longleftrightarrow>
    (\<exists>rest. path = p @ rest \<and> (rest = [] \<or> hd rest = 47))"
  proof (cases "strip_prefix p path")
    case None
    then have "path \<noteq> p @ r" for r using strip_prefix_Some [of p path r] by simp
    then show ?thesis using None by (metis (no_types, lifting) append_Nil2 option.simps(4))
  next
    case (Some r)
    then have "path = p @ r" by simp
    with Some show ?thesis by (cases r) auto
  qed
  then show ?thesis
    by (simp add: path_is_allowed_def path_covered_def Let_def p_def)
qed

lemma set_port_none_admissible:
  "url_contract U \<Longrightarrow> \<not> url_cannot_be_a_base u \<Longrightarrow> url_host_of u = Some (Domain d) \<Longrightarrow>
   url_scheme u \<in> {lit ''http'', lit ''https''} \<Longrightarrow>
   url_set_port_none U u = Some (u\<lparr>url_port := None\<rparr>)"
  by (auto simp: url_contract_def lit_def)

lemma canonicalize_admissible:
  assumes "canonicalize U raw hosts subs prefixes = Inr s"
  shows "\<exists>u. parse_url U raw = Inr u \<and> url_admissible u hosts subs prefixes"
  using assms by (cases "parse_url U raw")
    (auto simp: canonicalize_def url_admissible_def host_is_allowed_iff path_is_allowed_iff list_ex_iff
      split: option.splits url_host.splits)

lemma canonicalize_decides:
  assumes "url_contract U"
  shows "canonicalize U raw hosts subs prefixes = Inr s \<longleftrightarrow>
     (\<exists>u. parse_url U raw = Inr u \<and> url_admissible u hosts subs prefixes \<and>
          s = url_to_string U (canonical_form u))"
proof (cases "parse_url U raw")
  case (Inr u)
  have port: "(if is_default_port u then ok_or e (url_set_port_none U u) else Inr u) =
      Inr (if is_default_port u then u\<lparr>url_port := None\<rparr> else u)"
    if "url_admissible u hosts subs prefixes" for e
    using that set_port_none_admissible [OF assms, of u] by (auto simp: url_admissible_def)
  have "canonicalize U raw hosts subs prefixes = Inr s \<Longrightarrow> url_admissible u hosts subs prefixes"
    using Inr canonicalize_admissible [of U raw hosts subs prefixes s] by auto
  moreover have "url_admissible u hosts subs prefixes \<Longrightarrow>
      canonicalize U raw hosts subs prefixes = Inr (url_to_string U (canonical_form u))"
    using Inr port assms by (auto simp: canonicalize_def url_admissible_def host_is_allowed_iff
        path_is_allowed_iff list_ex_iff canonical_form_def url_contract_def)
  ultimately show ?thesis using Inr by auto
qed (simp add: canonicalize_def)

section \<open>Properties\<close>

text \<open>
  C25. A URL is accepted for a source exactly when it is an http(s) URL without credentials
  whose host is a public DNS name covered by the source's host allowlist (itself or, if
  enabled, a proper subdomain) and whose path is under an allowed prefix at a segment
  boundary; the result is then the canonical form, without fragment and default port.
\<close>

theorem canonicalize_for_source_iff:
  assumes "url_contract U"
  shows "canonicalize_for_source U source raw = Inr s \<longleftrightarrow>
     (\<exists>u. parse_url U raw = Inr u \<and>
        url_admissible u (sp_allowed_hosts source) (sp_include_subdomains source)
          (sp_allowed_path_prefixes source) \<and>
        s = url_to_string U (canonical_form u))"
  unfolding canonicalize_for_source_def by (rule canonicalize_decides [OF assms])

text \<open>
  The host check is safe against look-alike names: without subdomains an accepted host is
  one of the configured hosts, and an allowlist entry that is blank or only dots admits no
  host at all, with subdomains on or off.
\<close>

theorem host_allowlist_strict:
  assumes "canonicalize U raw hosts subs prefixes = Inr s"
  shows "\<exists>u d a. parse_url U raw = Inr u \<and> url_host_of u = Some (Domain d) \<and> a \<in> set hosts \<and>
    normalize_host a \<noteq> [] \<and>
    (normalize_host d = normalize_host a \<or>
     subs \<and> (\<exists>label. label \<noteq> [] \<and> normalize_host d = label @ [46] @ normalize_host a))"
proof -
  from assms obtain u d where u: "parse_url U raw = Inr u" "url_host_of u = Some (Domain d)"
    and dot: "46 \<in> set (normalize_host d)" and cov: "host_covered (normalize_host d) hosts subs"
    using canonicalize_admissible [OF assms] by (auto simp: url_admissible_def)
  from cov obtain a where a: "a \<in> set hosts"
    "normalize_host d = normalize_host a \<or>
     subs \<and> (\<exists>label. label \<noteq> [] \<and> normalize_host d = label @ [46] @ normalize_host a)"
    by (auto simp: host_covered_def)
  have "\<not> (\<exists>l. normalize_host d = l @ [46])"
  proof
    assume "\<exists>l. normalize_host d = l @ [46]"
    then obtain l where l: "normalize_host d = l @ [46]" ..
    define t where "t = trim_end_matches (\<lambda>c. c = 46) (trim d)"
    have m: "map ascii_lower t = l @ [46]"
      using l by (simp add: normalize_host_def to_ascii_lowercase_def t_def)
    then have "t \<noteq> []" and "ascii_lower (last t) = 46"
      by auto (metis last_map last_snoc map_is_Nil_conv snoc_eq_iff_butlast)
    then have "last t = 46"
      by (simp add: ascii_lower_def split: if_splits)
    with \<open>t \<noteq> []\<close> show False
      using trim_end_matches_last [of "\<lambda>c. c = 46" "trim d"] by (simp add: t_def)
  qed
  with a(2) dot have "normalize_host a \<noteq> []" by auto
  with u a show ?thesis by blast
qed

definition example_url :: url where
  "example_url = \<lparr>url_scheme = lit ''https'', url_username = [], url_password = None,
     url_host_of = Some (Domain (lit ''updates.blog.rust-lang.org'')), url_port = None,
     url_path = lit ''/inside/item'', url_query = None, url_fragment = Some (lit ''x''),
     url_cannot_be_a_base = False\<rparr>"

definition example_url_crate :: url_crate where
  "example_url_crate = \<lparr>parse_url = (\<lambda>_. Inr example_url), url_to_string = url_path,
     url_set_port_none = (\<lambda>u. Some (u\<lparr>url_port := None\<rparr>)),
     url_set_fragment_none = (\<lambda>u. u\<lparr>url_fragment := None\<rparr>)\<rparr>"

lemma example_canonicalize:
  "canonicalize example_url_crate (lit ''https://updates.blog.rust-lang.org/inside/item#x'')
     [lit ''Blog.Rust-Lang.org.''] True [lit ''/inside/''] = Inr (lit ''/inside/item'')"
  by code_simp

theorem host_allowlist_strict_witness:
  "\<exists>u d a. parse_url example_url_crate (lit ''https://updates.blog.rust-lang.org/inside/item#x'') = Inr u \<and>
    url_host_of u = Some (Domain d) \<and> a \<in> set [lit ''Blog.Rust-Lang.org.''] \<and>
    normalize_host a \<noteq> [] \<and>
    (normalize_host d = normalize_host a \<or>
     True \<and> (\<exists>label. label \<noteq> [] \<and> normalize_host d = label @ [46] @ normalize_host a))"
  using host_allowlist_strict [OF example_canonicalize] .

definition example_source :: source_policy where
  "example_source = \<lparr>sp_id = 1, sp_tenant_id = 2, sp_name = lit ''Rust'',
     sp_root_url = lit ''https://blog.rust-lang.org/'', sp_allowed_hosts = [lit ''Blog.Rust-Lang.org.''],
     sp_allowed_path_prefixes = [lit ''/inside/''], sp_include_subdomains = True,
     sp_discovery_modes = [lit ''feed''], sp_crawl_interval_seconds = 3600, sp_max_depth = 2,
     sp_max_pages_per_run = 10, sp_obey_robots = True, sp_enabled = True, sp_created_at = 0,
     sp_updated_at = 0\<rparr>"

lemma example_url_contract: "url_contract example_url_crate"
  by (simp add: url_contract_def example_url_crate_def)

theorem canonicalize_for_source_iff_witness:
  "url_admissible example_url [lit ''Blog.Rust-Lang.org.''] True [lit ''/inside/''] \<and>
   canonicalize_for_source example_url_crate (example_source\<lparr>sp_include_subdomains := False\<rparr>) [] \<noteq>
     Inr (lit ''/inside/item'')"
proof -
  note * = canonicalize_for_source_iff [OF example_url_contract]
  have "canonicalize_for_source example_url_crate example_source [] = Inr (lit ''/inside/item'')"
    by code_simp
  then have "url_admissible example_url [lit ''Blog.Rust-Lang.org.''] True [lit ''/inside/'']"
    unfolding * by (simp add: example_url_crate_def example_source_def)
  moreover have "\<not> is_ok (canonicalize_for_source example_url_crate (example_source\<lparr>sp_include_subdomains := False\<rparr>) [])"
    by code_simp
  ultimately show ?thesis
    by (auto simp: is_ok_iff)
qed

end
