(* ===== verification/Worker_Auth.thy ===== *)
theory Worker_Auth
  imports Http_Errors
begin

unbundle bit_operations_syntax

text \<open>
  Authentication of the crawler (\<^verbatim>\<open>src/worker_auth.rs\<close>). The environment is a partial map from
  variable names to texts; a header map is the list of its (lower-case name, value bytes)
  pairs in order. SHA-256 and the hexadecimal decoder are parameters. A \<^verbatim>\<open>[u8; 32]\<close> is a byte
  list whose length the crates guarantee to be 32.
\<close>

type_synonym environment = "string \<Rightarrow> rstr option"
type_synonym headers = "(string \<times> bytes) list"

definition header_get :: "headers \<Rightarrow> string \<Rightarrow> bytes option" where
  "header_get h name = map_of h name"

definition header_get_all :: "headers \<Rightarrow> string \<Rightarrow> bytes list" where
  "header_get_all h name = map snd (filter (\<lambda>(n, v). n = name) h)"

definition INGEST_TOKEN_HEADER :: string where
  "INGEST_TOKEN_HEADER = ''x-eal-ingest-token''"

definition INGEST_TOKEN_DIGEST_ENV :: string where
  "INGEST_TOKEN_DIGEST_ENV = ''EAL_INGEST_TOKEN_SHA256''"

definition MIN_TOKEN_BYTES :: nat where "MIN_TOKEN_BYTES = 32"
definition MAX_TOKEN_BYTES :: nat where "MAX_TOKEN_BYTES = 512"

definition fixed_time_eq :: "bytes \<Rightarrow> bytes \<Rightarrow> bool" where
  "fixed_time_eq left right \<longleftrightarrow>
     foldl (\<lambda>difference (l, r). difference OR (l XOR r)) 0 (zip left right) = 0"

definition parse_configured_digest :: "(rstr \<Rightarrow> bytes option) \<Rightarrow> rstr \<Rightarrow> rstr + bytes" where
  "parse_configured_digest hex_decode value0 =
     (let value1 = trim value0 in
      if byte_len value1 \<noteq> 64 \<or> \<not> list_all is_ascii_hexdigit value1
      then Inl (lit ''ingest token digest must contain exactly 64 hexadecimal characters'')
      else ok_or (lit ''ingest token digest must be valid hexadecimal'') (hex_decode value1))"

definition configured_digest :: "(rstr \<Rightarrow> bytes option) \<Rightarrow> environment \<Rightarrow> bytes option" where
  "configured_digest hex_decode env =
     (case env INGEST_TOKEN_DIGEST_ENV of
        None \<Rightarrow> None
      | Some value \<Rightarrow>
          (case parse_configured_digest hex_decode value of Inl _ \<Rightarrow> None | Inr d \<Rightarrow> Some d))"

definition is_configured :: "(rstr \<Rightarrow> bytes option) \<Rightarrow> environment \<Rightarrow> bool" where
  "is_configured hex_decode env \<longleftrightarrow> configured_digest hex_decode env \<noteq> None"

definition token_matches :: "(bytes \<Rightarrow> bytes) \<Rightarrow> bytes \<Rightarrow> bytes \<Rightarrow> bool" where
  "token_matches sha256 expected token =
     (if \<not> (MIN_TOKEN_BYTES \<le> length token \<and> length token \<le> MAX_TOKEN_BYTES) then False
      else fixed_time_eq expected (sha256 token))"

definition invalid_credentials :: http_error where
  "invalid_credentials = HttpError_unauthorized (lit ''invalid crawler credentials'')"

definition authorize ::
  "(rstr \<Rightarrow> bytes option) \<Rightarrow> (bytes \<Rightarrow> bytes) \<Rightarrow> environment \<Rightarrow> headers \<Rightarrow> http_error + unit" where
  "authorize hex_decode sha256 env headers =
     bindr (ok_or HttpError_ingest_auth_required (configured_digest hex_decode env)) (\<lambda>expected.
     bindr (ok_or invalid_credentials (header_get headers INGEST_TOKEN_HEADER)) (\<lambda>token.
     if \<not> token_matches sha256 expected token then Inl invalid_credentials else Inr ()))"

section \<open>The constant-time comparison\<close>

lemma word_or_eq_0: "(a :: u8) OR b = 0 \<longleftrightarrow> a = 0 \<and> b = 0"
  by (auto simp: bit_eq_iff bit_simps)

lemma word_xor_eq_0: "(a :: u8) XOR b = 0 \<longleftrightarrow> a = b"
  by (auto simp: bit_eq_iff bit_simps)

lemma fold_difference:
  "length xs = length ys \<Longrightarrow>
   foldl (\<lambda>d (l, r). d OR (l XOR r)) acc (zip xs ys) = (0 :: u8) \<longleftrightarrow> acc = 0 \<and> xs = ys"
proof (induction xs ys arbitrary: acc rule: list_induct2)
  case (Cons x xs y ys)
  then show ?case by (auto simp: word_or_eq_0 word_xor_eq_0)
qed simp

lemma fixed_time_eq_iff: "length left = length right \<Longrightarrow> fixed_time_eq left right \<longleftrightarrow> left = right"
  by (simp add: fixed_time_eq_def fold_difference)

lemma configured_digest_Some:
  "configured_digest hx env = Some d \<longleftrightarrow>
     (\<exists>v. env INGEST_TOKEN_DIGEST_ENV = Some v \<and> byte_len (trim v) = 64 \<and>
          list_all is_ascii_hexdigit (trim v) \<and> hx (trim v) = Some d)"
  by (auto simp: configured_digest_def parse_configured_digest_def Let_def
      split: option.splits sum.splits)

section \<open>Properties\<close>

text \<open>
  C26. A page-ingest request is authorised exactly when a well-formed 64-digit digest is
  configured and the request carries a token of 32 to 512 bytes whose SHA-256 is that digest;
  the OR/XOR accumulation over bytes is equality. Without a configured digest every request
  is refused with the ingest-disabled error, whatever it carries.
\<close>

theorem authorize_iff:
  assumes "\<And>t. length (sha256 t) = 32"
    and "\<And>v d. hex_decode v = Some d \<Longrightarrow> byte_len v = 64 \<Longrightarrow> length d = 32"
  shows "authorize hex_decode sha256 env h =
    (case configured_digest hex_decode env of
       None \<Rightarrow> Inl HttpError_ingest_auth_required
     | Some d \<Rightarrow>
         if \<exists>t. header_get h INGEST_TOKEN_HEADER = Some t \<and> 32 \<le> length t \<and> length t \<le> 512 \<and>
              sha256 t = d
         then Inr () else Inl invalid_credentials)"
proof (cases "configured_digest hex_decode env")
  case (Some d)
  then have "length d = 32"
    using assms(2) by (auto simp: configured_digest_Some)
  then have "fixed_time_eq d (sha256 t) \<longleftrightarrow> sha256 t = d" for t
    using assms(1) [of t] fixed_time_eq_iff [of d "sha256 t"] by auto
  with Some show ?thesis
    by (cases "header_get h INGEST_TOKEN_HEADER")
      (auto simp: authorize_def token_matches_def MIN_TOKEN_BYTES_def MAX_TOKEN_BYTES_def)
qed (simp add: authorize_def)

definition example_sha :: "bytes \<Rightarrow> bytes" where
  "example_sha t = replicate 32 (if t = replicate 40 7 then 171 else 0)"

definition example_hex :: "rstr \<Rightarrow> bytes option" where
  "example_hex v = Some (replicate 32 171)"

definition example_env :: environment where
  "example_env name = (if name = INGEST_TOKEN_DIGEST_ENV then Some (concat (replicate 32 (lit ''ab''))) else None)"

theorem authorize_iff_witness:
  "authorize example_hex example_sha example_env [(INGEST_TOKEN_HEADER, replicate 40 7)] = Inr () \<and>
   authorize example_hex example_sha example_env [(INGEST_TOKEN_HEADER, replicate 41 7)]
     = Inl invalid_credentials"
proof -
  have d: "configured_digest example_hex example_env = Some (replicate 32 171)"
    by code_simp
  have s: "\<And>t. length (example_sha t) = 32"
    and h: "\<And>v d. example_hex v = Some d \<Longrightarrow> byte_len v = 64 \<Longrightarrow> length d = 32"
    by (auto simp: example_sha_def example_hex_def)
  note a = authorize_iff [of example_sha example_hex, OF s h]
  have "length (replicate 41 (7 :: u8)) \<noteq> length (replicate 40 (7 :: u8))" by simp
  then have "replicate 41 (7 :: u8) \<noteq> replicate 40 7" by metis
  then have "example_sha (replicate 41 7) \<noteq> replicate 32 171"
    by (simp add: example_sha_def)
  moreover have "example_sha (replicate 40 7) = replicate 32 171"
    by (simp add: example_sha_def)
  ultimately show ?thesis
    by (simp add: a d header_get_def)
qed

end
