(* ===== verification/Auth.thy ===== *)
theory Auth
  imports Worker_Auth Json
begin

text \<open>
  Authentication of users (\<^verbatim>\<open>src/auth_runtime.rs\<close>, \<^verbatim>\<open>src/tenant.rs\<close>). The crates that decode and
  sign are parameters, collected in \<open>auth_crates\<close>: the visible-ASCII view of a header value,
  the UUID parser, the URL-safe base64 decoder, the JSON parser and HMAC-SHA-256. An \<^verbatim>\<open>i64\<close> is an
  \<open>int\<close> whose saturating operations are written out.
\<close>

record auth_crates =
  header_to_str :: "bytes \<Rightarrow> rstr option"
  uuid_parse_str :: "rstr \<Rightarrow> uuid option"
  b64url_decode :: "rstr \<Rightarrow> bytes option"
  json_from_slice :: "bytes \<Rightarrow> json option"
  hmac_sha256 :: "bytes \<Rightarrow> (bytes \<Rightarrow> bytes) option"

section \<open>Standard-library helpers\<close>

definition saturate :: "int \<Rightarrow> int" where
  "saturate x = max i64_min (min i64_max x)"

definition parse_digits :: "rstr \<Rightarrow> int option" where
  "parse_digits s =
     (if s \<noteq> [] \<and> list_all is_ascii_digit s
      then Some (foldl (\<lambda>acc c. 10 * acc + (int c - 48)) 0 s) else None)"

text \<open>\<^verbatim>\<open>str::parse::<i64>\<close>\<close>

definition parse_i64 :: "rstr \<Rightarrow> int option" where
  "parse_i64 s =
     Option.bind (case s of
         [] \<Rightarrow> None
       | c # cs \<Rightarrow> if c = 45 then map_option uminus (parse_digits cs)
                   else if c = 43 then parse_digits cs else parse_digits s)
       (\<lambda>n. if i64_min \<le> n \<and> n \<le> i64_max then Some n else None)"

section \<open>Tenant header\<close>

definition TENANT_HEADER :: string where "TENANT_HEADER = ''x-eal-tenant-id''"

definition tenant_id_from_headers :: "auth_crates \<Rightarrow> headers \<Rightarrow> http_error + uuid" where
  "tenant_id_from_headers A headers =
     bindr (ok_or (HttpError_unauthorized (lit ''missing X-Eal-Tenant-Id header''))
       (header_get headers TENANT_HEADER)) (\<lambda>v.
     bindr (ok_or (HttpError_unauthorized (lit ''invalid X-Eal-Tenant-Id header''))
       (header_to_str A v)) (\<lambda>text.
     ok_or (HttpError_unauthorized (lit ''X-Eal-Tenant-Id must be a UUID'')) (uuid_parse_str A text)))"

section \<open>Configuration\<close>

definition SUBJECT_HEADER :: string where "SUBJECT_HEADER = ''x-eal-subject-id''"
definition ROLES_HEADER :: string where "ROLES_HEADER = ''x-eal-roles''"
definition DEFAULT_COOKIE_NAME :: rstr where "DEFAULT_COOKIE_NAME = lit ''eal_access_token''"
definition DEFAULT_TENANT_CLAIM :: rstr where "DEFAULT_TENANT_CLAIM = lit ''tenant_id''"
definition DEFAULT_ROLE_CLAIM :: rstr where "DEFAULT_ROLE_CLAIM = lit ''role''"
definition DEFAULT_ALLOWED_ROLES :: rstr where
  "DEFAULT_ALLOWED_ROLES = lit ''authenticated,member,admin,owner''"
definition DEFAULT_ADMIN_ROLES :: rstr where "DEFAULT_ADMIN_ROLES = lit ''admin,owner''"
definition DEFAULT_LEEWAY_SECONDS :: int where "DEFAULT_LEEWAY_SECONDS = 30"
definition MIN_SECRET_BYTES :: nat where "MIN_SECRET_BYTES = 32"
definition MAX_SECRET_BYTES :: nat where "MAX_SECRET_BYTES = 4096"
definition MAX_JWT_BYTES :: nat where "MAX_JWT_BYTES = 16 * 1024"
definition MAX_HEADER_BYTES :: nat where "MAX_HEADER_BYTES = 4 * 1024"
definition MAX_CLAIMS_BYTES :: nat where "MAX_CLAIMS_BYTES = 64 * 1024"

record jwt_verifier =
  jv_secret :: bytes
  jv_issuer :: rstr
  jv_audience :: rstr
  jv_tenant_claim_path :: "rstr list"
  jv_role_claim_path :: "rstr list"
  jv_allowed_roles :: "rstr list"
  jv_admin_roles :: "rstr list"
  jv_leeway_seconds :: int

datatype auth_mode = Jwt jwt_verifier | InsecureHeaders

record auth_config =
  ac_mode :: auth_mode
  ac_cookie_name :: rstr

record auth_context =
  ctx_tenant_id :: uuid
  ctx_subject :: rstr
  ctx_roles :: "rstr list"
  ctx_tenant_admin :: bool

definition is_tenant_admin :: "auth_context \<Rightarrow> bool" where
  "is_tenant_admin c = ctx_tenant_admin c"

definition can_access_owner :: "auth_context \<Rightarrow> rstr \<Rightarrow> bool" where
  "can_access_owner c owner_subject \<longleftrightarrow> ctx_tenant_admin c \<or> ctx_subject c = owner_subject"

definition require_tenant_admin :: "auth_context \<Rightarrow> http_error + unit" where
  "require_tenant_admin c =
     (if ctx_tenant_admin c then Inr ()
      else Inl (HttpError_forbidden (lit ''this operation requires a tenant administrator role'')))"

definition role_char :: "uchar \<Rightarrow> bool" where
  "role_char c \<longleftrightarrow> is_ascii_alphanumeric c \<or> c = 95 \<or> c = 45 \<or> c = 58 \<or> c = 46"

definition insert_role :: "rstr \<Rightarrow> rstr list \<Rightarrow> rstr + rstr list" where
  "insert_role role0 roles =
     (let role = to_ascii_lowercase (trim role0) in
      if role = [] then Inr roles
      else if byte_len role > 80 \<or> \<not> list_all role_char role
      then Inl (lit ''roles must use 1 to 80 ASCII identifier characters'')
      else Inr (btree_insert role roles))"

definition parse_role_set :: "rstr \<Rightarrow> rstr + rstr list" where
  "parse_role_set value = fold_res insert_role (split_on (\<lambda>c. c = 44) value) []"

definition ident_char :: "uchar \<Rightarrow> bool" where
  "ident_char c \<longleftrightarrow> is_ascii_alphanumeric c \<or> c = 95 \<or> c = 45"

definition parse_claim_path :: "rstr \<Rightarrow> rstr + rstr list" where
  "parse_claim_path value =
     (let parts = map trim (split_on (\<lambda>c. c = 46) value) in
      if parts = [] \<or> length parts > 8 \<or>
         list_ex (\<lambda>part. part = [] \<or> byte_len part > 80 \<or> \<not> list_all ident_char part) parts
      then Inl (lit ''JWT claim paths must contain 1 to 8 identifier segments'')
      else Inr parts)"

definition validate_cookie_name :: "rstr \<Rightarrow> rstr + unit" where
  "validate_cookie_name value =
     (if value = [] \<or> byte_len value > 120 \<or> \<not> list_all ident_char value
      then Inl (lit ''EAL_JWT_COOKIE_NAME must be an ASCII cookie identifier'') else Inr ())"

definition nonempty_trimmed :: "rstr option \<Rightarrow> rstr option" where
  "nonempty_trimmed v = (case v of None \<Rightarrow> None
     | Some t \<Rightarrow> if trim t \<noteq> [] then Some (trim t) else None)"

definition required_env :: "environment \<Rightarrow> string \<Rightarrow> rstr + rstr" where
  "required_env env name =
     ok_or (lit name @ lit '' is required when JWT authentication is enabled'')
       (nonempty_trimmed (env name))"

definition env_string :: "environment \<Rightarrow> string \<Rightarrow> rstr \<Rightarrow> rstr" where
  "env_string env name default0 =
     (case nonempty_trimmed (env name) of None \<Rightarrow> default0 | Some v \<Rightarrow> v)"

definition AuthConfig_jwt ::
  "bytes \<Rightarrow> rstr \<Rightarrow> rstr \<Rightarrow> rstr \<Rightarrow> rstr \<Rightarrow> rstr list \<Rightarrow> rstr list \<Rightarrow> int \<Rightarrow> rstr \<Rightarrow> rstr + auth_config" where
  "AuthConfig_jwt secret issuer0 audience0 tenant_claim role_claim allowed_roles admin_roles
       leeway_seconds cookie_name =
     (if \<not> (MIN_SECRET_BYTES \<le> length secret \<and> length secret \<le> MAX_SECRET_BYTES)
      then Inl (lit ''EAL_JWT_HS256_SECRET must contain between '' @ show_nat MIN_SECRET_BYTES @
                lit '' and '' @ show_nat MAX_SECRET_BYTES @ lit '' bytes'')
      else let issuer = trim issuer0; audience = trim audience0 in
      if issuer = [] \<or> byte_len issuer > 512
      then Inl (lit ''EAL_JWT_ISSUER must contain between 1 and 512 bytes'')
      else if audience = [] \<or> byte_len audience > 512
      then Inl (lit ''EAL_JWT_AUDIENCE must contain between 1 and 512 bytes'')
      else bindr (parse_claim_path tenant_claim) (\<lambda>tenant_claim_path.
      bindr (parse_claim_path role_claim) (\<lambda>role_claim_path.
      if allowed_roles = []
      then Inl (lit ''EAL_JWT_ALLOWED_ROLES must contain at least one role'')
      else if \<not> btree_is_subset admin_roles allowed_roles
      then Inl (lit ''EAL_JWT_TENANT_ADMIN_ROLES must be a subset of EAL_JWT_ALLOWED_ROLES'')
      else if \<not> (0 \<le> leeway_seconds \<and> leeway_seconds \<le> 300)
      then Inl (lit ''EAL_JWT_LEEWAY_SECONDS must be between 0 and 300'')
      else bindr (validate_cookie_name cookie_name) (\<lambda>_.
        Inr \<lparr>ac_mode = Jwt \<lparr>jv_secret = secret, jv_issuer = issuer, jv_audience = audience,
               jv_tenant_claim_path = tenant_claim_path, jv_role_claim_path = role_claim_path,
               jv_allowed_roles = allowed_roles, jv_admin_roles = admin_roles,
               jv_leeway_seconds = leeway_seconds\<rparr>,
             ac_cookie_name = cookie_name\<rparr>))))"

definition AuthConfig_insecure_headers :: auth_config where
  "AuthConfig_insecure_headers = \<lparr>ac_mode = InsecureHeaders, ac_cookie_name = DEFAULT_COOKIE_NAME\<rparr>"

definition AuthConfig_is_jwt :: "auth_config \<Rightarrow> bool" where
  "AuthConfig_is_jwt c \<longleftrightarrow> (case ac_mode c of Jwt _ \<Rightarrow> True | InsecureHeaders \<Rightarrow> False)"

definition AuthConfig_mode_name :: "auth_config \<Rightarrow> string" where
  "AuthConfig_mode_name c = (case ac_mode c of
     Jwt _ \<Rightarrow> ''verified_jwt'' | InsecureHeaders \<Rightarrow> ''explicit_insecure_headers'')"

definition AuthConfig_from_env :: "environment \<Rightarrow> bool \<Rightarrow> bool \<Rightarrow> rstr + auth_config" where
  "AuthConfig_from_env env production allow_insecure_tenant_header =
     (case (case env ''EAL_JWT_HS256_SECRET'' of
              None \<Rightarrow> None
            | Some value \<Rightarrow> if trim value \<noteq> [] then Some value else None) of
        Some secret \<Rightarrow>
          bindr (required_env env ''EAL_JWT_ISSUER'') (\<lambda>issuer.
          bindr (required_env env ''EAL_JWT_AUDIENCE'') (\<lambda>audience.
          let tenant_claim = env_string env ''EAL_JWT_TENANT_CLAIM'' DEFAULT_TENANT_CLAIM;
              role_claim = env_string env ''EAL_JWT_ROLE_CLAIM'' DEFAULT_ROLE_CLAIM in
          bindr (parse_role_set (env_string env ''EAL_JWT_ALLOWED_ROLES'' DEFAULT_ALLOWED_ROLES))
            (\<lambda>allowed_roles.
          bindr (parse_role_set (env_string env ''EAL_JWT_TENANT_ADMIN_ROLES'' DEFAULT_ADMIN_ROLES))
            (\<lambda>admin_roles.
          bindr (case env ''EAL_JWT_LEEWAY_SECONDS'' of
                   None \<Rightarrow> Inr DEFAULT_LEEWAY_SECONDS
                 | Some value \<Rightarrow> ok_or (lit ''EAL_JWT_LEEWAY_SECONDS must be an integer'')
                     (parse_i64 (trim value))) (\<lambda>leeway_seconds.
          let cookie_name = env_string env ''EAL_JWT_COOKIE_NAME'' DEFAULT_COOKIE_NAME in
          AuthConfig_jwt (as_bytes secret) issuer audience tenant_claim role_claim allowed_roles
            admin_roles leeway_seconds cookie_name)))))
      | None \<Rightarrow>
          if production
          then Inl (lit ''production authentication requires EAL_JWT_HS256_SECRET, EAL_JWT_ISSUER, and EAL_JWT_AUDIENCE'')
          else if allow_insecure_tenant_header then Inr AuthConfig_insecure_headers
          else Inl (lit ''authentication is not configured; set JWT verification variables or explicitly enable the isolated development header scaffold''))"

section \<open>Credentials of a request\<close>

definition bearer_token :: "rstr \<Rightarrow> http_error + rstr" where
  "bearer_token value =
     (let parts = split_ascii_whitespace value;
          scheme = (case parts of [] \<Rightarrow> [] | s # _ \<Rightarrow> s);
          token = (case parts of _ # t # _ \<Rightarrow> t | _ \<Rightarrow> []) in
      if \<not> eq_ignore_ascii_case scheme (lit ''Bearer'') \<or> token = [] \<or> length parts > 2
      then Inl (HttpError_unauthorized (lit ''Authorization must use a single Bearer token''))
      else Inr token)"

definition cookie_pair :: "rstr \<Rightarrow> rstr \<Rightarrow> rstr option \<Rightarrow> http_error + rstr option" where
  "cookie_pair cookie_name pair found =
     (case split_once 61 (trim pair) of
        None \<Rightarrow> Inr found
      | Some (name, value) \<Rightarrow>
          if name \<noteq> cookie_name then Inr found
          else if value = []
          then Inl (HttpError_unauthorized (lit ''JWT cookie must not be empty''))
          else if (case found of None \<Rightarrow> False | Some existing \<Rightarrow> existing \<noteq> value)
          then Inl (HttpError_unauthorized (lit ''conflicting JWT cookies were supplied''))
          else Inr (Some value))"

definition cookie_token :: "auth_crates \<Rightarrow> headers \<Rightarrow> rstr \<Rightarrow> http_error + rstr option" where
  "cookie_token A headers cookie_name =
     fold_res (\<lambda>header found.
         bindr (ok_or (HttpError_unauthorized (lit ''invalid Cookie header'')) (header_to_str A header))
           (\<lambda>text. fold_res (cookie_pair cookie_name) (split_on (\<lambda>c. c = 59) text) found))
       (header_get_all headers ''cookie'') None"

definition extract_token :: "auth_crates \<Rightarrow> headers \<Rightarrow> rstr \<Rightarrow> http_error + rstr" where
  "extract_token A headers cookie_name =
     (let authorization_values = header_get_all headers ''authorization'' in
      if length authorization_values > 1
      then Inl (HttpError_unauthorized (lit ''multiple Authorization headers are not allowed''))
      else bindr (case authorization_values of
          [] \<Rightarrow> Inr None
        | v # _ \<Rightarrow>
            bindr (ok_or (HttpError_unauthorized (lit ''invalid Authorization header'')) (header_to_str A v))
              (\<lambda>text. bindr (bearer_token text) (\<lambda>t. Inr (Some t)))) (\<lambda>authorization.
      bindr (cookie_token A headers cookie_name) (\<lambda>cookie.
      case (authorization, cookie) of
        (Some a, Some c) \<Rightarrow>
          if a \<noteq> c
          then Inl (HttpError_unauthorized (lit ''conflicting JWT credentials were supplied''))
          else Inr a
      | (Some t, None) \<Rightarrow> Inr t
      | (None, Some t) \<Rightarrow> Inr t
      | (None, None) \<Rightarrow> Inl (HttpError_unauthorized (lit ''missing bearer token'')))))"

section \<open>Verification of a token\<close>

fun audience_matches :: "json \<Rightarrow> rstr \<Rightarrow> bool" where
  "audience_matches (JString value) expected \<longleftrightarrow> value = expected"
| "audience_matches (JArray values) expected \<longleftrightarrow>
     list_ex (\<lambda>value. as_str value = Some expected) values"
| "audience_matches _ expected \<longleftrightarrow> False"

definition integer_claim :: "json \<Rightarrow> int option" where
  "integer_claim value =
     (case as_i64 value of
        Some n \<Rightarrow> Some n
      | None \<Rightarrow> (case as_u64 value of
                   None \<Rightarrow> None
                 | Some n \<Rightarrow> if int n \<le> i64_max then Some (int n) else None))"

fun claim_at_path :: "json \<Rightarrow> rstr list \<Rightarrow> json option" where
  "claim_at_path value [] = Some value"
| "claim_at_path value (part # path) =
     (case json_get value part of None \<Rightarrow> None | Some next_value \<Rightarrow> claim_at_path next_value path)"

definition ok_option :: "'e + 'a \<Rightarrow> 'a option" where
  "ok_option r = (case r of Inl _ \<Rightarrow> None | Inr x \<Rightarrow> Some x)"

fun insert_json_role :: "json \<Rightarrow> rstr list \<Rightarrow> rstr + rstr list" where
  "insert_json_role v roles =
     (case as_str v of None \<Rightarrow> Inl [] | Some role \<Rightarrow> insert_role role roles)"

fun parse_roles :: "json \<Rightarrow> rstr list option" where
  "parse_roles (JString value) =
     do { roles \<leftarrow> ok_option (fold_res insert_role (split_on (\<lambda>c. c = 44) value) []);
          (if roles = [] then None else Some roles) }"
| "parse_roles (JArray values) =
     do { roles \<leftarrow> ok_option (fold_res insert_json_role values []);
          (if roles = [] then None else Some roles) }"
| "parse_roles _ = None"

definition time_claim_ok :: "json option \<Rightarrow> int \<Rightarrow> unit option" where
  "time_claim_ok claim limit =
     (case claim of
        None \<Rightarrow> Some ()
      | Some value \<Rightarrow> do { t \<leftarrow> integer_claim value; ensure (\<not> t > limit) })"

text \<open>
  \<^verbatim>\<open>JwtVerifier::verify\<close> in its two halves: the envelope (segments, protected header, signature,
  decoding of the claims) and the claims.
\<close>

definition open_token :: "auth_crates \<Rightarrow> jwt_verifier \<Rightarrow> rstr \<Rightarrow> json option" where
  "open_token A v token =
     (if byte_len token > MAX_JWT_BYTES \<or> list_ex is_ascii_whitespace token then None
      else case split_on (\<lambda>c. c = 46) token of
        [protected_part, claims_part, signature_part] \<Rightarrow>
          do {
            ensure (protected_part \<noteq> [] \<and> claims_part \<noteq> [] \<and> signature_part \<noteq> []);
            protected_bytes \<leftarrow> b64url_decode A protected_part;
            ensure (\<not> length protected_bytes > MAX_HEADER_BYTES);
            protected_json \<leftarrow> json_from_slice A protected_bytes;
            protected_object \<leftarrow> as_object protected_json;
            ensure (Option.bind (protected_object (lit ''alg'')) as_str = Some (lit ''HS256''));
            ensure (\<not> (case Option.bind (protected_object (lit ''typ'')) as_str of
                          None \<Rightarrow> False
                        | Some t \<Rightarrow> \<not> eq_ignore_ascii_case t (lit ''JWT'')));
            ensure (\<not> protected_object (lit ''crit'') \<noteq> None);
            signature \<leftarrow> b64url_decode A signature_part;
            ensure (length signature = 32);
            mac \<leftarrow> hmac_sha256 A (jv_secret v);
            ensure (mac (as_bytes (protected_part @ lit ''.'' @ claims_part)) = signature);
            claims_bytes \<leftarrow> b64url_decode A claims_part;
            ensure (\<not> length claims_bytes > MAX_CLAIMS_BYTES);
            json_from_slice A claims_bytes
          }
      | _ \<Rightarrow> None)"

definition check_claims :: "auth_crates \<Rightarrow> jwt_verifier \<Rightarrow> int \<Rightarrow> json \<Rightarrow> auth_context option" where
  "check_claims A v now claims =
     do {
       claims_object \<leftarrow> as_object claims;
       ensure (Option.bind (claims_object (lit ''iss'')) as_str = Some (jv_issuer v));
       aud \<leftarrow> claims_object (lit ''aud'');
       ensure (audience_matches aud (jv_audience v));
       subject0 \<leftarrow> Option.bind (claims_object (lit ''sub'')) as_str;
       ensure (trim subject0 \<noteq> [] \<and> byte_len (trim subject0) \<le> 256);
       expiration \<leftarrow> Option.bind (claims_object (lit ''exp'')) integer_claim;
       ensure (\<not> expiration \<le> saturate (now - jv_leeway_seconds v));
       time_claim_ok (claims_object (lit ''nbf'')) (saturate (now + jv_leeway_seconds v));
       time_claim_ok (claims_object (lit ''iat'')) (saturate (now + jv_leeway_seconds v));
       tenant \<leftarrow> Option.bind (claim_at_path claims (jv_tenant_claim_path v)) as_str;
       tenant_id \<leftarrow> uuid_parse_str A tenant;
       roles \<leftarrow> Option.bind (claim_at_path claims (jv_role_claim_path v)) parse_roles;
       ensure (\<not> btree_is_disjoint roles (jv_allowed_roles v));
       Some \<lparr>ctx_tenant_id = tenant_id, ctx_subject = trim subject0, ctx_roles = roles,
             ctx_tenant_admin = (\<not> btree_is_disjoint roles (jv_admin_roles v))\<rparr>
     }"

definition verify :: "auth_crates \<Rightarrow> jwt_verifier \<Rightarrow> rstr \<Rightarrow> int \<Rightarrow> auth_context option" where
  "verify A v token now = Option.bind (open_token A v token) (check_claims A v now)"

definition insecure_context :: "auth_crates \<Rightarrow> headers \<Rightarrow> http_error + auth_context" where
  "insecure_context A headers =
     bindr (tenant_id_from_headers A headers) (\<lambda>tenant_id.
     bindr (ok_or (HttpError_unauthorized (lit ''missing X-Eal-Subject-Id header''))
       (header_get headers SUBJECT_HEADER)) (\<lambda>subject_value.
     bindr (ok_or (HttpError_unauthorized (lit ''invalid X-Eal-Subject-Id header''))
       (header_to_str A subject_value)) (\<lambda>subject0.
     let subject = trim subject0 in
     if subject = [] \<or> byte_len subject > 256
     then Inl (HttpError_unauthorized (lit ''X-Eal-Subject-Id must contain between 1 and 256 bytes''))
     else bindr (ok_or (HttpError_unauthorized (lit ''missing X-Eal-Roles header''))
       (header_get headers ROLES_HEADER)) (\<lambda>roles_value.
     bindr (ok_or (HttpError_unauthorized (lit ''invalid X-Eal-Roles header''))
       (header_to_str A roles_value)) (\<lambda>roles_text.
     bindr (map_err HttpError_unauthorized (parse_role_set roles_text)) (\<lambda>roles.
     if roles = []
     then Inl (HttpError_unauthorized (lit ''X-Eal-Roles must contain at least one role''))
     else Inr \<lparr>ctx_tenant_id = tenant_id, ctx_subject = subject, ctx_roles = roles,
                ctx_tenant_admin = (btree_contains roles (lit ''admin'') \<or>
                                    btree_contains roles (lit ''owner''))\<rparr>))))))"

definition authenticate_at ::
  "auth_crates \<Rightarrow> auth_config \<Rightarrow> headers \<Rightarrow> int \<Rightarrow> http_error + auth_context" where
  "authenticate_at A config headers now =
     (case ac_mode config of
        Jwt verifier \<Rightarrow>
          bindr (extract_token A headers (ac_cookie_name config)) (\<lambda>token.
            ok_or (HttpError_unauthorized (lit ''invalid bearer token'')) (verify A verifier token now))
      | InsecureHeaders \<Rightarrow> insecure_context A headers)"

section \<open>Roles\<close>

definition role_wf :: "rstr \<Rightarrow> bool" where
  "role_wf r \<longleftrightarrow> r \<noteq> [] \<and> byte_len r \<le> 80 \<and> list_all role_char r \<and> to_ascii_lowercase r = r"

definition roles_wf :: "rstr list \<Rightarrow> bool" where
  "roles_wf rs \<longleftrightarrow> btree_ok rs \<and> list_all role_wf rs"

lemma roles_wf_Nil [simp]: "roles_wf []"
  by (simp add: roles_wf_def btree_ok_def)

lemma insert_role_wf: "insert_role r rs = Inr rs' \<Longrightarrow> roles_wf rs \<Longrightarrow> roles_wf rs'"
  using btree.wf_ins [of rs]
  by (auto simp: insert_role_def Let_def roles_wf_def role_wf_def list_all_iff split: if_splits)

lemma insert_json_role_wf: "insert_json_role r rs = Inr rs' \<Longrightarrow> roles_wf rs \<Longrightarrow> roles_wf rs'"
  by (auto split: option.splits intro: insert_role_wf)

lemma parse_role_set_wf: "parse_role_set v = Inr rs \<Longrightarrow> roles_wf rs"
  unfolding parse_role_set_def
  by (erule fold_res_inv [where P = roles_wf]) (auto intro: insert_role_wf)

lemma ok_option_Some [simp]: "ok_option r = Some x \<longleftrightarrow> r = Inr x"
  by (auto simp: ok_option_def split: sum.splits)

lemma parse_roles_wf: "parse_roles j = Some rs \<Longrightarrow> roles_wf rs \<and> rs \<noteq> []"
proof (induction j rule: parse_roles.induct)
  case (1 v)
  then show ?case
    using parse_role_set_wf [of v rs]
    by (auto simp: parse_role_set_def bind_eq_Some_conv split: if_splits)
next
  case (2 vs)
  then have *: "fold_res insert_json_role vs [] = Inr rs" and "rs \<noteq> []"
    by (auto simp: bind_eq_Some_conv split: if_splits)
  from * have "roles_wf rs"
    by (rule fold_res_inv [where P = roles_wf]) (auto intro: insert_json_role_wf)
  with \<open>rs \<noteq> []\<close> show ?case by simp
qed auto

section \<open>The specification of an accepted token\<close>

text \<open>
  \<open>signed_by A secret token claims\<close>: the token is three non-empty dot-separated segments,
  the first an HS256 header without critical extensions, the third the HMAC under the secret
  of the first two as they were sent, the second the claims object.
\<close>

definition header_ok :: "(rstr \<rightharpoonup> json) \<Rightarrow> bool" where
  "header_ok obj \<longleftrightarrow> obj (lit ''alg'') = Some (JString (lit ''HS256'')) \<and> obj (lit ''crit'') = None \<and>
     (case obj (lit ''typ'') of Some (JString t) \<Rightarrow> eq_ignore_ascii_case t (lit ''JWT'') | _ \<Rightarrow> True)"

definition envelope :: "auth_crates \<Rightarrow> bytes \<Rightarrow> rstr \<Rightarrow> rstr \<Rightarrow> rstr \<Rightarrow> json \<Rightarrow> bool" where
  "envelope A secret p c s claims \<longleftrightarrow>
     (\<exists>pb obj cb mac. p \<noteq> [] \<and> c \<noteq> [] \<and> s \<noteq> [] \<and>
        b64url_decode A p = Some pb \<and> length pb \<le> 4096 \<and>
        json_from_slice A pb = Some (JObject obj) \<and> header_ok (map_of obj) \<and>
        hmac_sha256 A secret = Some mac \<and> b64url_decode A s = Some (mac (as_bytes (p @ [46] @ c))) \<and>
        length (mac (as_bytes (p @ [46] @ c))) = 32 \<and>
        b64url_decode A c = Some cb \<and> length cb \<le> 65536 \<and> json_from_slice A cb = Some claims)"

definition signed_by :: "auth_crates \<Rightarrow> bytes \<Rightarrow> rstr \<Rightarrow> json \<Rightarrow> bool" where
  "signed_by A secret token claims \<longleftrightarrow>
     (\<exists>p c s. token = p @ [46] @ c @ [46] @ s \<and> 46 \<notin> set (p @ c @ s) \<and> envelope A secret p c s claims)"

definition time_claim :: "(rstr \<rightharpoonup> json) \<Rightarrow> string \<Rightarrow> int option" where
  "time_claim obj name = Option.bind (obj (lit name)) integer_claim"

definition not_after :: "(rstr \<rightharpoonup> json) \<Rightarrow> string \<Rightarrow> int \<Rightarrow> bool" where
  "not_after obj name limit \<longleftrightarrow> obj (lit name) = None \<or> (\<exists>t. time_claim obj name = Some t \<and> t \<le> limit)"

text \<open>
  \<open>claims_grant A v now claims ctx\<close>: the claims identify the issuer and one of the audiences,
  are valid at \<open>now\<close>, and describe exactly the identity \<open>ctx\<close>.
\<close>

definition claims_grant :: "auth_crates \<Rightarrow> jwt_verifier \<Rightarrow> int \<Rightarrow> json \<Rightarrow> auth_context \<Rightarrow> bool" where
  "claims_grant A v now claims ctx \<longleftrightarrow>
     (\<exists>m obj e aud sub tenant tenant_id roles.
        claims = JObject m \<and> obj = map_of m \<and>
        obj (lit ''iss'') = Some (JString (jv_issuer v)) \<and>
        obj (lit ''aud'') = Some aud \<and> audience_matches aud (jv_audience v) \<and>
        obj (lit ''sub'') = Some (JString sub) \<and> trim sub \<noteq> [] \<and> byte_len (trim sub) \<le> 256 \<and>
        time_claim obj ''exp'' = Some e \<and> saturate (now - jv_leeway_seconds v) < e \<and>
        not_after obj ''nbf'' (saturate (now + jv_leeway_seconds v)) \<and>
        not_after obj ''iat'' (saturate (now + jv_leeway_seconds v)) \<and>
        claim_at_path claims (jv_tenant_claim_path v) = Some (JString tenant) \<and>
        uuid_parse_str A tenant = Some tenant_id \<and>
        Option.bind (claim_at_path claims (jv_role_claim_path v)) parse_roles = Some roles \<and>
        set roles \<inter> set (jv_allowed_roles v) \<noteq> {} \<and>
        ctx = \<lparr>ctx_tenant_id = tenant_id, ctx_subject = trim sub, ctx_roles = roles,
               ctx_tenant_admin = (set roles \<inter> set (jv_admin_roles v) \<noteq> {})\<rparr>)"

lemma split_dot3:
  "split_on (\<lambda>c. c = d) t = [p, c, s] \<longleftrightarrow> t = p @ [d] @ c @ [d] @ s \<and> d \<notin> set (p @ c @ s)"
proof
  assume *: "split_on (\<lambda>c. c = d) t = [p, c, s]"
  then have "t = join [d] [p, c, s]"
    by (metis join_split_on)
  moreover have "d \<notin> set w" if "w \<in> {p, c, s}" for w
    using split_on_pieces [of w "\<lambda>c. c = d" t d] * that by auto
  ultimately show "t = p @ [d] @ c @ [d] @ s \<and> d \<notin> set (p @ c @ s)"
    by auto
next
  assume "t = p @ [d] @ c @ [d] @ s \<and> d \<notin> set (p @ c @ s)"
  then show "split_on (\<lambda>c. c = d) t = [p, c, s]"
    using split_on_join [of "[p, c, s]" d] by auto
qed

lemma time_claim_ok_iff:
  "time_claim_ok (obj (lit name)) limit = Some u \<longleftrightarrow> not_after obj name limit"
  by (auto simp: time_claim_ok_def not_after_def time_claim_def bind_eq_Some_conv not_less
      split: option.splits)

lemma header_ok_iff:
  "header_ok obj \<longleftrightarrow> Option.bind (obj (lit ''alg'')) as_str = Some (lit ''HS256'') \<and>
     \<not> (case Option.bind (obj (lit ''typ'')) as_str of
        None \<Rightarrow> False | Some t \<Rightarrow> \<not> eq_ignore_ascii_case t (lit ''JWT'')) \<and> obj (lit ''crit'') = None"
  by (auto simp: header_ok_def bind_eq_Some_conv split: option.splits json.splits)



lemma lit_dot: "lit ''.'' = [46]"
  by (simp add: lit_def)

lemma open_token_iff:
  "open_token A v token = Some claims \<longleftrightarrow>
     byte_len token \<le> MAX_JWT_BYTES \<and> \<not> list_ex is_ascii_whitespace token \<and>
     signed_by A (jv_secret v) token claims" (is "?L \<longleftrightarrow> ?R")
proof -
  have seg: "?L \<longleftrightarrow> byte_len token \<le> MAX_JWT_BYTES \<and> \<not> list_ex is_ascii_whitespace token \<and>
      (\<exists>p c s. split_on (\<lambda>c. c = 46) token = [p, c, s] \<and> ?L)"
    by (auto simp: open_token_def split: if_splits list.splits)
  have env: "split_on (\<lambda>c. c = 46) token = [p, c, s] \<Longrightarrow> byte_len token \<le> MAX_JWT_BYTES \<Longrightarrow>
      \<not> list_ex is_ascii_whitespace token \<Longrightarrow> ?L \<longleftrightarrow> envelope A (jv_secret v) p c s claims" for p c s
    unfolding open_token_def header_ok_iff envelope_def
    by (auto simp: bind_eq_Some_conv MAX_HEADER_BYTES_def MAX_CLAIMS_BYTES_def not_less lit_dot)
  have "signed_by A (jv_secret v) token claims \<longleftrightarrow>
      (\<exists>p c s. split_on (\<lambda>c. c = 46) token = [p, c, s] \<and> envelope A (jv_secret v) p c s claims)"
    by (simp add: signed_by_def split_dot3 conj_assoc)
  then show ?thesis
    using seg env by blast
qed

lemma check_claims_iff: "check_claims A v now claims = Some ctx \<longleftrightarrow> claims_grant A v now claims ctx"
  unfolding check_claims_def claims_grant_def time_claim_def
  by (cases claims) (auto simp: bind_eq_Some_conv time_claim_ok_iff not_le)

lemma verify_Some:
  "verify A v token now = Some ctx \<longleftrightarrow>
     (\<exists>claims. open_token A v token = Some claims \<and> claims_grant A v now claims ctx)"
  by (auto simp: verify_def bind_eq_Some_conv check_claims_iff)


lemma saturate_mono: "x \<le> y \<Longrightarrow> saturate x \<le> saturate y"
  by (auto simp: saturate_def)

lemma not_after_mono: "not_after obj n l \<Longrightarrow> l \<le> l' \<Longrightarrow> not_after obj n l'"
  by (auto simp: not_after_def)

lemma claims_grant_det:
  assumes "claims_grant A v t1 claims c1" and "claims_grant A v t2 claims c2"
  shows "c1 = c2"
  using assms unfolding claims_grant_def by (elim exE conjE) simp

lemma claims_grant_between:
  assumes "claims_grant A v t1 claims c" and "claims_grant A v t2 claims c" and "t1 \<le> t" and "t \<le> t2"
  shows "claims_grant A v t claims c"
proof -
  let ?l = "jv_leeway_seconds v"
  have "saturate (t1 + ?l) \<le> saturate (t + ?l)" and "saturate (t - ?l) \<le> saturate (t2 - ?l)"
    using assms(3,4) by (auto intro: saturate_mono)
  with assms(1,2) show ?thesis
    unfolding claims_grant_def by (elim exE conjE) (auto elim: not_after_mono)
qed

section \<open>Credentials\<close>

definition named_values :: "rstr \<Rightarrow> rstr list \<Rightarrow> rstr list" where
  "named_values cookie_name pairs =
     map snd (filter (\<lambda>(n, v). n = cookie_name) (List.map_filter (\<lambda>p. split_once 61 (trim p)) pairs))"

definition cookie_values :: "auth_crates \<Rightarrow> rstr \<Rightarrow> bytes \<Rightarrow> rstr set" where
  "cookie_values A cookie_name header =
     (case header_to_str A header of None \<Rightarrow> {}
      | Some text \<Rightarrow> set (named_values cookie_name (split_on (\<lambda>c. c = 59) text)))"

definition bearer_values :: "auth_crates \<Rightarrow> bytes \<Rightarrow> rstr set" where
  "bearer_values A header = (case header_to_str A header of None \<Rightarrow> {}
     | Some text \<Rightarrow> (case bearer_token text of Inl _ \<Rightarrow> {} | Inr t \<Rightarrow> {t}))"

lemma named_values_simps [simp]:
  "named_values cn [] = []"
  "named_values cn (p # ps) =
     (case split_once 61 (trim p) of
        Some (n, v) \<Rightarrow> if n = cn then v # named_values cn ps else named_values cn ps
      | None \<Rightarrow> named_values cn ps)"
  by (auto simp: named_values_def map_filter_simps split: option.splits)

lemma fold_cookie_pair:
  "fold_res (cookie_pair cn) ps found = Inr r \<longleftrightarrow>
     set_option found \<union> set (named_values cn ps) = set_option r \<and> [] \<notin> set (named_values cn ps)"
proof (induction ps arbitrary: found)
  case Nil
  then show ?case by (cases found; cases r) auto
next
  case (Cons p ps)
  show ?case
  proof (cases "split_once 61 (trim p)")
    case None
    then have "cookie_pair cn p found = Inr found" by (simp add: cookie_pair_def)
    with None show ?thesis by (simp add: Cons)
  next
    case (Some nv)
    obtain n v where nv: "nv = (n, v)" by (cases nv)
    have "cookie_pair cn p found = Inr f \<longleftrightarrow>
        (if n = cn then v \<noteq> [] \<and> found \<in> {None, Some v} \<and> f = Some v else f = found)" for f
      using Some nv by (cases found) (auto simp: cookie_pair_def)
    moreover have "found \<notin> {None, Some v} \<Longrightarrow> set_option found \<union> insert v X \<noteq> set_option r" for X
      by (cases found; cases r) auto
    ultimately show ?thesis
      using Some nv by (cases found) (auto simp: Cons)
  qed
qed

lemma set_option_split:
  "(\<exists>m. (S = set_option m \<and> p) \<and> set_option m \<union> X = set_option r \<and> q) \<longleftrightarrow>
     S \<union> X = set_option r \<and> p \<and> q" (is "?L \<longleftrightarrow> ?R")
proof
  assume *: ?R
  show ?L
  proof (cases "S = {}")
    case True
    with * show ?thesis by (intro exI [of _ None]) auto
  next
    case False
    then have "S \<noteq> {}" .
    with * have "S = set_option r" by (cases r) (simp, metis Un_upper1 option.set(2) subset_singletonD)
    with * show ?thesis by (intro exI [of _ r]) auto
  qed
qed auto

lemma cookie_token_iff:
  "cookie_token A h cn = Inr r \<longleftrightarrow>
     (\<Union>(cookie_values A cn ` set (header_get_all h ''cookie''))) = set_option r \<and>
     [] \<notin> \<Union>(cookie_values A cn ` set (header_get_all h ''cookie'')) \<and>
     list_all (\<lambda>v. header_to_str A v \<noteq> None) (header_get_all h ''cookie'')"
proof -
  have "fold_res (\<lambda>header found.
         bindr (ok_or e (header_to_str A header))
           (\<lambda>text. fold_res (cookie_pair cn) (split_on (\<lambda>c. c = 59) text) found)) hs found = Inr r \<longleftrightarrow>
      set_option found \<union> (\<Union>(cookie_values A cn ` set hs)) = set_option r \<and>
      [] \<notin> \<Union>(cookie_values A cn ` set hs) \<and> list_all (\<lambda>v. header_to_str A v \<noteq> None) hs" for e hs found
  proof (induction hs arbitrary: found)
    case Nil
    then show ?case by (cases found; cases r) auto
  next
    case (Cons x hs)
    show ?case
    proof (cases "header_to_str A x")
      case (Some txt0)
      let ?vs = "set (named_values cn (split_on (\<lambda>c. c = 59) txt0))"
      have vs: "cookie_values A cn x = ?vs"
        using Some by (simp add: cookie_values_def)
      define U where "U = \<Union>(cookie_values A cn ` set hs)"
      define ok where "ok \<longleftrightarrow> list_all (\<lambda>v. header_to_str A v \<noteq> None) hs"
      note IH = Cons [folded U_def ok_def]
      have "[] \<notin> \<Union>(cookie_values A cn ` set (x # hs)) \<longleftrightarrow> [] \<notin> ?vs \<and> [] \<notin> U"
        and "set_option found \<union> \<Union>(cookie_values A cn ` set (x # hs)) = set_option found \<union> ?vs \<union> U"
        and "list_all (\<lambda>v. header_to_str A v \<noteq> None) (x # hs) \<longleftrightarrow> ok"
        using Some by (auto simp: U_def vs ok_def)
      note parts = this
      show ?thesis
        unfolding parts using set_option_split [of "set_option found \<union> ?vs" "[] \<notin> ?vs" U r "[] \<notin> U \<and> ok"]
        by (simp add: Some IH fold_cookie_pair)
    qed simp
  qed
  from this [of _ _ None] show ?thesis
    unfolding cookie_token_def by simp
qed


lemma bearer_token_nonempty: "bearer_token s = Inr t \<Longrightarrow> t \<noteq> []"
  by (auto simp: bearer_token_def Let_def split: list.splits if_splits)

section \<open>Configuration and context invariants\<close>

definition verifier_wf :: "jwt_verifier \<Rightarrow> bool" where
  "verifier_wf v \<longleftrightarrow>
     32 \<le> length (jv_secret v) \<and> length (jv_secret v) \<le> 4096 \<and>
     jv_issuer v \<noteq> [] \<and> byte_len (jv_issuer v) \<le> 512 \<and> trim (jv_issuer v) = jv_issuer v \<and>
     jv_audience v \<noteq> [] \<and> byte_len (jv_audience v) \<le> 512 \<and> trim (jv_audience v) = jv_audience v \<and>
     jv_tenant_claim_path v \<noteq> [] \<and> length (jv_tenant_claim_path v) \<le> 8 \<and>
     jv_role_claim_path v \<noteq> [] \<and> length (jv_role_claim_path v) \<le> 8 \<and>
     roles_wf (jv_allowed_roles v) \<and> jv_allowed_roles v \<noteq> [] \<and>
     set (jv_admin_roles v) \<subseteq> set (jv_allowed_roles v) \<and>
     0 \<le> jv_leeway_seconds v \<and> jv_leeway_seconds v \<le> 300"

definition context_wf :: "auth_context \<Rightarrow> bool" where
  "context_wf c \<longleftrightarrow> roles_wf (ctx_roles c) \<and> ctx_roles c \<noteq> [] \<and> trim (ctx_subject c) = ctx_subject c \<and>
     ctx_subject c \<noteq> [] \<and> byte_len (ctx_subject c) \<le> 256"

definition admin_roles_of :: "auth_config \<Rightarrow> rstr set" where
  "admin_roles_of config = (case ac_mode config of
     Jwt v \<Rightarrow> set (jv_admin_roles v) | InsecureHeaders \<Rightarrow> {lit ''admin'', lit ''owner''})"

lemma parse_claim_path_wf: "parse_claim_path s = Inr p \<Longrightarrow> p \<noteq> [] \<and> length p \<le> 8"
  by (auto simp: parse_claim_path_def Let_def split: if_splits)

lemma AuthConfig_jwt_wf:
  assumes "AuthConfig_jwt secret iss aud tc rc allowed admin leeway cn = Inr c" and "roles_wf allowed"
  shows "\<exists>v. ac_mode c = Jwt v \<and> verifier_wf v"
  using assms parse_claim_path_wf
  by (auto simp: AuthConfig_jwt_def Let_def verifier_wf_def MIN_SECRET_BYTES_def MAX_SECRET_BYTES_def
      split: if_splits)

lemma authenticate_Inr_wf:
  assumes "authenticate_at A config h now = Inr ctx"
  shows "context_wf ctx \<and> (ctx_tenant_admin ctx \<longleftrightarrow> set (ctx_roles ctx) \<inter> admin_roles_of config \<noteq> {})"
proof (cases "ac_mode config")
  case (Jwt v)
  then obtain claims where "claims_grant A v now claims ctx"
    using assms by (auto simp: authenticate_at_def verify_Some)
  then show ?thesis
    using Jwt unfolding claims_grant_def context_wf_def admin_roles_of_def
    by (elim exE conjE) (auto simp: bind_eq_Some_conv dest: parse_roles_wf)
next
  case InsecureHeaders
  then show ?thesis
    using assms
    by (auto simp: authenticate_at_def insecure_context_def Let_def context_wf_def admin_roles_of_def
        btree_contains_def dest: parse_role_set_wf)
qed

lemma bearer_token_error: "bearer_token s = Inl e \<Longrightarrow> err_status e = 401"
  by (auto simp: bearer_token_def Let_def split: if_splits)

lemma cookie_pair_error: "cookie_pair cn p f = Inl e \<Longrightarrow> err_status e = 401"
  by (auto simp: cookie_pair_def split: if_splits option.splits)

lemma cookie_token_error: "cookie_token A h cn = Inl e \<Longrightarrow> err_status e = 401"
  unfolding cookie_token_def
  by (erule fold_res_error) (auto simp: bindr_eq_Inl elim: fold_res_error intro: cookie_pair_error)

lemma extract_token_error: "extract_token A h cn = Inl e \<Longrightarrow> err_status e = 401"
  by (auto simp: extract_token_def Let_def bindr_eq_Inl dest: bearer_token_error cookie_token_error
      split: if_splits list.splits option.splits)

lemma insecure_context_error: "insecure_context A h = Inl e \<Longrightarrow> err_status e = 401"
  by (auto simp: insecure_context_def tenant_id_from_headers_def Let_def bindr_eq_Inl split: if_splits)

lemma authenticate_error: "authenticate_at A config h now = Inl e \<Longrightarrow> err_status e = 401"
  by (auto simp: authenticate_at_def bindr_eq_Inl dest: extract_token_error insecure_context_error
      split: auth_mode.splits)

section \<open>Properties\<close>

text \<open>
  C11. A JWT is accepted exactly when it is at most 16 KiB without whitespace, its signature is
  the HMAC under the configured secret of exactly the two segments sent before it with an
  HS256 header, and its signed claims grant the identity: issuer, audience, subject, validity
  window with leeway, tenant, and at least one allowed role. The context returned is the one
  the claims describe, with the administrator flag set exactly by an administrator role.
\<close>

theorem verify_iff:
  "verify A v token now = Some ctx \<longleftrightarrow>
     byte_len token \<le> 16384 \<and> \<not> list_ex is_ascii_whitespace token \<and>
     (\<exists>claims. signed_by A (jv_secret v) token claims \<and> claims_grant A v now claims ctx)"
  unfolding verify_Some open_token_iff MAX_JWT_BYTES_def by auto

text \<open>
  The instants at which a token is accepted form an interval and the identity does not
  depend on the instant: between two acceptances the token is accepted with the same context,
  the saturating arithmetic of the leeway included.
\<close>

theorem verify_window:
  assumes "verify A v token t1 = Some c1" and "verify A v token t2 = Some c2"
    and "t1 \<le> t" and "t \<le> t2"
  shows "verify A v token t = Some c1 \<and> c1 = c2"
proof -
  from assms(1,2) obtain claims where *: "open_token A v token = Some claims"
    and g: "claims_grant A v t1 claims c1" "claims_grant A v t2 claims c2"
    by (auto simp: verify_Some)
  from g have "c1 = c2"
    by (rule claims_grant_det)
  with * g claims_grant_between [OF g(1) _ assms(3,4)] show ?thesis
    by (auto simp: verify_Some)
qed

definition example_claims :: json where
  "example_claims = JObject
     [(lit ''iss'', JString (lit ''issuer'')), (lit ''aud'', JArray [JString (lit ''eal'')]),
      (lit ''sub'', JString (lit '' user-1'')), (lit ''exp'', JNumber (PosInt 2000)),
      (lit ''nbf'', JNumber (PosInt 1000)),
      (lit ''app'', JObject [(lit ''tenant'', JString (lit ''t1'')),
        (lit ''roles'', JString (lit ''Member, ADMIN''))])]"

definition example_crates :: auth_crates where
  "example_crates = \<lparr>header_to_str = (\<lambda>b. Some (map unat b)),
     uuid_parse_str = (\<lambda>s. if s = lit ''t1'' then Some 1 else None),
     b64url_decode = (\<lambda>s. Some (if s = lit ''sig'' then replicate 32 0 else as_bytes s)),
     json_from_slice = (\<lambda>b. if b = as_bytes (lit ''hdr'')
        then Some (JObject [(lit ''alg'', JString (lit ''HS256''))])
        else if b = as_bytes (lit ''clm'') then Some example_claims else None),
     hmac_sha256 = (\<lambda>k. Some (\<lambda>m. replicate 32 0))\<rparr>"

definition example_verifier :: jwt_verifier where
  "example_verifier = \<lparr>jv_secret = replicate 32 1, jv_issuer = lit ''issuer'', jv_audience = lit ''eal'',
     jv_tenant_claim_path = [lit ''app'', lit ''tenant''], jv_role_claim_path = [lit ''app'', lit ''roles''],
     jv_allowed_roles = [lit ''admin'', lit ''member''], jv_admin_roles = [lit ''admin''],
     jv_leeway_seconds = 30\<rparr>"

definition example_context :: auth_context where
  "example_context = \<lparr>ctx_tenant_id = 1, ctx_subject = lit ''user-1'',
     ctx_roles = [lit ''admin'', lit ''member''], ctx_tenant_admin = True\<rparr>"

theorem verify_window_witness:
  "verify example_crates example_verifier (lit ''hdr.clm.sig'') 970 = Some example_context \<and>
   verify example_crates example_verifier (lit ''hdr.clm.sig'') 969 = None \<and>
   verify example_crates example_verifier (lit ''hdr.clm.sig'') 2029 = Some example_context \<and>
   verify example_crates example_verifier (lit ''hdr.clm.sig'') 2030 = None \<and>
   verify example_crates example_verifier (lit ''hdr.clm.sig'') 1500 = Some example_context"
proof -
  have 1: "verify example_crates example_verifier (lit ''hdr.clm.sig'') 970 = Some example_context"
    by code_simp
  have 2: "verify example_crates example_verifier (lit ''hdr.clm.sig'') 2029 = Some example_context"
    by code_simp
  have 3: "verify example_crates example_verifier (lit ''hdr.clm.sig'') 969 = None"
    by code_simp
  have 4: "verify example_crates example_verifier (lit ''hdr.clm.sig'') 2030 = None"
    by code_simp
  from 1 2 3 4 verify_window [OF 1 2, of 1500] show ?thesis by simp
qed

text \<open>
  C27. The token of a request is the unique credential it carries: extraction succeeds exactly
  when there is at most one Authorization header and it is a Bearer credential, every Cookie
  header is readable, and the bearer token together with the values of the configured cookie
  in all Cookie headers is one single non-empty token.
\<close>

theorem extract_token_iff:
  "extract_token A h cn = Inr t \<longleftrightarrow>
     length (header_get_all h ''authorization'') \<le> 1 \<and>
     list_all (\<lambda>v. bearer_values A v \<noteq> {}) (header_get_all h ''authorization'') \<and>
     list_all (\<lambda>v. header_to_str A v \<noteq> None) (header_get_all h ''cookie'') \<and>
     \<Union>(bearer_values A ` set (header_get_all h ''authorization'')) \<union>
       \<Union>(cookie_values A cn ` set (header_get_all h ''cookie'')) = {t} \<and> t \<noteq> []"
proof -
  define C where "C = \<Union>(cookie_values A cn ` set (header_get_all h ''cookie''))"
  define ok where "ok \<longleftrightarrow> list_all (\<lambda>v. header_to_str A v \<noteq> None) (header_get_all h ''cookie'')"
  have none: "cookie_token A h cn = Inr None \<longleftrightarrow> C = {} \<and> ok"
    and some: "cookie_token A h cn = Inr (Some c) \<longleftrightarrow> C = {c} \<and> c \<noteq> [] \<and> ok" for c
    by (auto simp: cookie_token_iff C_def ok_def)
  have ex: "(\<exists>c. cookie_token A h cn = Inr c \<and> P c) \<longleftrightarrow>
      (C = {} \<and> ok \<and> P None) \<or> (\<exists>c. C = {c} \<and> c \<noteq> [] \<and> ok \<and> P (Some c))" for P
    by (metis none some option.exhaust)
  have "extract_token A h cn = Inr t \<longleftrightarrow>
     length (header_get_all h ''authorization'') \<le> 1 \<and>
     list_all (\<lambda>v. bearer_values A v \<noteq> {}) (header_get_all h ''authorization'') \<and> ok \<and>
     \<Union>(bearer_values A ` set (header_get_all h ''authorization'')) \<union> C = {t} \<and> t \<noteq> []"
  proof (cases "header_get_all h ''authorization''")
    case Nil
    then show ?thesis
      by (simp add: extract_token_def Let_def ex) blast
  next
    case (Cons x xs)
    define r where "r = bindr (ok_or (HttpError_unauthorized (lit ''invalid Authorization header'')) (header_to_str A x)) bearer_token"
    have b: "bearer_values A x = (case r of Inl _ \<Rightarrow> {} | Inr t \<Rightarrow> {t})" and ne: "r = Inr t \<Longrightarrow> t \<noteq> []" for t
      by (auto simp: bearer_values_def r_def dest: bearer_token_nonempty split: option.splits)
    have "extract_token A h cn = Inr t \<longleftrightarrow> xs = [] \<and> r = Inr t \<and> C \<subseteq> {t} \<and> ok"
      using Cons ne by (auto simp: extract_token_def Let_def ex r_def)
    then show ?thesis
      using Cons ne by (cases r) (auto simp: b)
  qed
  then show ?thesis
    by (simp only: C_def ok_def)
qed

text \<open>
  C28. In both modes authentication either fails with status 401 or yields a well-formed
  context: a trimmed subject of 1 to 256 bytes, a non-empty ordered set of lower-case role
  identifiers of at most 80 bytes, and the administrator flag exactly when a role is an
  administrator role of the mode.
\<close>

theorem authenticate_contract:
  "case authenticate_at A config h now of
     Inl e \<Rightarrow> err_status e = 401
   | Inr ctx \<Rightarrow> context_wf ctx \<and>
       (is_tenant_admin ctx \<longleftrightarrow> set (ctx_roles ctx) \<inter> admin_roles_of config \<noteq> {})"
  by (auto simp: is_tenant_admin_def dest: authenticate_error authenticate_Inr_wf split: sum.split)

text \<open>
  C29. A configuration read from the environment is a JWT configuration exactly when a
  non-blank secret is set, and always in production; its verifier then has a secret of 32 to
  4096 bytes, a non-empty set of allowed roles that contains every administrator role, claim
  paths of 1 to 8 segments and a leeway of at most five minutes.
\<close>

theorem AuthConfig_from_env_safe:
  assumes "AuthConfig_from_env env production allow_insecure = Inr c"
  shows "(AuthConfig_is_jwt c \<longleftrightarrow> (\<exists>s. env ''EAL_JWT_HS256_SECRET'' = Some s \<and> trim s \<noteq> [])) \<and>
         (AuthConfig_is_jwt c \<or> \<not> production \<and> allow_insecure \<and> c = AuthConfig_insecure_headers) \<and>
         (case ac_mode c of Jwt v \<Rightarrow> verifier_wf v | InsecureHeaders \<Rightarrow> True)"
proof (cases "\<exists>s. env ''EAL_JWT_HS256_SECRET'' = Some s \<and> trim s \<noteq> []")
  case True
  with assms show ?thesis
    unfolding AuthConfig_from_env_def
    by (auto simp: AuthConfig_is_jwt_def Let_def dest!: AuthConfig_jwt_wf parse_role_set_wf)
next
  case False
  with assms show ?thesis
    unfolding AuthConfig_from_env_def
    by (auto simp: AuthConfig_is_jwt_def AuthConfig_insecure_headers_def split: option.splits if_splits)
qed

definition example_jwt_env :: environment where
  "example_jwt_env name =
     (if name = ''EAL_JWT_HS256_SECRET'' then Some (replicate 40 97)
      else if name = ''EAL_JWT_ISSUER'' then Some (lit '' issuer '')
      else if name = ''EAL_JWT_AUDIENCE'' then Some (lit ''eal'') else None)"

theorem AuthConfig_from_env_safe_witness:
  "(\<exists>c. AuthConfig_from_env example_jwt_env True False = Inr c \<and> AuthConfig_is_jwt c) \<and>
   AuthConfig_from_env (\<lambda>_. None) False True = Inr AuthConfig_insecure_headers"
proof -
  have "is_ok (AuthConfig_from_env example_jwt_env True False)"
    by code_simp
  then obtain c where c: "AuthConfig_from_env example_jwt_env True False = Inr c"
    by (auto simp: is_ok_iff)
  then have "AuthConfig_is_jwt c"
    using AuthConfig_from_env_safe [OF c] by auto
  with c show ?thesis
    by (auto simp: AuthConfig_from_env_def)
qed

end
