(* ===== verification/Database.thy ===== *)
theory Database
  imports Alerts Indexing Json Http_Errors "HOL-Library.Product_Lexorder"
begin

text \<open>
  The durable tables of \<^verbatim>\<open>migrations/002\<close> to \<^verbatim>\<open>007\<close> as lists of rows, with the unique keys, CHECK and
  foreign-key constraints, the row-level-security policies and the triggers that the
  statements of the stores run against. A statement is a function on the database that either
  fails, leaving every table as it was, or yields a result and the new database; a transaction
  keeps the tables of its start when its body fails. Statements and transactions are executed
  one after the other. PostgreSQL and the crates are the parameter \<open>ext\<close>: generated UUIDs, the
  conversion of timestamps, the vector parser and the cosine distance of pgvector, the
  JSON transport of floating-point columns, the display of a float, the UUID printer,
  SHA-256 and its hexadecimal encoding.
\<close>

datatype vector_normalization = NormNone | NormL2 | NormUnitLength

record ext =
  gen_uuid :: "nat \<Rightarrow> uuid"
  timestamptz :: "timestamp \<Rightarrow> timestamp"
  parse_vector :: "rstr \<Rightarrow> f32 list option"
  cosine_distance :: "f32 list \<Rightarrow> f32 list \<Rightarrow> f64 option"
  json_f32 :: "f32 \<Rightarrow> f32 option"
  json_f64 :: "f64 \<Rightarrow> f64 option"
  f32_display :: "f32 \<Rightarrow> rstr"
  uuid_to_string :: "uuid \<Rightarrow> rstr"
  sha256 :: "bytes \<Rightarrow> bytes"
  hex_encode :: "bytes \<Rightarrow> rstr"
  json_of_strings :: "rstr list \<Rightarrow> bytes"

section \<open>Rows\<close>

record page_row =
  pg_id :: uuid
  pg_tenant_id :: uuid
  pg_source_id :: uuid
  pg_canonical_url :: rstr
  pg_first_seen_at :: timestamp
  pg_last_seen_at :: timestamp
  pg_latest_revision_id :: "uuid option"
  pg_created_at :: timestamp
  pg_updated_at :: timestamp

record page_revision_row =
  pr_id :: uuid
  pr_tenant_id :: uuid
  pr_page_id :: uuid
  pr_predecessor_revision_id :: "uuid option"
  pr_original_url :: rstr
  pr_final_url :: rstr
  pr_title :: "rstr option"
  pr_content_text :: rstr
  pr_content_sha256 :: rstr
  pr_content_type :: rstr
  pr_http_status :: int
  pr_published_at :: "timestamp option"
  pr_fetched_at :: timestamp
  pr_created_at :: timestamp

record embedding_row =
  em_id :: uuid
  em_tenant_id :: uuid
  em_revision_id :: uuid
  em_model :: rstr
  em_model_version :: rstr
  em_dimensions :: int
  em_normalization :: rstr
  em_embedding :: "f32 list"
  em_generated_at :: timestamp
  em_created_at :: timestamp

record candidate_row =
  mc_id :: uuid
  mc_tenant_id :: uuid
  mc_alert_rule_id :: uuid
  mc_alert_rule_revision_id :: "uuid option"
  mc_revision_id :: uuid
  mc_embedding_id :: "uuid option"
  mc_match_mode :: rstr
  mc_alert_embedding_id :: "uuid option"
  mc_page_embedding_sha256 :: "rstr option"
  mc_page_embedding_model :: "rstr option"
  mc_page_embedding_model_version :: "rstr option"
  mc_page_embedding_dimensions :: "int option"
  mc_page_embedding_normalization :: "rstr option"
  mc_canonical_match_key :: rstr
  mc_similarity :: f64
  mc_threshold :: f64
  mc_status :: rstr
  mc_score_explanation :: json
  mc_created_at :: timestamp
  mc_updated_at :: timestamp

record rule_row =
  rl_id :: uuid
  rl_tenant_id :: uuid
  rl_owner_subject :: rstr
  rl_active_revision_id :: "uuid option"
  rl_created_at :: timestamp
  rl_updated_at :: timestamp

record rule_revision_row =
  rv_id :: uuid
  rv_tenant_id :: uuid
  rv_alert_rule_id :: uuid
  rv_revision_number :: int
  rv_created_by_subject :: rstr
  rv_name :: rstr
  rv_query_text :: rstr
  rv_embedding_model :: rstr
  rv_similarity_threshold :: f32
  rv_source_filters :: "rstr list"
  rv_delivery_channels :: "rstr list"
  rv_enabled :: bool
  rv_created_at :: timestamp

record alert_embedding_row =
  ae_id :: uuid
  ae_tenant_id :: uuid
  ae_alert_rule_id :: uuid
  ae_alert_rule_revision_id :: uuid
  ae_model :: rstr
  ae_model_version :: rstr
  ae_dimensions :: int
  ae_normalization :: rstr
  ae_embedding :: "f32 list"
  ae_embedding_sha256 :: rstr
  ae_generated_at :: timestamp
  ae_created_at :: timestamp

text \<open>
  The database as one connection sees it: whether its role bypasses row-level security, the
  settings \<^verbatim>\<open>app.tenant_id\<close>, \<^verbatim>\<open>app.subject\<close> and \<^verbatim>\<open>app.is_tenant_admin\<close> of the running transaction, the
  number of UUIDs generated so far, and the tables.
\<close>

record db =
  db_bypass_rls :: bool
  db_settings :: "(uuid \<times> rstr \<times> bool) option"
  db_seed :: nat
  db_sources :: "source_policy list"
  db_pages :: "page_row list"
  db_page_revisions :: "page_revision_row list"
  db_embeddings :: "embedding_row list"
  db_candidates :: "candidate_row list"
  db_rules :: "rule_row list"
  db_rule_revisions :: "rule_revision_row list"
  db_alert_embeddings :: "alert_embedding_row list"

section \<open>Constraints\<close>

definition text_ok :: "rstr \<Rightarrow> bool" where
  "text_ok s \<longleftrightarrow> 0 \<notin> set s"

definition char_length_between :: "nat \<Rightarrow> nat \<Rightarrow> rstr \<Rightarrow> bool" where
  "char_length_between a b s \<longleftrightarrow> a \<le> length s \<and> length s \<le> b"

definition normalization_check :: "rstr \<Rightarrow> bool" where
  "normalization_check s \<longleftrightarrow> s = lit ''none'' \<or> s = lit ''l2'' \<or> s = lit ''unit_length''"

definition sha256_check :: "rstr \<Rightarrow> bool" where
  "sha256_check s \<longleftrightarrow> length s = 64 \<and> list_all (\<lambda>c. 48 \<le> c \<and> c \<le> 57 \<or> 97 \<le> c \<and> c \<le> 102) s"

definition source_check :: "source_policy \<Rightarrow> bool" where
  "source_check r \<longleftrightarrow> char_length_between 1 256 (sp_name r) \<and> text_ok (sp_name r) \<and> text_ok (sp_root_url r) \<and>
     1 \<le> length (sp_allowed_hosts r) \<and> length (sp_allowed_hosts r) \<le> 64 \<and>
     1 \<le> length (sp_allowed_path_prefixes r) \<and> length (sp_allowed_path_prefixes r) \<le> 128 \<and>
     list_all text_ok (sp_allowed_hosts r) \<and> list_all text_ok (sp_allowed_path_prefixes r) \<and>
     1 \<le> length (sp_discovery_modes r) \<and>
     60 \<le> sp_crawl_interval_seconds r \<and> sp_crawl_interval_seconds r \<le> 604800 \<and>
     0 \<le> sp_max_depth r \<and> sp_max_depth r \<le> 16 \<and>
     1 \<le> sp_max_pages_per_run r \<and> sp_max_pages_per_run r \<le> 10000 \<and> sp_obey_robots r"

definition page_check :: "page_row \<Rightarrow> bool" where
  "page_check r \<longleftrightarrow> text_ok (pg_canonical_url r)"

definition page_revision_check :: "page_revision_row \<Rightarrow> bool" where
  "page_revision_check r \<longleftrightarrow> length (pr_content_sha256 r) = 64 \<and>
     200 \<le> pr_http_status r \<and> pr_http_status r \<le> 399 \<and>
     text_ok (pr_original_url r) \<and> text_ok (pr_final_url r) \<and> text_ok (pr_content_text r) \<and>
     text_ok (pr_content_type r) \<and> (case pr_title r of None \<Rightarrow> True | Some t \<Rightarrow> text_ok t)"

definition embedding_check :: "embedding_row \<Rightarrow> bool" where
  "embedding_check r \<longleftrightarrow> 1 \<le> em_dimensions r \<and> em_dimensions r \<le> 65535 \<and>
     normalization_check (em_normalization r) \<and> text_ok (em_model r) \<and> text_ok (em_model_version r)"

definition minus_one64 :: f64 where "minus_one64 = 13830554455654793216"

definition candidate_check :: "candidate_row \<Rightarrow> bool" where
  "candidate_check r \<longleftrightarrow>
     pg_le minus_one64 (mc_similarity r) \<and> pg_le (mc_similarity r) one64 \<and>
     pg_le zero64 (mc_threshold r) \<and> pg_le (mc_threshold r) one64 \<and>
     mc_alert_rule_revision_id r \<noteq> None \<and>
     (mc_match_mode r = lit ''historical_page_search'' \<and> mc_embedding_id r \<noteq> None \<or>
      mc_match_mode r = lit ''reverse_alert_stream'' \<and> mc_alert_embedding_id r \<noteq> None \<and>
      (case mc_page_embedding_sha256 r of None \<Rightarrow> False | Some s \<Rightarrow> sha256_check s) \<and>
      (case mc_page_embedding_model r of None \<Rightarrow> False | Some s \<Rightarrow> char_length_between 1 256 s) \<and>
      (case mc_page_embedding_model_version r of None \<Rightarrow> False | Some s \<Rightarrow> char_length_between 1 256 s) \<and>
      (case mc_page_embedding_dimensions r of None \<Rightarrow> False | Some d \<Rightarrow> 1 \<le> d \<and> d \<le> 65535) \<and>
      (case mc_page_embedding_normalization r of None \<Rightarrow> False | Some s \<Rightarrow> normalization_check s))"

definition rule_check :: "rule_row \<Rightarrow> bool" where
  "rule_check r \<longleftrightarrow> char_length_between 1 256 (rl_owner_subject r) \<and> text_ok (rl_owner_subject r)"

definition rule_revision_check :: "rule_revision_row \<Rightarrow> bool" where
  "rule_revision_check r \<longleftrightarrow> rv_revision_number r > 0 \<and>
     char_length_between 1 256 (rv_created_by_subject r) \<and> char_length_between 1 256 (rv_name r) \<and>
     char_length_between 3 700 (rv_query_text r) \<and> char_length_between 1 160 (rv_embedding_model r) \<and>
     le32 zero32 (rv_similarity_threshold r) \<and> le32 (rv_similarity_threshold r) one32 \<and>
     length (rv_source_filters r) \<le> 128 \<and> length (rv_delivery_channels r) \<le> 32 \<and>
     text_ok (rv_created_by_subject r) \<and> text_ok (rv_name r) \<and> text_ok (rv_query_text r) \<and>
     text_ok (rv_embedding_model r) \<and> list_all text_ok (rv_source_filters r) \<and>
     list_all text_ok (rv_delivery_channels r)"

definition alert_embedding_check :: "alert_embedding_row \<Rightarrow> bool" where
  "alert_embedding_check r \<longleftrightarrow> char_length_between 1 256 (ae_model r) \<and>
     char_length_between 1 256 (ae_model_version r) \<and>
     1 \<le> ae_dimensions r \<and> ae_dimensions r \<le> 65535 \<and> normalization_check (ae_normalization r) \<and>
     sha256_check (ae_embedding_sha256 r) \<and> text_ok (ae_model r) \<and> text_ok (ae_model_version r)"

section \<open>Unique keys\<close>

definition source_key :: "source_policy \<Rightarrow> uuid \<times> rstr" where
  "source_key r = (sp_tenant_id r, sp_root_url r)"

definition page_key :: "page_row \<Rightarrow> uuid \<times> uuid \<times> rstr" where
  "page_key r = (pg_tenant_id r, pg_source_id r, pg_canonical_url r)"

definition page_revision_key :: "page_revision_row \<Rightarrow> uuid \<times> uuid \<times> rstr" where
  "page_revision_key r = (pr_tenant_id r, pr_page_id r, pr_content_sha256 r)"

definition embedding_key :: "embedding_row \<Rightarrow> uuid \<times> uuid \<times> rstr \<times> rstr \<times> int \<times> rstr" where
  "embedding_key r = (em_tenant_id r, em_revision_id r, em_model r, em_model_version r,
     em_dimensions r, em_normalization r)"

definition candidate_key :: "candidate_row \<Rightarrow> uuid \<times> rstr" where
  "candidate_key r = (mc_tenant_id r, mc_canonical_match_key r)"

definition rule_key :: "rule_row \<Rightarrow> uuid \<times> uuid" where
  "rule_key r = (rl_tenant_id r, rl_id r)"

definition rule_revision_key :: "rule_revision_row \<Rightarrow> uuid \<times> uuid \<times> int" where
  "rule_revision_key r = (rv_tenant_id r, rv_alert_rule_id r, rv_revision_number r)"

definition alert_embedding_key ::
  "alert_embedding_row \<Rightarrow> uuid \<times> uuid \<times> rstr \<times> rstr \<times> int \<times> rstr" where
  "alert_embedding_key r = (ae_tenant_id r, ae_alert_rule_revision_id r, ae_model r,
     ae_model_version r, ae_dimensions r, ae_normalization r)"

text \<open>
  \<^verbatim>\<open>INSERT ... ON CONFLICT (key) DO NOTHING\<close>: the row is checked first, a conflict on the key
  inserts nothing, a duplicate primary key is an error. The flag says whether the row was
  inserted.
\<close>

definition insert_on_conflict ::
  "('r \<Rightarrow> bool) \<Rightarrow> ('r \<Rightarrow> 'k) \<Rightarrow> ('r \<Rightarrow> uuid) \<Rightarrow> 'r \<Rightarrow> 'r list \<Rightarrow> ('r list \<times> bool) option" where
  "insert_on_conflict check key pk r t =
     (if \<not> check r then None
      else if key r \<in> set (map key t) then Some (t, False)
      else if pk r \<in> set (map pk t) then None
      else Some (t @ [r], True))"

text \<open>A plain \<^verbatim>\<open>INSERT\<close>: a conflict is an error.\<close>

definition insert_strict ::
  "('r \<Rightarrow> bool) \<Rightarrow> ('r \<Rightarrow> 'k) \<Rightarrow> ('r \<Rightarrow> uuid) \<Rightarrow> 'r \<Rightarrow> 'r list \<Rightarrow> 'r list option" where
  "insert_strict check key pk r t =
     (case insert_on_conflict check key pk r t of
        Some (t', True) \<Rightarrow> Some t' | _ \<Rightarrow> None)"

section \<open>Statements and transactions\<close>

type_synonym 'a stmt = "db \<Rightarrow> (http_error + 'a) \<times> db"

definition db_error :: http_error where
  "db_error = HttpError_internal (lit ''database error'')"

definition ret :: "'a \<Rightarrow> 'a stmt" where
  "ret x db = (Inr x, db)"

definition fail :: "http_error \<Rightarrow> 'a stmt" where
  "fail e db = (Inl e, db)"

definition seq :: "'a stmt \<Rightarrow> ('a \<Rightarrow> 'b stmt) \<Rightarrow> 'b stmt" where
  "seq m k db = (case m db of (Inl e, db') \<Rightarrow> (Inl e, db') | (Inr x, db') \<Rightarrow> k x db')"

definition of_result :: "http_error + 'a \<Rightarrow> 'a stmt" where
  "of_result r db = (r, db)"

definition statement :: "(db \<Rightarrow> ('a \<times> db) option) \<Rightarrow> 'a stmt" where
  "statement f db = (case f db of None \<Rightarrow> (Inl db_error, db) | Some (x, db') \<Rightarrow> (Inr x, db'))"

definition query :: "(db \<Rightarrow> 'a) \<Rightarrow> 'a stmt" where
  "query f db = (Inr (f db), db)"

definition rollback :: "db \<Rightarrow> db \<Rightarrow> db" where
  "rollback db db' = db\<lparr>db_seed := db_seed db'\<rparr>"

definition transaction :: "'a stmt \<Rightarrow> 'a stmt" where
  "transaction m db =
     (case m (db\<lparr>db_settings := None\<rparr>) of
        (Inl e, db') \<Rightarrow> (Inl e, rollback db db')
      | (Inr x, db') \<Rightarrow> (Inr x, db'\<lparr>db_settings := db_settings db\<rparr>))"

primrec map_stmt :: "('a \<Rightarrow> 'b stmt) \<Rightarrow> 'a list \<Rightarrow> 'b list stmt" where
  "map_stmt f [] = ret []"
| "map_stmt f (x # xs) = seq (f x) (\<lambda>y. seq (map_stmt f xs) (\<lambda>ys. ret (y # ys)))"

definition new_uuid :: "ext \<Rightarrow> uuid stmt" where
  "new_uuid E db = (Inr (gen_uuid E (db_seed db)), db\<lparr>db_seed := Suc (db_seed db)\<rparr>)"

section \<open>Row-level security\<close>

definition rule_visible :: "db \<Rightarrow> rule_row \<Rightarrow> bool" where
  "rule_visible db r \<longleftrightarrow> db_bypass_rls db \<or>
     (case db_settings db of
        None \<Rightarrow> False
      | Some (tenant, subject, admin) \<Rightarrow>
          rl_tenant_id r = tenant \<and> (subject \<noteq> [] \<and> rl_owner_subject r = subject \<or> admin))"

definition rules_view :: "db \<Rightarrow> rule_row list" where
  "rules_view db = filter (rule_visible db) (db_rules db)"

definition rule_revision_visible :: "db \<Rightarrow> rule_revision_row \<Rightarrow> bool" where
  "rule_revision_visible db v \<longleftrightarrow> db_bypass_rls db \<or>
     (case db_settings db of
        None \<Rightarrow> False
      | Some (tenant, subject, admin) \<Rightarrow> rv_tenant_id v = tenant \<and>
          list_ex (\<lambda>r. rl_tenant_id r = rv_tenant_id v \<and> rl_id r = rv_alert_rule_id v) (rules_view db))"

definition rule_revisions_view :: "db \<Rightarrow> rule_revision_row list" where
  "rule_revisions_view db = filter (rule_revision_visible db) (db_rule_revisions db)"

definition alert_embedding_visible :: "db \<Rightarrow> alert_embedding_row \<Rightarrow> bool" where
  "alert_embedding_visible db e \<longleftrightarrow> db_bypass_rls db \<or>
     (case db_settings db of
        None \<Rightarrow> False
      | Some (tenant, subject, admin) \<Rightarrow> ae_tenant_id e = tenant \<and>
          list_ex (\<lambda>r. rl_tenant_id r = ae_tenant_id e \<and> rl_id r = ae_alert_rule_id e \<and>
              (subject \<noteq> [] \<and> rl_owner_subject r = subject \<or> admin)) (rules_view db))"

definition alert_embeddings_view :: "db \<Rightarrow> alert_embedding_row list" where
  "alert_embeddings_view db = filter (alert_embedding_visible db) (db_alert_embeddings db)"

definition set_request_context :: "uuid \<Rightarrow> rstr \<Rightarrow> bool \<Rightarrow> unit stmt" where
  "set_request_context tenant_id subject tenant_admin =
     statement (\<lambda>db. if text_ok subject
       then Some ((), db\<lparr>db_settings := Some (tenant_id, subject, tenant_admin)\<rparr>) else None)"

section \<open>The active-alert limit\<close>

definition is_active_revision :: "rule_row \<Rightarrow> rule_revision_row \<Rightarrow> bool" where
  "is_active_revision r v \<longleftrightarrow> rv_tenant_id v = rl_tenant_id r \<and>
     Some (rv_id v) = rl_active_revision_id r \<and> rv_alert_rule_id v = rl_id r"

definition active_count :: "rule_row list \<Rightarrow> rule_revision_row list \<Rightarrow> rule_row \<Rightarrow> nat" where
  "active_count rules revisions new =
     length (filter (\<lambda>(r, v). is_active_revision r v \<and> rl_tenant_id r = rl_tenant_id new \<and>
       rl_owner_subject r = rl_owner_subject new \<and> rl_id r \<noteq> rl_id new \<and> rv_enabled v)
       (List.product rules revisions))"

definition enforce_active_alert_limit :: "db \<Rightarrow> rule_row \<Rightarrow> bool" where
  "enforce_active_alert_limit db new =
     (if rl_active_revision_id new = None then True
      else case find (is_active_revision new) (rule_revisions_view db) of
        None \<Rightarrow> True
      | Some v \<Rightarrow>
          if \<not> rv_enabled v then True
          else \<not> active_count (rules_view db) (rule_revisions_view db) new \<ge> 10)"

section \<open>The interface of a table with a conflict key\<close>

definition table_ok :: "('r \<Rightarrow> bool) \<Rightarrow> ('r \<Rightarrow> 'k) \<Rightarrow> ('r \<Rightarrow> uuid) \<Rightarrow> 'r list \<Rightarrow> bool" where
  "table_ok check key pk t \<longleftrightarrow> distinct (map key t) \<and> distinct (map pk t) \<and> list_all check t"

text \<open>
  What a statement relies on when it inserts with \<^verbatim>\<open>ON CONFLICT DO NOTHING\<close>: success says whether
  the row is new, and nothing else changes. The client lemmas say that the constraints of the
  table are kept, that rows are never lost, and that repeating an insertion finds the row.
\<close>

locale upsert_table =
  fixes ins :: "'r \<Rightarrow> 'r list \<Rightarrow> ('r list \<times> bool) option"
    and check :: "'r \<Rightarrow> bool"
    and key :: "'r \<Rightarrow> 'k"
    and pk :: "'r \<Rightarrow> uuid"
  assumes ins_new: "ins r t = Some (t', True) \<longleftrightarrow>
      check r \<and> key r \<notin> key ` set t \<and> pk r \<notin> pk ` set t \<and> t' = t @ [r]"
    and ins_conflict: "ins r t = Some (t', False) \<longleftrightarrow> check r \<and> key r \<in> key ` set t \<and> t' = t"
begin

lemma ins_cases:
  assumes "ins r t = Some (t', b)"
  obtains "b" "check r" "key r \<notin> key ` set t" "pk r \<notin> pk ` set t" "t' = t @ [r]"
  | "\<not> b" "check r" "key r \<in> key ` set t" "t' = t"
  using assms ins_new ins_conflict by (cases b) auto

lemma ins_ok: "ins r t = Some (t', b) \<Longrightarrow> table_ok check key pk t \<Longrightarrow> table_ok check key pk t'"
  by (erule ins_cases) (auto simp: table_ok_def)

lemma ins_prefix: "ins r t = Some (t', b) \<Longrightarrow> take (length t) t' = t"
  by (erule ins_cases) auto

lemma ins_key_present: "ins r t = Some (t', b) \<Longrightarrow> key r \<in> key ` set t'"
  by (erule ins_cases) auto

lemma ins_again:
  assumes "ins r t = Some (t', b)" and "check r'" and "key r' = key r"
  shows "ins r' t' = Some (t', False)"
  using ins_key_present [OF assms(1)] assms(2,3) by (simp add: ins_conflict)

lemma key_unique:
  "table_ok check key pk t \<Longrightarrow> x \<in> set t \<Longrightarrow> y \<in> set t \<Longrightarrow> key x = key y \<Longrightarrow> x = y"
  by (auto simp: table_ok_def distinct_map dest: inj_onD)

lemma pk_unique:
  "table_ok check key pk t \<Longrightarrow> x \<in> set t \<Longrightarrow> y \<in> set t \<Longrightarrow> pk x = pk y \<Longrightarrow> x = y"
  by (auto simp: table_ok_def distinct_map dest: inj_onD)

lemma find_key:
  assumes "table_ok check key pk t" and "x \<in> set t" and "key x = k"
  shows "find (\<lambda>y. key y = k) t = Some x"
proof (cases "find (\<lambda>y. key y = k) t")
  case None
  then show ?thesis
    using assms(2,3) by (auto simp: find_None_iff)
next
  case (Some y)
  then have "y \<in> set t" and "key y = key x"
    using assms(3) by (auto dest: find_SomeD)
  then show ?thesis
    using key_unique [OF assms(1) _ assms(2)] Some by simp
qed

lemma filter_key:
  assumes "table_ok check key pk t" and "x \<in> set t" and "P x" and "\<And>y. P y \<Longrightarrow> key y = key x"
  shows "filter P t = [x]"
proof (rule filter_unique)
  show "distinct t"
    using assms(1) by (simp add: table_ok_def distinct_map)
  show "y = x" if "y \<in> set t" and "P y" for y
    using key_unique [OF assms(1) that(1) assms(2)] assms(4) [OF that(2)] .
qed (fact assms(2,3))+

end

lemma insert_on_conflict_laws: "upsert_table (insert_on_conflict check key pk) check key pk"
  by unfold_locales (auto simp: insert_on_conflict_def)

interpretation sources: upsert_table "insert_on_conflict source_check source_key sp_id"
  source_check source_key sp_id
  by (rule insert_on_conflict_laws)

interpretation pages: upsert_table "insert_on_conflict page_check page_key pg_id"
  page_check page_key pg_id
  by (rule insert_on_conflict_laws)

interpretation page_revisions:
  upsert_table "insert_on_conflict page_revision_check page_revision_key pr_id"
    page_revision_check page_revision_key pr_id
  by (rule insert_on_conflict_laws)

interpretation embeddings: upsert_table "insert_on_conflict embedding_check embedding_key em_id"
  embedding_check embedding_key em_id
  by (rule insert_on_conflict_laws)

interpretation candidates: upsert_table "insert_on_conflict candidate_check candidate_key mc_id"
  candidate_check candidate_key mc_id
  by (rule insert_on_conflict_laws)

interpretation rules: upsert_table "insert_on_conflict rule_check rule_key rl_id"
  rule_check rule_key rl_id
  by (rule insert_on_conflict_laws)

interpretation rule_revisions:
  upsert_table "insert_on_conflict rule_revision_check rule_revision_key rv_id"
    rule_revision_check rule_revision_key rv_id
  by (rule insert_on_conflict_laws)

interpretation alert_embeddings:
  upsert_table "insert_on_conflict alert_embedding_check alert_embedding_key ae_id"
    alert_embedding_check alert_embedding_key ae_id
  by (rule insert_on_conflict_laws)

lemma insert_strict_Some:
  "insert_strict check key pk r t = Some t' \<longleftrightarrow> insert_on_conflict check key pk r t = Some (t', True)"
  by (auto simp: insert_strict_def split: option.splits prod.splits bool.splits)

section \<open>Facts about statements\<close>

lemma seq_simps [db_simps]:
  "m db = (Inl e, db') \<Longrightarrow> seq m k db = (Inl e, db')"
  "m db = (Inr x, db') \<Longrightarrow> seq m k db = k x db'"
  by (simp_all add: seq_def)

lemma seq_Inr:
  "seq m k db = (Inr y, db'') \<longleftrightarrow> (\<exists>x db'. m db = (Inr x, db') \<and> k x db' = (Inr y, db''))"
  by (auto simp: seq_def split: prod.splits sum.splits)

lemma statement_Inr: "statement f db = (Inr x, db') \<longleftrightarrow> f db = Some (x, db')"
  by (auto simp: statement_def split: option.splits)

lemma query_eq: "query f db = (r, db') \<longleftrightarrow> r = Inr (f db) \<and> db' = db"
  by (auto simp: query_def)

lemma ret_eq: "ret x db = (r, db') \<longleftrightarrow> r = Inr x \<and> db' = db"
  by (auto simp: ret_def)

lemma fail_Inr [simp]: "fail e db \<noteq> (Inr x, db')"
  by (simp add: fail_def)

lemma of_result_eq: "of_result r db = (r', db') \<longleftrightarrow> r' = r \<and> db' = db"
  by (auto simp: of_result_def)

lemma transaction_Inr:
  "transaction m db = (Inr x, db') \<longleftrightarrow>
     (\<exists>d. m (db\<lparr>db_settings := None\<rparr>) = (Inr x, d) \<and> db' = d\<lparr>db_settings := db_settings db\<rparr>)"
  by (auto simp: transaction_def split: prod.splits sum.splits)

text \<open>
  A relation between the database before and after that every statement establishes is
  established by every program built from statements: sequences, loops and transactions.
\<close>

locale stmt_relation =
  fixes R :: "db \<Rightarrow> db \<Rightarrow> bool"
  assumes R_refl: "R db db"
    and R_trans: "R a b \<Longrightarrow> R b c \<Longrightarrow> R a c"
    and R_seed: "R db (db\<lparr>db_seed := n\<rparr>)"
    and R_settings: "R db (db\<lparr>db_settings := ctx\<rparr>)"
begin

lemma R_ret: "R db (snd (ret x db))"
  by (simp add: ret_def R_refl)

lemma R_fail: "R db (snd (fail e db))"
  by (simp add: fail_def R_refl)

lemma R_of_result: "R db (snd (of_result r db))"
  by (simp add: of_result_def R_refl)

lemma R_query: "R db (snd (query f db))"
  by (simp add: query_def R_refl)

lemma R_new_uuid: "R db (snd (new_uuid E db))"
  by (simp add: new_uuid_def R_seed)

lemma R_set_request_context: "R db (snd (set_request_context t s a db))"
  by (simp add: set_request_context_def statement_def R_refl R_settings)

lemma R_statement: "(\<And>x db'. f db = Some (x, db') \<Longrightarrow> R db db') \<Longrightarrow> R db (snd (statement f db))"
  by (auto simp: statement_def R_refl split: option.splits)

lemma R_seq:
  assumes "R db (snd (m db))" and "\<And>x db'. m db = (Inr x, db') \<Longrightarrow> R db' (snd (k x db'))"
  shows "R db (snd (seq m k db))"
  using assms by (auto simp: seq_def intro: R_trans split: prod.splits sum.splits)

lemma R_map_stmt: "(\<And>x db. R db (snd (f x db))) \<Longrightarrow> R db (snd (map_stmt f xs db))"
  by (induction xs arbitrary: db) (auto intro!: R_seq R_ret)

lemma R_transaction:
  assumes "\<And>db. R db (snd (m db))"
  shows "R db (snd (transaction m db))"
proof (cases "m (db\<lparr>db_settings := None\<rparr>)")
  case (Pair r db')
  have "R db (db\<lparr>db_settings := None\<rparr>)"
    by (rule R_settings)
  moreover have "R (db\<lparr>db_settings := None\<rparr>) db'"
    using assms [of "db\<lparr>db_settings := None\<rparr>"] Pair by simp
  ultimately have "R db db'"
    by (rule R_trans)
  then have "R db (db'\<lparr>db_settings := db_settings db\<rparr>)"
    by (rule R_trans) (rule R_settings)
  then show ?thesis
    using Pair by (cases r) (simp_all add: transaction_def rollback_def R_seed)
qed

lemmas R_intros = R_ret R_fail R_of_result R_query R_new_uuid R_set_request_context R_statement
  R_seq R_map_stmt R_transaction

end

end
