(* ===== verification/Integrity.thy ===== *)
theory Integrity
  imports Database
begin

text \<open>
  Integrity of the durable tables: the constraints of the schema as one invariant \<open>db_wf\<close>, the
  append-only order on the evidence tables, and the frame of a tenant. Each is a relation
  between the database before and after that is closed under sequences, loops and
  transactions (the interface \<open>stmt_relation\<close>), so a store operation is checked statement by
  statement.
\<close>

section \<open>The constraints as an invariant\<close>

definition has_rule :: "db \<Rightarrow> uuid \<Rightarrow> uuid \<Rightarrow> bool" where
  "has_rule db tenant i \<longleftrightarrow> list_ex (\<lambda>r. rl_tenant_id r = tenant \<and> rl_id r = i) (db_rules db)"

definition has_rule_revision :: "db \<Rightarrow> uuid \<Rightarrow> uuid \<Rightarrow> bool" where
  "has_rule_revision db tenant i \<longleftrightarrow>
     list_ex (\<lambda>r. rv_tenant_id r = tenant \<and> rv_id r = i) (db_rule_revisions db)"

definition has_alert_embedding :: "db \<Rightarrow> uuid \<Rightarrow> uuid \<Rightarrow> bool" where
  "has_alert_embedding db tenant i \<longleftrightarrow>
     list_ex (\<lambda>r. ae_tenant_id r = tenant \<and> ae_id r = i) (db_alert_embeddings db)"

definition has_source :: "db \<Rightarrow> uuid \<Rightarrow> bool" where
  "has_source db i \<longleftrightarrow> list_ex (\<lambda>r. sp_id r = i) (db_sources db)"

definition has_page :: "db \<Rightarrow> uuid \<Rightarrow> bool" where
  "has_page db i \<longleftrightarrow> list_ex (\<lambda>r. pg_id r = i) (db_pages db)"

definition has_page_revision :: "db \<Rightarrow> uuid \<Rightarrow> bool" where
  "has_page_revision db i \<longleftrightarrow> list_ex (\<lambda>r. pr_id r = i) (db_page_revisions db)"

definition has_embedding :: "db \<Rightarrow> uuid \<Rightarrow> bool" where
  "has_embedding db i \<longleftrightarrow> list_ex (\<lambda>r. em_id r = i) (db_embeddings db)"

definition null_or :: "('a \<Rightarrow> bool) \<Rightarrow> 'a option \<Rightarrow> bool" where
  "null_or P v = (case v of None \<Rightarrow> True | Some x \<Rightarrow> P x)"

text \<open>Foreign keys, one predicate per referencing row.\<close>

definition rule_fk :: "db \<Rightarrow> rule_row \<Rightarrow> bool" where
  "rule_fk db r \<longleftrightarrow> null_or (has_rule_revision db (rl_tenant_id r)) (rl_active_revision_id r)"

definition rule_revision_fk :: "db \<Rightarrow> rule_revision_row \<Rightarrow> bool" where
  "rule_revision_fk db r \<longleftrightarrow> has_rule db (rv_tenant_id r) (rv_alert_rule_id r)"

definition alert_embedding_fk :: "db \<Rightarrow> alert_embedding_row \<Rightarrow> bool" where
  "alert_embedding_fk db r \<longleftrightarrow> has_rule db (ae_tenant_id r) (ae_alert_rule_id r) \<and>
     has_rule_revision db (ae_tenant_id r) (ae_alert_rule_revision_id r)"

definition page_fk :: "db \<Rightarrow> page_row \<Rightarrow> bool" where
  "page_fk db r \<longleftrightarrow> has_source db (pg_source_id r) \<and>
     null_or (has_page_revision db) (pg_latest_revision_id r)"

definition page_revision_fk :: "db \<Rightarrow> page_revision_row \<Rightarrow> bool" where
  "page_revision_fk db r \<longleftrightarrow> has_page db (pr_page_id r) \<and>
     null_or (has_page_revision db) (pr_predecessor_revision_id r)"

definition embedding_fk :: "db \<Rightarrow> embedding_row \<Rightarrow> bool" where
  "embedding_fk db r \<longleftrightarrow> has_page_revision db (em_revision_id r)"

definition candidate_fk :: "db \<Rightarrow> candidate_row \<Rightarrow> bool" where
  "candidate_fk db r \<longleftrightarrow> has_rule db (mc_tenant_id r) (mc_alert_rule_id r) \<and>
     null_or (has_rule_revision db (mc_tenant_id r)) (mc_alert_rule_revision_id r) \<and>
     has_page_revision db (mc_revision_id r) \<and> null_or (has_embedding db) (mc_embedding_id r) \<and>
     null_or (has_alert_embedding db (mc_tenant_id r)) (mc_alert_embedding_id r)"

text \<open>The enabled active rules of an owner, and the product limit on their number.\<close>

definition is_enabled_active :: "db \<Rightarrow> rule_row \<Rightarrow> bool" where
  "is_enabled_active db r \<longleftrightarrow> list_ex (\<lambda>v. is_active_revision r v \<and> rv_enabled v) (db_rule_revisions db)"

definition enabled_active :: "db \<Rightarrow> uuid \<Rightarrow> rstr \<Rightarrow> rule_row list" where
  "enabled_active db tenant owner =
     filter (\<lambda>r. rl_tenant_id r = tenant \<and> rl_owner_subject r = owner \<and> is_enabled_active db r)
       (db_rules db)"

definition within_limit :: "db \<Rightarrow> bool" where
  "within_limit db \<longleftrightarrow> (\<forall>tenant owner. length (enabled_active db tenant owner) \<le> 10)"

definition tables_ok :: "db \<Rightarrow> bool" where
  "tables_ok db \<longleftrightarrow>
     table_ok source_check source_key sp_id (db_sources db) \<and>
     table_ok page_check page_key pg_id (db_pages db) \<and>
     table_ok page_revision_check page_revision_key pr_id (db_page_revisions db) \<and>
     table_ok embedding_check embedding_key em_id (db_embeddings db) \<and>
     table_ok candidate_check candidate_key mc_id (db_candidates db) \<and>
     table_ok rule_check rule_key rl_id (db_rules db) \<and>
     table_ok rule_revision_check rule_revision_key rv_id (db_rule_revisions db) \<and>
     table_ok alert_embedding_check alert_embedding_key ae_id (db_alert_embeddings db)"

definition references_ok :: "db \<Rightarrow> bool" where
  "references_ok db \<longleftrightarrow>
     list_all (rule_fk db) (db_rules db) \<and> list_all (rule_revision_fk db) (db_rule_revisions db) \<and>
     list_all (alert_embedding_fk db) (db_alert_embeddings db) \<and> list_all (page_fk db) (db_pages db) \<and>
     list_all (page_revision_fk db) (db_page_revisions db) \<and>
     list_all (embedding_fk db) (db_embeddings db) \<and> list_all (candidate_fk db) (db_candidates db)"

definition db_wf :: "db \<Rightarrow> bool" where
  "db_wf db \<longleftrightarrow> tables_ok db \<and> references_ok db \<and> within_limit db"

definition empty_db :: "bool \<Rightarrow> db" where
  "empty_db bypass = \<lparr>db_bypass_rls = bypass, db_settings = None, db_seed = 0, db_sources = [],
     db_pages = [], db_page_revisions = [], db_embeddings = [], db_candidates = [], db_rules = [],
     db_rule_revisions = [], db_alert_embeddings = []\<rparr>"

lemma db_wf_empty: "db_wf (empty_db b)"
  by (simp add: db_wf_def tables_ok_def table_ok_def references_ok_def within_limit_def
      enabled_active_def empty_db_def)

section \<open>Append-only tables\<close>

definition appended :: "'r list \<Rightarrow> 'r list \<Rightarrow> bool" where
  "appended t t' \<longleftrightarrow> take (length t) t' = t"

lemma appended_iff: "appended t t' \<longleftrightarrow> (\<exists>xs. t' = t @ xs)"
  unfolding appended_def by (metis append_eq_conv_conj append_take_drop_id)

lemma appended_refl [simp]: "appended t t"
  by (simp add: appended_iff)

lemma appended_snoc [simp]: "appended t (t @ xs)"
  by (simp add: appended_iff)

lemma appended_trans: "appended a b \<Longrightarrow> appended b c \<Longrightarrow> appended a c"
  by (auto simp: appended_iff)

lemma appended_set: "appended t t' \<Longrightarrow> set t \<subseteq> set t'"
  by (auto simp: appended_iff)

text \<open>
  What no operation takes back: sources, page revisions, page embeddings, match candidates, rule
  revisions and alert embeddings are only appended to, and a page or rule keeps its identity.
\<close>

definition page_identity :: "page_row \<Rightarrow> uuid \<times> uuid \<times> uuid \<times> rstr \<times> timestamp \<times> timestamp" where
  "page_identity p = (pg_id p, pg_tenant_id p, pg_source_id p, pg_canonical_url p,
     pg_first_seen_at p, pg_created_at p)"

definition rule_identity :: "rule_row \<Rightarrow> uuid \<times> uuid \<times> rstr \<times> timestamp" where
  "rule_identity r = (rl_id r, rl_tenant_id r, rl_owner_subject r, rl_created_at r)"

definition evidence_kept :: "db \<Rightarrow> db \<Rightarrow> bool" where
  "evidence_kept db db' \<longleftrightarrow>
     db_bypass_rls db' = db_bypass_rls db \<and>
     appended (db_sources db) (db_sources db') \<and>
     appended (map page_identity (db_pages db)) (map page_identity (db_pages db')) \<and>
     appended (db_page_revisions db) (db_page_revisions db') \<and>
     appended (db_embeddings db) (db_embeddings db') \<and>
     appended (db_candidates db) (db_candidates db') \<and>
     appended (map rule_identity (db_rules db)) (map rule_identity (db_rules db')) \<and>
     appended (db_rule_revisions db) (db_rule_revisions db') \<and>
     appended (db_alert_embeddings db) (db_alert_embeddings db')"

interpretation evidence: stmt_relation evidence_kept
  by unfold_locales (auto simp: evidence_kept_def intro: appended_trans)

section \<open>Preservation of the invariant\<close>

definition wf_kept :: "db \<Rightarrow> db \<Rightarrow> bool" where
  "wf_kept db db' \<longleftrightarrow> (db_wf db \<longrightarrow> db_wf db')"

lemmas fk_defs = has_rule_def has_rule_revision_def has_alert_embedding_def has_source_def has_page_def
  has_page_revision_def has_embedding_def rule_fk_def rule_revision_fk_def alert_embedding_fk_def
  page_fk_def page_revision_fk_def embedding_fk_def candidate_fk_def

lemmas wf_defs = db_wf_def tables_ok_def references_ok_def within_limit_def enabled_active_def
  is_enabled_active_def

lemma db_wf_settings [simp]:
  "db_wf (db\<lparr>db_seed := n\<rparr>) = db_wf db" "db_wf (db\<lparr>db_settings := ctx\<rparr>) = db_wf db"
  by (simp_all add: wf_defs fk_defs [abs_def])

interpretation wf: stmt_relation wf_kept
  by unfold_locales (auto simp: wf_kept_def)

section \<open>The frame of a tenant\<close>

text \<open>The rows of every other tenant are as before.\<close>

definition foreign :: "('r \<Rightarrow> uuid) \<Rightarrow> uuid \<Rightarrow> 'r list \<Rightarrow> 'r list" where
  "foreign tenant_of tenant t = filter (\<lambda>r. tenant_of r \<noteq> tenant) t"

definition tenant_frame :: "uuid \<Rightarrow> db \<Rightarrow> db \<Rightarrow> bool" where
  "tenant_frame tenant db db' \<longleftrightarrow>
     foreign sp_tenant_id tenant (db_sources db') = foreign sp_tenant_id tenant (db_sources db) \<and>
     foreign pg_tenant_id tenant (db_pages db') = foreign pg_tenant_id tenant (db_pages db) \<and>
     foreign pr_tenant_id tenant (db_page_revisions db') = foreign pr_tenant_id tenant (db_page_revisions db) \<and>
     foreign em_tenant_id tenant (db_embeddings db') = foreign em_tenant_id tenant (db_embeddings db) \<and>
     foreign mc_tenant_id tenant (db_candidates db') = foreign mc_tenant_id tenant (db_candidates db) \<and>
     foreign rl_tenant_id tenant (db_rules db') = foreign rl_tenant_id tenant (db_rules db) \<and>
     foreign rv_tenant_id tenant (db_rule_revisions db') = foreign rv_tenant_id tenant (db_rule_revisions db) \<and>
     foreign ae_tenant_id tenant (db_alert_embeddings db') = foreign ae_tenant_id tenant (db_alert_embeddings db)"

interpretation frame: stmt_relation "tenant_frame tenant" for tenant
  by unfold_locales (simp_all add: tenant_frame_def)

lemma foreign_snoc [simp]: "tenant_of r = tenant \<Longrightarrow> foreign tenant_of tenant (t @ [r]) = foreign tenant_of tenant t"
  by (simp add: foreign_def)

lemma foreign_map:
  assumes "\<And>r. tenant_of r \<noteq> tenant \<Longrightarrow> f r = r" and "\<And>r. tenant_of (f r) = tenant_of r"
  shows "foreign tenant_of tenant (map f t) = foreign tenant_of tenant t"
  using assms by (induction t) (auto simp: foreign_def)

section \<open>How single statements keep the invariant\<close>

lemma table_ok_map:
  assumes "\<And>r. key (f r) = key r" and "\<And>r. pk (f r) = pk r" and "\<And>r. check (f r) = check r"
    and "table_ok check key pk t"
  shows "table_ok check key pk (map f t)"
  using assms by (simp add: table_ok_def comp_def list_all_iff)

text \<open>References only gain targets.\<close>

definition ids_kept :: "db \<Rightarrow> db \<Rightarrow> bool" where
  "ids_kept db db' \<longleftrightarrow>
     (\<forall>t i. has_rule db t i \<longrightarrow> has_rule db' t i) \<and>
     (\<forall>t i. has_rule_revision db t i \<longrightarrow> has_rule_revision db' t i) \<and>
     (\<forall>t i. has_alert_embedding db t i \<longrightarrow> has_alert_embedding db' t i) \<and>
     (\<forall>i. has_source db i \<longrightarrow> has_source db' i) \<and> (\<forall>i. has_page db i \<longrightarrow> has_page db' i) \<and>
     (\<forall>i. has_page_revision db i \<longrightarrow> has_page_revision db' i) \<and>
     (\<forall>i. has_embedding db i \<longrightarrow> has_embedding db' i)"

lemma null_or_mono: "null_or P x \<Longrightarrow> (\<And>y. P y \<Longrightarrow> Q y) \<Longrightarrow> null_or Q x"
  by (auto simp: null_or_def split: option.splits)

lemma fk_mono:
  assumes "ids_kept db db'"
  shows "rule_fk db r \<Longrightarrow> rule_fk db' r"
    and "rule_revision_fk db v \<Longrightarrow> rule_revision_fk db' v"
    and "alert_embedding_fk db e \<Longrightarrow> alert_embedding_fk db' e"
    and "page_fk db p \<Longrightarrow> page_fk db' p"
    and "page_revision_fk db w \<Longrightarrow> page_revision_fk db' w"
    and "embedding_fk db m \<Longrightarrow> embedding_fk db' m"
    and "candidate_fk db c \<Longrightarrow> candidate_fk db' c"
  using assms unfolding ids_kept_def rule_fk_def rule_revision_fk_def alert_embedding_fk_def page_fk_def
    page_revision_fk_def embedding_fk_def candidate_fk_def
  by (auto elim!: null_or_mono)

lemma fk_all_mono:
  assumes "ids_kept db db'"
  shows "list_all (rule_fk db) rs \<Longrightarrow> list_all (rule_fk db') rs"
    and "list_all (rule_revision_fk db) vs \<Longrightarrow> list_all (rule_revision_fk db') vs"
    and "list_all (alert_embedding_fk db) es \<Longrightarrow> list_all (alert_embedding_fk db') es"
    and "list_all (page_fk db) ps \<Longrightarrow> list_all (page_fk db') ps"
    and "list_all (page_revision_fk db) ws \<Longrightarrow> list_all (page_revision_fk db') ws"
    and "list_all (embedding_fk db) ms \<Longrightarrow> list_all (embedding_fk db') ms"
    and "list_all (candidate_fk db) cs \<Longrightarrow> list_all (candidate_fk db') cs"
  using fk_mono [OF assms] by (auto elim: list.pred_mono_strong)

lemma ids_kept_append:
  "ids_kept db (db\<lparr>db_rules := db_rules db @ rs\<rparr>)"
  "ids_kept db (db\<lparr>db_rule_revisions := db_rule_revisions db @ vs\<rparr>)"
  "ids_kept db (db\<lparr>db_alert_embeddings := db_alert_embeddings db @ es\<rparr>)"
  "ids_kept db (db\<lparr>db_sources := db_sources db @ ss\<rparr>)"
  "ids_kept db (db\<lparr>db_pages := db_pages db @ ps\<rparr>)"
  "ids_kept db (db\<lparr>db_page_revisions := db_page_revisions db @ ws\<rparr>)"
  "ids_kept db (db\<lparr>db_embeddings := db_embeddings db @ ms\<rparr>)"
  "ids_kept db (db\<lparr>db_candidates := cs\<rparr>)"
  by (auto simp: ids_kept_def fk_defs)

text \<open>
  Inserting one row into a table whose rows the limit does not mention keeps the invariant when
  the row's own references exist.
\<close>

lemma db_wf_insert:
  assumes "db_wf db"
  shows "insert_on_conflict source_check source_key sp_id s (db_sources db) = Some (ss, b) \<Longrightarrow>
      db_wf (db\<lparr>db_sources := ss\<rparr>)"
    and "insert_on_conflict alert_embedding_check alert_embedding_key ae_id e (db_alert_embeddings db)
        = Some (es, b) \<Longrightarrow> alert_embedding_fk db e \<Longrightarrow> db_wf (db\<lparr>db_alert_embeddings := es\<rparr>)"
    and "insert_on_conflict page_check page_key pg_id p (db_pages db) = Some (ps, b) \<Longrightarrow>
      page_fk db p \<Longrightarrow> db_wf (db\<lparr>db_pages := ps\<rparr>)"
    and "insert_on_conflict page_revision_check page_revision_key pr_id w (db_page_revisions db)
        = Some (ws, b) \<Longrightarrow> page_revision_fk db w \<Longrightarrow> db_wf (db\<lparr>db_page_revisions := ws\<rparr>)"
    and "insert_on_conflict embedding_check embedding_key em_id m (db_embeddings db) = Some (ms, b) \<Longrightarrow>
      embedding_fk db m \<Longrightarrow> db_wf (db\<lparr>db_embeddings := ms\<rparr>)"
    and "insert_on_conflict candidate_check candidate_key mc_id c (db_candidates db) = Some (cs, b) \<Longrightarrow>
      candidate_fk db c \<Longrightarrow> db_wf (db\<lparr>db_candidates := cs\<rparr>)"
proof -
  note wf = assms [unfolded db_wf_def tables_ok_def references_ok_def within_limit_def
      enabled_active_def is_enabled_active_def]
  note goal = db_wf_def tables_ok_def references_ok_def within_limit_def enabled_active_def
    is_enabled_active_def
  show "db_wf (db\<lparr>db_sources := ss\<rparr>)"
    if "insert_on_conflict source_check source_key sp_id s (db_sources db) = Some (ss, b)"
    using that wf sources.ins_ok [OF that]
    by (cases rule: sources.ins_cases [OF that])
      (auto simp: goal intro: fk_all_mono [OF ids_kept_append(4) [of db "[s]"]])
  show "db_wf (db\<lparr>db_alert_embeddings := es\<rparr>)"
    if "insert_on_conflict alert_embedding_check alert_embedding_key ae_id e (db_alert_embeddings db)
        = Some (es, b)" and "alert_embedding_fk db e"
    using that(2) wf alert_embeddings.ins_ok [OF that(1)]
    by (cases rule: alert_embeddings.ins_cases [OF that(1)])
      (auto simp: goal intro: fk_all_mono [OF ids_kept_append(3) [of db "[e]"]]
        fk_mono(3) [OF ids_kept_append(3) [of db "[e]"]])
  show "db_wf (db\<lparr>db_pages := ps\<rparr>)"
    if "insert_on_conflict page_check page_key pg_id p (db_pages db) = Some (ps, b)" and "page_fk db p"
    using that(2) wf pages.ins_ok [OF that(1)]
    by (cases rule: pages.ins_cases [OF that(1)])
      (auto simp: goal intro: fk_all_mono [OF ids_kept_append(5) [of db "[p]"]]
        fk_mono(4) [OF ids_kept_append(5) [of db "[p]"]])
  show "db_wf (db\<lparr>db_page_revisions := ws\<rparr>)"
    if "insert_on_conflict page_revision_check page_revision_key pr_id w (db_page_revisions db)
        = Some (ws, b)" and "page_revision_fk db w"
    using that(2) wf page_revisions.ins_ok [OF that(1)]
    by (cases rule: page_revisions.ins_cases [OF that(1)])
      (auto simp: goal intro: fk_all_mono [OF ids_kept_append(6) [of db "[w]"]]
        fk_mono(5) [OF ids_kept_append(6) [of db "[w]"]])
  show "db_wf (db\<lparr>db_embeddings := ms\<rparr>)"
    if "insert_on_conflict embedding_check embedding_key em_id m (db_embeddings db) = Some (ms, b)"
      and "embedding_fk db m"
    using that(2) wf embeddings.ins_ok [OF that(1)]
    by (cases rule: embeddings.ins_cases [OF that(1)])
      (auto simp: goal intro: fk_all_mono [OF ids_kept_append(7) [of db "[m]"]]
        fk_mono(6) [OF ids_kept_append(7) [of db "[m]"]])
  show "db_wf (db\<lparr>db_candidates := cs\<rparr>)"
    if "insert_on_conflict candidate_check candidate_key mc_id c (db_candidates db) = Some (cs, b)"
      and "candidate_fk db c"
    using that(2) wf candidates.ins_ok [OF that(1)]
    by (cases rule: candidates.ins_cases [OF that(1)])
      (auto simp: goal intro: fk_all_mono [OF ids_kept_append(8) [of db "db_candidates db @ [c]"]]
        fk_mono(7) [OF ids_kept_append(8) [of db "db_candidates db @ [c]"]])
qed

end
