(* ===== verification/Alert_Store.thy ===== *)
theory Alert_Store
  imports Integrity
begin

text \<open>
  The store of alert rules (\<^verbatim>\<open>src/alert_store.rs\<close>): each operation is a transaction that first sets
  the request context the row-level-security policies read. A row returned as JSON is decoded
  by \<open>decode_alert_rule\<close>; the only column whose transport can fail is the floating-point
  threshold.
\<close>

section \<open>Statements\<close>

definition joined_rules :: "db \<Rightarrow> (rule_row \<times> rule_revision_row) list" where
  "joined_rules db =
     filter (\<lambda>(rule, revision). Some (rv_id revision) = rl_active_revision_id rule \<and>
         rv_tenant_id revision = rl_tenant_id rule)
       (List.product (rules_view db) (rule_revisions_view db))"

definition alert_rule_json :: "ext \<Rightarrow> rule_row \<times> rule_revision_row \<Rightarrow> alert_rule option" where
  "alert_rule_json E = (\<lambda>(rule, revision).
     map_option (\<lambda>threshold.
       \<lparr>ar_id = rl_id rule, ar_tenant_id = rl_tenant_id rule, ar_owner_subject = rl_owner_subject rule,
        ar_revision_id = rv_id revision, ar_revision_number = rv_revision_number revision,
        ar_created_at = rl_created_at rule, ar_updated_at = rl_updated_at rule,
        ar_revision_created_at = rv_created_at revision, ar_name = rv_name revision,
        ar_query_text = rv_query_text revision, ar_embedding_model = rv_embedding_model revision,
        ar_similarity_threshold = threshold, ar_source_filters = rv_source_filters revision,
        ar_delivery_channels = rv_delivery_channels revision, ar_enabled = rv_enabled revision\<rparr>)
       (json_f32 E (rv_similarity_threshold revision)))"

definition decode_json_row :: "'a option \<Rightarrow> http_error + 'a" where
  "decode_json_row row = ok_or db_error row"

definition decode_row :: "('r \<Rightarrow> 'a option) \<Rightarrow> 'r list \<Rightarrow> http_error + 'a option" where
  "decode_row f rows =
     (case rows of [] \<Rightarrow> Inr None | row # _ \<Rightarrow> bindr (decode_json_row (f row)) (\<lambda>x. Inr (Some x)))"

definition insert_rule :: "timestamp \<Rightarrow> uuid \<Rightarrow> uuid \<Rightarrow> rstr \<Rightarrow> nat stmt" where
  "insert_rule now rule_id tenant_id subject =
     statement (\<lambda>db.
       let r = \<lparr>rl_id = rule_id, rl_tenant_id = tenant_id, rl_owner_subject = subject,
                rl_active_revision_id = None, rl_created_at = now, rl_updated_at = now\<rparr> in
       if \<not> enforce_active_alert_limit db r \<or> \<not> rule_visible db r then None
       else map_option (\<lambda>t. (1, db\<lparr>db_rules := t\<rparr>))
         (insert_strict rule_check rule_key rl_id r (db_rules db)))"

definition insert_rule_revision ::
  "timestamp \<Rightarrow> uuid \<Rightarrow> uuid \<Rightarrow> uuid \<Rightarrow> rstr \<Rightarrow> create_alert_rule_input \<Rightarrow> nat stmt" where
  "insert_rule_revision now revision_id tenant_id rule_id subject input =
     statement (\<lambda>db.
       let v = \<lparr>rv_id = revision_id, rv_tenant_id = tenant_id, rv_alert_rule_id = rule_id,
                rv_revision_number = 1, rv_created_by_subject = subject, rv_name = ca_name input,
                rv_query_text = ca_query_text input, rv_embedding_model = ca_embedding_model input,
                rv_similarity_threshold = ca_similarity_threshold input,
                rv_source_filters = ca_source_filters input,
                rv_delivery_channels = ca_delivery_channels input,
                rv_enabled = ca_enabled input, rv_created_at = now\<rparr> in
       if \<not> rule_revision_visible db v \<or> \<not> rule_revision_fk db v then None
       else map_option (\<lambda>t. (1, db\<lparr>db_rule_revisions := t\<rparr>))
         (insert_strict rule_revision_check rule_revision_key rv_id v (db_rule_revisions db)))"

text \<open>The activation: the limit trigger runs for every updated row before the update.\<close>

definition activate_revision :: "uuid \<Rightarrow> timestamp \<Rightarrow> rule_row \<Rightarrow> rule_row" where
  "activate_revision revision_id now r =
     r\<lparr>rl_active_revision_id := Some revision_id, rl_updated_at := now\<rparr>"

definition activate_rule :: "timestamp \<Rightarrow> uuid \<Rightarrow> uuid \<Rightarrow> uuid \<Rightarrow> nat stmt" where
  "activate_rule now rule_id tenant_id revision_id =
     statement (\<lambda>db.
       let target = (\<lambda>r. rule_visible db r \<and> rl_id r = rule_id \<and> rl_tenant_id r = tenant_id);
           rows = filter target (db_rules db) in
       if list_ex (\<lambda>r. \<not> enforce_active_alert_limit db (activate_revision revision_id now r) \<or>
            \<not> rule_fk db (activate_revision revision_id now r)) rows
       then None
       else Some (length rows, db\<lparr>db_rules :=
          map (\<lambda>r. if target r then activate_revision revision_id now r else r) (db_rules db)\<rparr>))"

definition require_one :: "string \<Rightarrow> nat \<Rightarrow> unit stmt" where
  "require_one what rows_affected =
     (if rows_affected \<noteq> 1
      then fail (HttpError_internal (lit what @ lit '' did not affect exactly one row''))
      else ret ())"

section \<open>Operations\<close>

definition list_alert_rules :: "ext \<Rightarrow> uuid \<Rightarrow> rstr \<Rightarrow> bool \<Rightarrow> alert_rule list stmt" where
  "list_alert_rules E tenant_id subject tenant_admin =
     seq (transaction
       (seq (set_request_context tenant_id subject tenant_admin) (\<lambda>_.
        query (\<lambda>db.
          take 500 (sort_key (\<lambda>(rule, revision). (- rl_updated_at rule, rl_id rule))
            (filter (\<lambda>(rule, revision). rl_tenant_id rule = tenant_id \<and>
                (tenant_admin \<or> rl_owner_subject rule = subject)) (joined_rules db))))))
     ) (\<lambda>rows. of_result (traverse (\<lambda>row. decode_json_row (alert_rule_json E row)) rows))"

definition get_alert_rule :: "ext \<Rightarrow> uuid \<Rightarrow> uuid \<Rightarrow> rstr \<Rightarrow> bool \<Rightarrow> alert_rule option stmt" where
  "get_alert_rule E tenant_id rule_id subject tenant_admin =
     seq (transaction
       (seq (set_request_context tenant_id subject tenant_admin) (\<lambda>_.
        query (\<lambda>db.
          filter (\<lambda>(rule, revision). rl_tenant_id rule = tenant_id \<and> rl_id rule = rule_id \<and>
              (tenant_admin \<or> rl_owner_subject rule = subject)) (joined_rules db))))
     ) (\<lambda>rows. of_result (decode_row (alert_rule_json E) rows))"

definition create_alert_rule ::
  "ext \<Rightarrow> timestamp \<Rightarrow> uuid \<Rightarrow> rstr \<Rightarrow> create_alert_rule_input \<Rightarrow> alert_rule stmt" where
  "create_alert_rule E now tenant_id subject input =
     seq (new_uuid E) (\<lambda>rule_id.
     seq (new_uuid E) (\<lambda>revision_id.
     seq (transaction
       (seq (set_request_context tenant_id subject False) (\<lambda>_.
        seq (insert_rule now rule_id tenant_id subject) (\<lambda>inserted_rule.
        seq (require_one ''alert-rule identity insert'' inserted_rule) (\<lambda>_.
        seq (insert_rule_revision now revision_id tenant_id rule_id subject input) (\<lambda>inserted_revision.
        seq (require_one ''alert-rule revision insert'' inserted_revision) (\<lambda>_.
        seq (activate_rule now rule_id tenant_id revision_id) (\<lambda>activated_rule.
        seq (require_one ''alert-rule activation'' activated_rule) (\<lambda>_.
        seq (query (\<lambda>db. filter (\<lambda>(rule, revision). rl_id rule = rule_id \<and> rl_tenant_id rule = tenant_id)
               (joined_rules db))) (\<lambda>rows.
        seq (of_result (decode_row (alert_rule_json E) rows)) (\<lambda>row.
        ret (ok_or (HttpError_internal (lit ''alert-rule creation returned no durable record''))
               row)))))))))))
     ) of_result))"

definition require_alert_rule :: "ext \<Rightarrow> uuid \<Rightarrow> uuid \<Rightarrow> rstr \<Rightarrow> bool \<Rightarrow> alert_rule stmt" where
  "require_alert_rule E tenant_id rule_id subject tenant_admin =
     seq (get_alert_rule E tenant_id rule_id subject tenant_admin) (\<lambda>rule.
       of_result (ok_or (HttpError_not_found (lit ''alert rule was not found'')) rule))"

section \<open>The statements keep the invariant\<close>

lemma insert_rule_wf: "wf_kept db (snd (insert_rule now i tenant subject db))"
  unfolding insert_rule_def
proof (rule wf.R_statement)
  fix x db'
  let ?r = "\<lparr>rl_id = i, rl_tenant_id = tenant, rl_owner_subject = subject,
    rl_active_revision_id = None, rl_created_at = now, rl_updated_at = now\<rparr>"
  assume "(let r = ?r in
      if \<not> enforce_active_alert_limit db r \<or> \<not> rule_visible db r then None
      else map_option (\<lambda>t. (1, db\<lparr>db_rules := t\<rparr>)) (insert_strict rule_check rule_key rl_id r (db_rules db)))
    = Some (x, db')"
  then have ins: "insert_on_conflict rule_check rule_key rl_id ?r (db_rules db) = Some (db_rules db', True)"
    and db': "db' = db\<lparr>db_rules := db_rules db @ [?r]\<rparr>"
    by (auto simp: Let_def insert_strict_Some rules.ins_new split: if_splits)
  show "wf_kept db db'"
    unfolding wf_kept_def
  proof
    assume wf: "db_wf db"
    note mono = ids_kept_append(1) [of db "[?r]", folded db']
    have "within_limit db'"
      using wf by (simp add: db' db_wf_def within_limit_def enabled_active_def is_enabled_active_def
          is_active_revision_def list_ex_iff)
    moreover have "rule_fk db' ?r"
      by (simp add: rule_fk_def null_or_def)
    ultimately show "db_wf db'"
      using wf rules.ins_ok [OF ins] fk_all_mono [OF mono]
      by (auto simp: db_wf_def tables_ok_def references_ok_def db')
  qed
qed

lemma insert_rule_revision_wf:
  "wf_kept db (snd (insert_rule_revision now i tenant rule_id subject input db))"
  unfolding insert_rule_revision_def Let_def
proof (rule wf.R_statement)
  fix x db'
  let ?v = "\<lparr>rv_id = i, rv_tenant_id = tenant, rv_alert_rule_id = rule_id, rv_revision_number = 1,
    rv_created_by_subject = subject, rv_name = ca_name input, rv_query_text = ca_query_text input,
    rv_embedding_model = ca_embedding_model input, rv_similarity_threshold = ca_similarity_threshold input,
    rv_source_filters = ca_source_filters input, rv_delivery_channels = ca_delivery_channels input,
    rv_enabled = ca_enabled input, rv_created_at = now\<rparr>"
  assume "(if \<not> rule_revision_visible db ?v \<or> \<not> rule_revision_fk db ?v then None
     else map_option (\<lambda>t. (1, db\<lparr>db_rule_revisions := t\<rparr>))
       (insert_strict rule_revision_check rule_revision_key rv_id ?v (db_rule_revisions db))) = Some (x, db')"
  then have ins: "insert_on_conflict rule_revision_check rule_revision_key rv_id ?v (db_rule_revisions db)
      = Some (db_rule_revisions db', True)" and fk: "rule_revision_fk db ?v"
    and db': "db' = db\<lparr>db_rule_revisions := db_rule_revisions db @ [?v]\<rparr>"
    and new: "i \<notin> rv_id ` set (db_rule_revisions db)"
    by (auto simp: insert_strict_Some rule_revisions.ins_new split: if_splits)
  show "wf_kept db db'"
    unfolding wf_kept_def
  proof
    assume wf: "db_wf db"
    note mono = ids_kept_append(2) [of db "[?v]", folded db']
    have "\<not> is_active_revision r ?v" if "r \<in> set (db_rules db)" for r
    proof
      assume act: "is_active_revision r ?v"
      have "rule_fk db r"
        using that wf by (simp add: db_wf_def references_ok_def list_all_iff)
      with act have "has_rule_revision db (rl_tenant_id r) i"
        by (simp add: rule_fk_def is_active_revision_def null_or_def split: option.splits)
      with new show False
        by (auto simp: has_rule_revision_def list_ex_iff)
    qed
    then have "filter (\<lambda>r. rl_tenant_id r = t \<and> rl_owner_subject r = o' \<and> is_enabled_active db' r) (db_rules db)
        = enabled_active db t o'" for t o'
      by (auto simp: enabled_active_def is_enabled_active_def db' cong: filter_cong)
    then have "within_limit db'"
      using wf by (simp add: db_wf_def within_limit_def) (simp add: enabled_active_def db')
    then show "db_wf db'"
      using wf rule_revisions.ins_ok [OF ins] fk_all_mono [OF mono] fk_mono(2) [OF mono fk]
      by (auto simp: db_wf_def tables_ok_def references_ok_def db')
  qed
qed

section \<open>The limit trigger counts every enabled active rule of the owner\<close>

lemma length_filter_product:
  assumes "\<And>r. r \<in> set rs \<Longrightarrow> length (filter (P r) vs) \<le> 1"
  shows "length (filter (\<lambda>(r, v). P r v) (List.product rs vs)) = length (filter (\<lambda>r. \<exists>v \<in> set vs. P r v) rs)"
  using assms
proof (induction rs)
  case (Cons r rs)
  have "length (filter (\<lambda>(r, v). P r v) (map (Pair r) vs)) = length (filter (P r) vs)"
    by (simp add: filter_map o_def)
  moreover have "length (filter (P r) vs) = (if \<exists>v \<in> set vs. P r v then 1 else 0)"
    using Cons.prems [of r] by (auto simp: filter_empty_conv le_Suc_eq)
  ultimately show ?case
    using Cons by simp
qed simp

lemma same_owner_visible:
  "rule_visible db r \<Longrightarrow> rl_tenant_id s = rl_tenant_id r \<Longrightarrow> rl_owner_subject s = rl_owner_subject r \<Longrightarrow>
   rule_visible db s"
  by (auto simp: rule_visible_def split: option.splits)

lemma active_revision_visible:
  assumes "rule_visible db r" and "r \<in> set (db_rules db)"
    and "rv_tenant_id v = rl_tenant_id r" and "rv_alert_rule_id v = rl_id r"
  shows "rule_revision_visible db v"
  using assms by (auto simp: rule_revision_visible_def rules_view_def list_ex_iff rule_visible_def
      split: option.splits)

lemma active_count_eq:
  assumes "db_wf db" and "rule_visible db r" and "r \<in> set (db_rules db)"
    and "rl_tenant_id new = rl_tenant_id r" and "rl_owner_subject new = rl_owner_subject r"
    and "rl_id new = rl_id r"
  shows "active_count (rules_view db) (rule_revisions_view db) new =
    length (filter (\<lambda>s. rl_id s \<noteq> rl_id r) (enabled_active db (rl_tenant_id r) (rl_owner_subject r)))"
proof -
  let ?P = "\<lambda>s v. is_active_revision s v \<and> rl_tenant_id s = rl_tenant_id new \<and>
    rl_owner_subject s = rl_owner_subject new \<and> rl_id s \<noteq> rl_id new \<and> rv_enabled v"
  have *: "filter (\<lambda>s. rl_id s \<noteq> rl_id r) (enabled_active db (rl_tenant_id r) (rl_owner_subject r))
      = filter (\<lambda>s. \<exists>v \<in> set (rule_revisions_view db). ?P s v) (rules_view db)"
    unfolding enabled_active_def rules_view_def filter_filter
  proof (rule filter_cong)
    fix s assume s: "s \<in> set (db_rules db)"
    show "((rl_tenant_id s = rl_tenant_id r \<and> rl_owner_subject s = rl_owner_subject r \<and>
        is_enabled_active db s) \<and> rl_id s \<noteq> rl_id r) =
      (rule_visible db s \<and> (\<exists>v \<in> set (rule_revisions_view db). ?P s v))"
      using s assms same_owner_visible [OF assms(2), of s] active_revision_visible [of db s]
      by (auto simp: is_enabled_active_def list_ex_iff rule_revisions_view_def is_active_revision_def)
  qed simp
  have "length (filter (?P s) (rule_revisions_view db)) \<le> 1" for s
  proof -
    have "inj_on rv_id (set (db_rule_revisions db))" and "distinct (db_rule_revisions db)"
      using assms(1) by (auto simp: db_wf_def tables_ok_def table_ok_def distinct_map)
    moreover have "rv_id ` set (filter (?P s) (rule_revisions_view db)) \<subseteq> set_option (rl_active_revision_id s)"
      by (auto simp: is_active_revision_def dest: sym)
    ultimately have "card (set (filter (?P s) (rule_revisions_view db))) \<le> card (set_option (rl_active_revision_id s))"
      by (intro card_inj_on_le [of rv_id]) (auto simp: rule_revisions_view_def inj_on_def)
    moreover have "distinct (filter (?P s) (rule_revisions_view db))"
      using \<open>distinct (db_rule_revisions db)\<close> by (simp add: rule_revisions_view_def)
    then have "length (filter (?P s) (rule_revisions_view db)) = card (set (filter (?P s) (rule_revisions_view db)))"
      by (simp only: distinct_card)
    moreover have "card (set_option (rl_active_revision_id s)) \<le> 1"
      by (cases "rl_active_revision_id s") simp_all
    ultimately show ?thesis
      by linarith
  qed
  then show ?thesis
    unfolding * active_count_def by (rule length_filter_product)
qed

lemma length_filter_but_one:
  "distinct xs \<Longrightarrow> length (filter P xs) \<le> Suc (length (filter (\<lambda>x. P x \<and> x \<noteq> a) xs))"
proof (induction xs)
  case (Cons x xs)
  show ?case
  proof (cases "x = a")
    case True
    with Cons.prems have "filter (\<lambda>x. P x \<and> x \<noteq> a) xs = filter P xs"
      by (auto intro!: filter_cong)
    with True show ?thesis by simp
  next
    case False
    with Cons show ?thesis by auto
  qed
qed simp

lemma enforce_limit_enabled:
  assumes "db_wf db" and "rule_visible db r" and "r \<in> set (db_rules db)"
    and "enforce_active_alert_limit db (activate_revision rid now r)"
    and "is_enabled_active db (activate_revision rid now r)"
  shows "length (filter (\<lambda>s. rl_id s \<noteq> rl_id r) (enabled_active db (rl_tenant_id r) (rl_owner_subject r))) < 10"
proof -
  let ?new = "activate_revision rid now r"
  have new: "rl_tenant_id ?new = rl_tenant_id r" "rl_owner_subject ?new = rl_owner_subject r"
    "rl_id ?new = rl_id r" "rl_active_revision_id ?new = Some rid"
    by (simp_all add: activate_revision_def)
  from assms(5) obtain v where v: "v \<in> set (db_rule_revisions db)" "is_active_revision ?new v" "rv_enabled v"
    by (auto simp: is_enabled_active_def list_ex_iff)
  have vis: "v \<in> set (rule_revisions_view db)"
    using active_revision_visible [OF assms(2,3), of v] v(1,2)
    by (simp add: rule_revisions_view_def is_active_revision_def new)
  then obtain w where w: "find (is_active_revision ?new) (rule_revisions_view db) = Some w"
    using v(2) by (cases "find (is_active_revision ?new) (rule_revisions_view db)") (auto simp: find_None_iff)
  then have "w \<in> set (db_rule_revisions db)" "is_active_revision ?new w"
    using find_SomeD [OF w] by (auto simp: rule_revisions_view_def)
  then have "w = v"
    using v(1,2) assms(1) rule_revisions.pk_unique [of "db_rule_revisions db" w v]
    by (auto simp: db_wf_def tables_ok_def is_active_revision_def new)
  then have "active_count (rules_view db) (rule_revisions_view db) ?new < 10"
    using assms(4) w v(3) by (simp add: enforce_active_alert_limit_def new)
  then show ?thesis
    using active_count_eq [OF assms(1-3) new(1-3)] by simp
qed

lemma activation_within_limit:
  assumes wf: "db_wf db"
    and lim: "\<And>r. r \<in> set (db_rules db) \<Longrightarrow> rule_visible db r \<and> rl_id r = i \<and> rl_tenant_id r = tenant \<Longrightarrow>
      enforce_active_alert_limit db (activate_revision rid now r)"
  shows "length (filter (\<lambda>r. rl_tenant_id r = t \<and> rl_owner_subject r = o' \<and>
      is_enabled_active db (if rule_visible db r \<and> rl_id r = i \<and> rl_tenant_id r = tenant
        then activate_revision rid now r else r)) (db_rules db)) \<le> 10" (is "length (filter ?Q _) \<le> 10")
proof (cases "\<exists>r \<in> set (db_rules db). rule_visible db r \<and> rl_id r = i \<and> rl_tenant_id r = tenant")
  case False
  then have "filter ?Q (db_rules db) = enabled_active db t o'"
    by (auto simp: enabled_active_def intro!: filter_cong)
  then show ?thesis
    using wf by (simp add: db_wf_def within_limit_def)
next
  case True
  then obtain r where r: "r \<in> set (db_rules db)" "rule_visible db r" "rl_id r = i" "rl_tenant_id r = tenant"
    by blast
  have uniq: "s = r" if "s \<in> set (db_rules db)" "rl_id s = i" for s
    using that r wf rules.pk_unique [of "db_rules db" s r] by (auto simp: db_wf_def tables_ok_def)
  have dist: "distinct (db_rules db)"
    using wf by (simp add: db_wf_def tables_ok_def table_ok_def distinct_map)
  have others: "filter (\<lambda>s. ?Q s \<and> s \<noteq> r) (db_rules db) = filter (\<lambda>s. rl_id s \<noteq> rl_id r) (enabled_active db t o')"
    using uniq r(3) by (auto simp: enabled_active_def intro!: filter_cong)
  show ?thesis
  proof (cases "?Q r")
    case True
    then have "is_enabled_active db (activate_revision rid now r)" and "t = rl_tenant_id r" "o' = rl_owner_subject r"
      using r by auto
    then have "length (filter (\<lambda>s. ?Q s \<and> s \<noteq> r) (db_rules db)) < 10"
      unfolding others using enforce_limit_enabled [OF wf r(2,1)] lim [OF r(1)] r by blast
    then show ?thesis
      using length_filter_but_one [OF dist, of ?Q r] by linarith
  next
    case False
    then have "filter ?Q (db_rules db) = filter (\<lambda>s. ?Q s \<and> s \<noteq> r) (db_rules db)"
      by (intro filter_cong) auto
    also have "length \<dots> \<le> length (enabled_active db t o')"
      unfolding others by simp
    also have "\<dots> \<le> 10"
      using wf by (simp add: db_wf_def within_limit_def)
    finally show ?thesis .
  qed
qed

lemma activate_rule_wf: "wf_kept db (snd (activate_rule now i tenant rid db))"
  unfolding activate_rule_def Let_def
proof (rule wf.R_statement)
  fix x db'
  let ?target = "\<lambda>r. rule_visible db r \<and> rl_id r = i \<and> rl_tenant_id r = tenant"
  let ?act = "activate_revision rid now"
  let ?f = "\<lambda>r. if ?target r then ?act r else r"
  assume "(if list_ex (\<lambda>r. \<not> enforce_active_alert_limit db (?act r) \<or> \<not> rule_fk db (?act r))
        (filter ?target (db_rules db)) then None
      else Some (length (filter ?target (db_rules db)), db\<lparr>db_rules := map ?f (db_rules db)\<rparr>)) = Some (x, db')"
  then have lim: "enforce_active_alert_limit db (?act r)" and fk: "rule_fk db (?act r)"
    if "r \<in> set (db_rules db)" "?target r" for r
    using that by (auto simp: list_ex_iff split: if_splits)
  have db': "db' = db\<lparr>db_rules := map ?f (db_rules db)\<rparr>"
    using \<open>_ = Some (x, db')\<close> by (auto split: if_splits)
  show "wf_kept db db'"
    unfolding wf_kept_def
  proof
    assume wf: "db_wf db"
    have ids: "rule_key (?f r) = rule_key r" "rl_id (?f r) = rl_id r" "rule_check (?f r) = rule_check r"
      "rl_tenant_id (?f r) = rl_tenant_id r" "rl_owner_subject (?f r) = rl_owner_subject r" for r
      by (simp_all add: activate_revision_def rule_key_def rule_check_def)
    have mono: "ids_kept db db'"
      using ids by (auto simp: ids_kept_def fk_defs db' list_ex_iff simp del: if_image_distrib)
    have "table_ok rule_check rule_key rl_id (db_rules db')"
      using wf table_ok_map [of rule_key ?f rl_id rule_check "db_rules db"] ids
      by (simp add: db_wf_def tables_ok_def db')
    moreover have "list_all (rule_fk db') (db_rules db')"
      using wf fk fk_mono(1) [OF mono]
      by (auto simp: db_wf_def references_ok_def list_all_iff db')
    moreover have "within_limit db'"
      unfolding within_limit_def
    proof (intro allI)
      fix t o'
      have "length (enabled_active db' t o') =
          length (filter (\<lambda>r. rl_tenant_id r = t \<and> rl_owner_subject r = o' \<and> is_enabled_active db (?f r)) (db_rules db))"
        by (simp add: enabled_active_def is_enabled_active_def db' filter_map comp_def ids)
      also have "\<dots> \<le> 10"
        using activation_within_limit [OF wf, of i tenant rid now t o'] lim by simp
      finally show "length (enabled_active db' t o') \<le> 10" .
    qed
    ultimately show "db_wf db'"
      using wf fk_all_mono [OF mono] by (auto simp: db_wf_def tables_ok_def references_ok_def db')
  qed
qed

section \<open>Creation, statement by statement\<close>

definition new_rule :: "timestamp \<Rightarrow> uuid \<Rightarrow> uuid \<Rightarrow> rstr \<Rightarrow> rule_row" where
  "new_rule now i tenant subject =
     \<lparr>rl_id = i, rl_tenant_id = tenant, rl_owner_subject = subject, rl_active_revision_id = None,
      rl_created_at = now, rl_updated_at = now\<rparr>"

definition new_revision ::
  "timestamp \<Rightarrow> uuid \<Rightarrow> uuid \<Rightarrow> uuid \<Rightarrow> rstr \<Rightarrow> create_alert_rule_input \<Rightarrow> rule_revision_row" where
  "new_revision now j tenant i subject input =
     \<lparr>rv_id = j, rv_tenant_id = tenant, rv_alert_rule_id = i, rv_revision_number = 1,
      rv_created_by_subject = subject, rv_name = ca_name input, rv_query_text = ca_query_text input,
      rv_embedding_model = ca_embedding_model input,
      rv_similarity_threshold = ca_similarity_threshold input,
      rv_source_filters = ca_source_filters input, rv_delivery_channels = ca_delivery_channels input,
      rv_enabled = ca_enabled input, rv_created_at = now\<rparr>"

lemma new_rule_fields [simp]:
  "rl_id (new_rule now i t s) = i" "rl_tenant_id (new_rule now i t s) = t"
  "rl_owner_subject (new_rule now i t s) = s" "rl_active_revision_id (new_rule now i t s) = None"
  by (simp_all add: new_rule_def)

lemma new_revision_fields [simp]:
  "rv_id (new_revision now j t i s inp) = j" "rv_tenant_id (new_revision now j t i s inp) = t"
  "rv_alert_rule_id (new_revision now j t i s inp) = i"
  "rv_enabled (new_revision now j t i s inp) = ca_enabled inp"
  "rv_similarity_threshold (new_revision now j t i s inp) = ca_similarity_threshold inp"
  by (simp_all add: new_revision_def)

lemma activate_fields [simp]:
  "rl_id (activate_revision j now r) = rl_id r" "rl_tenant_id (activate_revision j now r) = rl_tenant_id r"
  "rl_owner_subject (activate_revision j now r) = rl_owner_subject r"
  "rl_active_revision_id (activate_revision j now r) = Some j"
  by (simp_all add: activate_revision_def)

lemma insert_strict_if:
  "insert_strict check key pk r t =
     (if check r \<and> key r \<notin> key ` set t \<and> pk r \<notin> pk ` set t then Some (t @ [r]) else None)"
  by (auto simp: insert_strict_def insert_on_conflict_def)

lemma insert_rule_run:
  assumes "db_settings db = Some (t, s, False)"
  shows "insert_rule now i t s db =
    (if rule_check (new_rule now i t s) \<and> i \<notin> rl_id ` set (db_rules db)
     then (Inr 1, db\<lparr>db_rules := db_rules db @ [new_rule now i t s]\<rparr>) else (Inl db_error, db))"
proof -
  have "rule_check (new_rule now i t s) \<Longrightarrow> rule_visible db (new_rule now i t s)"
    using assms by (auto simp: rule_visible_def rule_check_def char_length_between_def)
  moreover have "i \<notin> rl_id ` set (db_rules db) \<Longrightarrow> rule_key (new_rule now i t s) \<notin> rule_key ` set (db_rules db)"
    by (auto simp: rule_key_def)
  ultimately show ?thesis
    unfolding insert_rule_def new_rule_def [symmetric] Let_def
    by (auto simp: statement_def insert_strict_if enforce_active_alert_limit_def)
qed

lemma insert_rule_revision_run:
  assumes "db_settings db = Some (t, s, False)" and "s \<noteq> []" and "new_rule now i t s \<in> set (db_rules db)"
    and "i \<notin> rv_alert_rule_id ` set (db_rule_revisions db)"
  shows "insert_rule_revision now j t i s inp db =
    (if rule_revision_check (new_revision now j t i s inp) \<and> j \<notin> rv_id ` set (db_rule_revisions db)
     then (Inr 1, db\<lparr>db_rule_revisions := db_rule_revisions db @ [new_revision now j t i s inp]\<rparr>)
     else (Inl db_error, db))"
proof -
  let ?v = "new_revision now j t i s inp"
  have "rule_visible db (new_rule now i t s)"
    using assms(1,2) by (simp add: rule_visible_def)
  then have "rule_revision_visible db ?v" and "rule_revision_fk db ?v"
    using active_revision_visible [OF _ assms(3), of ?v] assms(3)
    by (auto simp: rule_revision_fk_def has_rule_def list_ex_iff)
      (metis new_rule_fields(1,2))
  moreover have "rule_revision_key ?v \<notin> rule_revision_key ` set (db_rule_revisions db)"
    using assms(4) by (auto simp: rule_revision_key_def)
  ultimately show ?thesis
    unfolding insert_rule_revision_def new_revision_def [symmetric] Let_def
    by (auto simp: statement_def insert_strict_if)
qed


lemma activate_rule_run:
  assumes wf: "db_wf db" and set: "db_settings db = Some (t, s, False)" and "s \<noteq> []"
    and rules: "db_rules db = rs @ [new_rule now i t s]" and revs: "db_rule_revisions db = vs @ [new_revision now j t i s inp]"
    and fresh: "i \<notin> rl_id ` set rs" "j \<notin> rv_id ` set vs"
  shows "activate_rule now i t j db =
    (if ca_enabled inp \<and> 10 \<le> length (enabled_active db t s) then (Inl db_error, db)
     else (Inr 1, db\<lparr>db_rules := rs @ [activate_revision j now (new_rule now i t s)]\<rparr>))"
proof -
  let ?r = "new_rule now i t s" and ?v = "new_revision now j t i s inp"
  let ?target = "\<lambda>r. rule_visible db r \<and> rl_id r = i \<and> rl_tenant_id r = t"
  have vis: "rule_visible db ?r" and mem: "?r \<in> set (db_rules db)"
    using set \<open>s \<noteq> []\<close> rules by (simp_all add: rule_visible_def)
  have t: "filter ?target (db_rules db) = [?r]"
    using vis fresh(1) by (auto simp: rules filter_empty_conv image_iff)
  have m: "map (\<lambda>r. if ?target r then activate_revision j now r else r) (db_rules db) =
      rs @ [activate_revision j now ?r]"
    using vis fresh(1) by (auto simp: rules image_iff intro!: map_idI)
  have act: "is_active_revision (activate_revision j now ?r) w \<longleftrightarrow> w = ?v" if "w \<in> set (db_rule_revisions db)" for w
    using that fresh(2) by (auto simp: revs is_active_revision_def image_iff)
  have "?v \<in> set (rule_revisions_view db)"
    using active_revision_visible [OF vis mem, of ?v] by (simp add: rule_revisions_view_def revs)
  then have "find (is_active_revision (activate_revision j now ?r)) (rule_revisions_view db) = Some ?v"
    using act by (cases "find (is_active_revision (activate_revision j now ?r)) (rule_revisions_view db)")
      (auto simp: find_None_iff rule_revisions_view_def dest!: find_SomeD)
  moreover have "filter (\<lambda>q. rl_id q \<noteq> i) (enabled_active db t s) = enabled_active db t s"
    using fresh(1) by (auto simp: enabled_active_def rules is_enabled_active_def is_active_revision_def
        list_ex_iff image_iff intro!: filter_cong)
  then have "active_count (rules_view db) (rule_revisions_view db) (activate_revision j now ?r) =
      length (enabled_active db t s)"
    using active_count_eq [OF wf vis mem, of "activate_revision j now ?r"] by simp
  ultimately have "enforce_active_alert_limit db (activate_revision j now ?r) \<longleftrightarrow>
      \<not> (ca_enabled inp \<and> 10 \<le> length (enabled_active db t s))"
    by (simp add: enforce_active_alert_limit_def)
  moreover have "rule_fk db (activate_revision j now ?r)"
    by (simp add: rule_fk_def null_or_def has_rule_revision_def revs)
  ultimately show ?thesis
    unfolding activate_rule_def Let_def statement_def t m by simp
qed


lemma joined_new_rule:
  assumes wf: "db_wf db" and set: "db_settings db = Some (t, s, False)" and "s \<noteq> []"
    and rules: "db_rules db = rs @ [r]" and revs: "db_rule_revisions db = vs @ [v]"
    and r: "rl_tenant_id r = t" "rl_owner_subject r = s" "rl_active_revision_id r = Some (rv_id v)"
    and v: "rv_tenant_id v = t" "rv_alert_rule_id v = rl_id r"
  shows "filter (\<lambda>(rule, revision). rl_id rule = rl_id r \<and> rl_tenant_id rule = t) (joined_rules db) = [(r, v)]"
  unfolding joined_rules_def filter_filter
proof (rule filter_unique)
  have vis: "rule_visible db r"
    using set \<open>s \<noteq> []\<close> r by (simp add: rule_visible_def)
  then have "rule_revision_visible db v"
    using active_revision_visible [of db r v] by (simp add: rules r v)
  with vis show "(r, v) \<in> set (List.product (rules_view db) (rule_revisions_view db))"
    by (simp add: rules_view_def rule_revisions_view_def rules revs)
  show "distinct (List.product (rules_view db) (rule_revisions_view db))"
    using wf by (intro distinct_product)
      (simp_all add: rules_view_def rule_revisions_view_def db_wf_def tables_ok_def table_ok_def distinct_map)
next
  fix y
  assume y: "y \<in> set (List.product (rules_view db) (rule_revisions_view db))"
    and P: "(case y of (rule, revision) \<Rightarrow> Some (rv_id revision) = rl_active_revision_id rule \<and>
         rv_tenant_id revision = rl_tenant_id rule) \<and>
      (case y of (rule, revision) \<Rightarrow> rl_id rule = rl_id r \<and> rl_tenant_id rule = t)"
  obtain a b where ab: "y = (a, b)" by (cases y)
  have "a \<in> set (db_rules db)" "b \<in> set (db_rule_revisions db)"
    using y by (auto simp: ab rules_view_def rule_revisions_view_def)
  moreover have "r \<in> set (db_rules db)" "v \<in> set (db_rule_revisions db)"
    by (simp_all add: rules revs)
  ultimately show "y = (r, v)"
    using P wf rules.pk_unique [of "db_rules db" a r] rule_revisions.pk_unique [of "db_rule_revisions db" b v] r(3)
    by (auto simp: ab db_wf_def tables_ok_def)
qed (use r v in auto)

lemma wf_kept_run: "(\<And>db. wf_kept db (snd (m db))) \<Longrightarrow> db_wf db \<Longrightarrow> m db = (x, db') \<Longrightarrow> db_wf db'"
  by (metis snd_conv wf_kept_def)

text \<open>The transaction of a creation, for the two identifiers drawn before it.\<close>

definition creation :: "ext \<Rightarrow> timestamp \<Rightarrow> uuid \<Rightarrow> rstr \<Rightarrow> create_alert_rule_input \<Rightarrow> uuid \<Rightarrow> uuid \<Rightarrow> (http_error + alert_rule) stmt" where
  "creation E now t s inp i j =
     seq (set_request_context t s False) (\<lambda>_.
     seq (insert_rule now i t s) (\<lambda>inserted_rule.
     seq (require_one ''alert-rule identity insert'' inserted_rule) (\<lambda>_.
     seq (insert_rule_revision now j t i s inp) (\<lambda>inserted_revision.
     seq (require_one ''alert-rule revision insert'' inserted_revision) (\<lambda>_.
     seq (activate_rule now i t j) (\<lambda>activated_rule.
     seq (require_one ''alert-rule activation'' activated_rule) (\<lambda>_.
     seq (query (\<lambda>db. filter (\<lambda>(rule, revision). rl_id rule = i \<and> rl_tenant_id rule = t)
            (joined_rules db))) (\<lambda>rows.
     seq (of_result (decode_row (alert_rule_json E) rows)) (\<lambda>row.
     ret (ok_or (HttpError_internal (lit ''alert-rule creation returned no durable record'')) row))))))))))"

lemma create_alert_rule_creation:
  "create_alert_rule E now t s inp db =
     (case creation E now t s inp (gen_uuid E (db_seed db)) (gen_uuid E (Suc (db_seed db)))
         (db\<lparr>db_seed := db_seed db + 2, db_settings := None\<rparr>) of
        (Inl e, d) \<Rightarrow> (Inl e, db\<lparr>db_seed := db_seed d\<rparr>)
      | (Inr x, d) \<Rightarrow> (x, d\<lparr>db_settings := db_settings db\<rparr>))"
  unfolding create_alert_rule_def creation_def [symmetric]
  by (simp add: seq_def new_uuid_def transaction_def rollback_def of_result_def split: prod.splits sum.splits)

lemma unused_rule_id:
  assumes "db_wf db" and "i \<notin> rl_id ` set (db_rules db)"
  shows "i \<notin> rv_alert_rule_id ` set (db_rule_revisions db)"
proof
  assume "i \<in> rv_alert_rule_id ` set (db_rule_revisions db)"
  then obtain w where "w \<in> set (db_rule_revisions db)" "rv_alert_rule_id w = i" by auto
  then have "has_rule db (rv_tenant_id w) i"
    using assms(1) by (auto simp: db_wf_def references_ok_def list_all_iff rule_revision_fk_def)
  with assms(2) show False by (auto simp: has_rule_def list_ex_iff)
qed

lemma require_one_ok: "require_one w (Suc 0) d = (Inr (), d)"
  by (simp add: require_one_def ret_def)

text \<open>The states a creation goes through: with the context, the new rule, its revision, and activated.\<close>

abbreviation with_context :: "nat \<Rightarrow> uuid \<Rightarrow> rstr \<Rightarrow> db \<Rightarrow> db" where
  "with_context n t s db \<equiv> db\<lparr>db_seed := n, db_settings := Some (t, s, False)\<rparr>"

lemma creation_steps:
  fixes n now i t s inp j db
  defines "r \<equiv> new_rule now i t s" and "v \<equiv> new_revision now j t i s inp"
  defines "Da \<equiv> with_context n t s db"
  defines "Db \<equiv> Da\<lparr>db_rules := db_rules db @ [r]\<rparr>"
  defines "Dc \<equiv> Db\<lparr>db_rule_revisions := db_rule_revisions db @ [v]\<rparr>"
  assumes wf: "db_wf db"
  shows "set_request_context t s False (db\<lparr>db_seed := n, db_settings := None\<rparr>) =
      (if text_ok s then (Inr (), Da) else (Inl db_error, db\<lparr>db_seed := n, db_settings := None\<rparr>))"
    and "insert_rule now i t s Da =
      (if rule_check r \<and> i \<notin> rl_id ` set (db_rules db) then (Inr 1, Db) else (Inl db_error, Da))"
    and "rule_check r \<Longrightarrow> i \<notin> rl_id ` set (db_rules db) \<Longrightarrow> insert_rule_revision now j t i s inp Db =
      (if rule_revision_check v \<and> j \<notin> rv_id ` set (db_rule_revisions db) then (Inr 1, Dc) else (Inl db_error, Db))"
proof -
  show "set_request_context t s False (db\<lparr>db_seed := n, db_settings := None\<rparr>) =
      (if text_ok s then (Inr (), Da) else (Inl db_error, db\<lparr>db_seed := n, db_settings := None\<rparr>))"
    by (cases "text_ok s") (simp_all add: set_request_context_def statement_def Da_def)
  show "insert_rule now i t s Da =
      (if rule_check r \<and> i \<notin> rl_id ` set (db_rules db) then (Inr 1, Db) else (Inl db_error, Da))"
    unfolding Da_def Db_def by (subst insert_rule_run) (simp_all add: r_def)
  show "insert_rule_revision now j t i s inp Db =
      (if rule_revision_check v \<and> j \<notin> rv_id ` set (db_rule_revisions db) then (Inr 1, Dc) else (Inl db_error, Db))"
    if "rule_check r" "i \<notin> rl_id ` set (db_rules db)"
  proof -
    have "s \<noteq> []"
      using that(1) by (auto simp: r_def rule_check_def char_length_between_def)
    then show ?thesis
      unfolding Da_def Db_def Dc_def
      using unused_rule_id [OF wf that(2)] that by (subst insert_rule_revision_run) (simp_all add: r_def v_def)
  qed
qed

lemma creation_rejected:
  assumes "db_wf db"
    and "\<not> (rule_check (new_rule now i t s) \<and> i \<notin> rl_id ` set (db_rules db) \<and>
      rule_revision_check (new_revision now j t i s inp) \<and> j \<notin> rv_id ` set (db_rule_revisions db))"
  shows "\<exists>d. creation E now t s inp i j (db\<lparr>db_seed := n, db_settings := None\<rparr>) = (Inl db_error, d) \<and>
    db_seed d = n"
  unfolding creation_def
  using assms(2) creation_steps(1) [OF assms(1), where n = n and t = t and s = s]
    creation_steps(2) [OF assms(1), where n = n and t = t and s = s and now = now and i = i]
    creation_steps(3) [OF assms(1), where n = n and t = t and s = s and now = now and i = i and j = j and inp = inp]
  by (cases "text_ok s \<and> rule_check (new_rule now i t s) \<and> i \<notin> rl_id ` set (db_rules db)")
    (auto simp: seq_def require_one_ok)

lemma creation_accepted:
  fixes n now i t s inp j db
  defines "r \<equiv> new_rule now i t s" and "v \<equiv> new_revision now j t i s inp"
  assumes wf: "db_wf db" and r: "rule_check r" "i \<notin> rl_id ` set (db_rules db)"
    and v: "rule_revision_check v" "j \<notin> rv_id ` set (db_rule_revisions db)"
  shows "\<exists>d. creation E now t s inp i j (db\<lparr>db_seed := n, db_settings := None\<rparr>) =
      ((if ca_enabled inp \<and> 10 \<le> length (enabled_active db t s) then Inl db_error
        else case alert_rule_json E (activate_revision j now r, v) of None \<Rightarrow> Inl db_error | Some x \<Rightarrow> Inr (Inr x)), d) \<and>
    db_seed d = n \<and>
    (ca_enabled inp \<and> 10 \<le> length (enabled_active db t s) \<or>
     d = (with_context n t s db)\<lparr>db_rule_revisions := db_rule_revisions db @ [v],
       db_rules := db_rules db @ [activate_revision j now r]\<rparr>)"
proof -
  let ?Da = "with_context n t s db"
  let ?Db = "?Da\<lparr>db_rules := db_rules db @ [r]\<rparr>"
  let ?Dc = "?Db\<lparr>db_rule_revisions := db_rule_revisions db @ [v]\<rparr>"
  let ?Dd = "?Da\<lparr>db_rule_revisions := db_rule_revisions db @ [v], db_rules := db_rules db @ [activate_revision j now r]\<rparr>"
  let ?full = "ca_enabled inp \<and> 10 \<le> length (enabled_active db t s)"
  note steps = creation_steps(1) [OF wf, where n = n and t = t and s = s]
    creation_steps(2) [OF wf, where n = n and t = t and s = s and now = now and i = i, folded r_def]
    creation_steps(3) [OF wf, where n = n and t = t and s = s and now = now and i = i and j = j and inp = inp, folded r_def v_def]
  have sub: "s \<noteq> []" "text_ok s"
    using r(1) by (auto simp: r_def rule_check_def char_length_between_def)
  have "db_wf ?Da" and "wf_kept ?Da ?Db" and "wf_kept ?Db ?Dc"
    using wf insert_rule_wf [of ?Da now i t s] insert_rule_revision_wf [of ?Db now j t i s inp] r v
    by (simp_all add: steps)
  then have wf2: "db_wf ?Dc"
    by (simp add: wf_kept_def)
  have "enabled_active ?Dc t s = enabled_active db t s"
    using r(2) by (auto simp: enabled_active_def is_enabled_active_def is_active_revision_def list_ex_iff
        r_def v_def image_iff intro!: filter_cong)
  then have run3: "activate_rule now i t j ?Dc = (if ?full then (Inl db_error, ?Dc) else (Inr 1, ?Dd))"
    using activate_rule_run [OF wf2, of t s "db_rules db" now i "db_rule_revisions db" j inp] r v sub
    by (simp add: r_def v_def)
  show ?thesis
  proof (cases ?full)
    case True
    then show ?thesis
      unfolding creation_def using r v sub by (simp add: seq_def steps run3 require_one_ok)
  next
    case False
    have "db_wf ?Dd"
      using wf2 activate_rule_wf [of ?Dc now i t j] False by (simp add: run3 wf_kept_def)
    then have join: "filter (\<lambda>(rule, revision). rl_id rule = i \<and> rl_tenant_id rule = t) (joined_rules ?Dd)
        = [(activate_revision j now r, v)]"
      using joined_new_rule [of ?Dd t s "db_rules db" "activate_revision j now r" "db_rule_revisions db" v] sub
      by (simp add: r_def v_def)
    then show ?thesis
      unfolding creation_def using r v sub False
      by (auto simp: seq_def steps run3 require_one_ok query_def join of_result_def decode_row_def
          decode_json_row_def ret_def split: option.splits)
  qed
qed

lemma create_alert_rule_run:
  fixes E now t s inp db
  defines "i \<equiv> gen_uuid E (db_seed db)" and "j \<equiv> gen_uuid E (Suc (db_seed db))"
  defines "r \<equiv> new_rule now i t s" and "v \<equiv> new_revision now j t i s inp"
  assumes wf: "db_wf db"
  shows "create_alert_rule E now t s inp db =
    (if rule_check r \<and> rule_revision_check v \<and> i \<notin> rl_id ` set (db_rules db) \<and>
        j \<notin> rv_id ` set (db_rule_revisions db) \<and>
        (ca_enabled inp \<longrightarrow> length (enabled_active db t s) < 10) \<and>
        json_f32 E (ca_similarity_threshold inp) \<noteq> None
     then (Inr (the (alert_rule_json E (activate_revision j now r, v))),
           db\<lparr>db_seed := db_seed db + 2, db_rules := db_rules db @ [activate_revision j now r],
              db_rule_revisions := db_rule_revisions db @ [v]\<rparr>)
     else (Inl db_error, db\<lparr>db_seed := db_seed db + 2\<rparr>))"
proof (cases "rule_check r \<and> i \<notin> rl_id ` set (db_rules db) \<and> rule_revision_check v \<and> j \<notin> rv_id ` set (db_rule_revisions db)")
  case False
  then show ?thesis
    using creation_rejected [OF wf False [unfolded r_def v_def], of E "db_seed db + 2"]
    unfolding create_alert_rule_creation by (auto simp: i_def j_def)
next
  case True
  have json: "alert_rule_json E (activate_revision j now r, v) = None \<longleftrightarrow> json_f32 E (ca_similarity_threshold inp) = None"
    by (simp add: alert_rule_json_def v_def)
  show ?thesis
    using creation_accepted [OF wf, where n = "db_seed db + 2" and now = now and i = i and t = t and s = s and j = j and inp = inp and E = E] True json
    unfolding create_alert_rule_creation i_def [symmetric] j_def [symmetric] r_def [symmetric] v_def [symmetric]
    by (auto split: option.splits if_splits)
qed

section \<open>Reading under the policies\<close>

text \<open>An active revision is a revision of its own rule.\<close>

definition own_revisions :: "db \<Rightarrow> bool" where
  "own_revisions db \<longleftrightarrow>
     list_all (\<lambda>r. list_all (\<lambda>v. Some (rv_id v) = rl_active_revision_id r \<longrightarrow>
         rv_tenant_id v = rl_tenant_id r \<longrightarrow> rv_alert_rule_id v = rl_id r) (db_rule_revisions db)) (db_rules db)"

text \<open>The rules a caller may see, with their active revision, by the tables alone.\<close>

definition authorised_rules :: "db \<Rightarrow> uuid \<Rightarrow> rstr \<Rightarrow> bool \<Rightarrow> (rule_row \<times> rule_revision_row) list" where
  "authorised_rules db tenant subject admin =
     filter (\<lambda>(r, v). is_active_revision r v \<and> rl_tenant_id r = tenant \<and>
         (admin \<or> rl_owner_subject r = subject))
       (List.product (db_rules db) (db_rule_revisions db))"

lemma filter_product_filter:
  "filter Q (List.product (filter A xs) (filter B ys)) =
     filter (\<lambda>(x, y). A x \<and> B y \<and> Q (x, y)) (List.product xs ys)"
proof (induction xs)
  case (Cons x xs)
  have "filter Q (map (Pair x) (filter B ys)) = (if A x then [] @ filter Q (map (Pair x) (filter B ys)) else filter Q (map (Pair x) (filter B ys)))"
    by simp
  moreover have "filter (\<lambda>(x, y). A x \<and> B y \<and> Q (x, y)) (map (Pair x) ys) =
      (if A x then filter Q (map (Pair x) (filter B ys)) else [])"
    by (induction ys) auto
  ultimately show ?case
    using Cons by simp
qed simp

lemma joined_authorised:
  assumes "own_revisions db" and "s \<noteq> []"
  shows "filter (\<lambda>(r, v). rl_tenant_id r = t \<and> (a \<or> rl_owner_subject r = s))
      (joined_rules (db\<lparr>db_settings := Some (t, s, a)\<rparr>)) = authorised_rules db t s a"
  unfolding joined_rules_def authorised_rules_def rules_view_def rule_revisions_view_def
    filter_product_filter filter_filter
proof (rule filter_cong)
  let ?D = "db\<lparr>db_settings := Some (t, s, a)\<rparr>"
  show "List.product (db_rules ?D) (db_rule_revisions ?D) = List.product (db_rules db) (db_rule_revisions db)"
    by simp
  fix x assume x: "x \<in> set (List.product (db_rules db) (db_rule_revisions db))"
  obtain r v where rv: "x = (r, v)" by (cases x)
  have r: "r \<in> set (db_rules db)" and v: "v \<in> set (db_rule_revisions db)"
    using x by (auto simp: rv)
  have own: "Some (rv_id v) = rl_active_revision_id r \<Longrightarrow> rv_tenant_id v = rl_tenant_id r \<Longrightarrow>
      rv_alert_rule_id v = rl_id r"
    using assms(1) r v by (auto simp: own_revisions_def list_all_iff)
  have vis: "rule_visible ?D r" if "rl_tenant_id r = t" "a \<or> rl_owner_subject r = s"
    using that assms(2) by (auto simp: rule_visible_def)
  have "rule_revision_visible ?D v" if "rl_tenant_id r = t" "a \<or> rl_owner_subject r = s" "is_active_revision r v"
    using active_revision_visible [OF vis [OF that(1,2)]] r that(3) by (auto simp: is_active_revision_def)
  then show "((case x of (x, y) \<Rightarrow> rule_visible ?D x \<and> rule_revision_visible ?D y \<and>
        (case (x, y) of (rule, revision) \<Rightarrow> Some (rv_id revision) = rl_active_revision_id rule \<and>
          rv_tenant_id revision = rl_tenant_id rule)) \<and>
      (case x of (r, v) \<Rightarrow> rl_tenant_id r = t \<and> (a \<or> rl_owner_subject r = s))) =
    (case x of (r, v) \<Rightarrow> is_active_revision r v \<and> rl_tenant_id r = t \<and> (a \<or> rl_owner_subject r = s))"
    using vis own by (auto simp: rv is_active_revision_def)
qed

lemma settings_same [simp]: "db\<lparr>db_settings := c, db_settings := d\<rparr> = db\<lparr>db_settings := d\<rparr>"
  by simp

lemma get_alert_rule_run:
  assumes "own_revisions db" and "s \<noteq> []" and "text_ok s"
  shows "get_alert_rule E t i s a db =
    (decode_row (alert_rule_json E) (filter (\<lambda>(r, v). rl_id r = i) (authorised_rules db t s a)), db)"
proof -
  have "filter (\<lambda>(rule, revision). rl_tenant_id rule = t \<and> rl_id rule = i \<and> (a \<or> rl_owner_subject rule = s))
      (joined_rules (db\<lparr>db_settings := Some (t, s, a)\<rparr>)) =
    filter (\<lambda>(r, v). rl_id r = i) (filter (\<lambda>(r, v). rl_tenant_id r = t \<and> (a \<or> rl_owner_subject r = s))
      (joined_rules (db\<lparr>db_settings := Some (t, s, a)\<rparr>)))"
    by (auto intro!: filter_cong)
  also have "\<dots> = filter (\<lambda>(r, v). rl_id r = i) (authorised_rules db t s a)"
    by (simp only: joined_authorised [OF assms(1,2)])
  finally show ?thesis
    using assms(3) by (simp add: get_alert_rule_def seq_def transaction_def set_request_context_def
        statement_def query_def of_result_def)
qed

lemma list_alert_rules_run:
  assumes "own_revisions db" and "s \<noteq> []" and "text_ok s"
  shows "list_alert_rules E t s a db =
    (traverse (\<lambda>row. decode_json_row (alert_rule_json E row))
       (take 500 (sort_key (\<lambda>(r, v). (- rl_updated_at r, rl_id r)) (authorised_rules db t s a))), db)"
  using assms joined_authorised [OF assms(1,2), of t a]
  by (simp add: list_alert_rules_def seq_def transaction_def set_request_context_def
        statement_def query_def of_result_def)

lemma get_alert_rule_not_owner:
  assumes "own_revisions db" and "s' \<noteq> []" and "text_ok s'" and "s' \<noteq> s"
    and "\<forall>r \<in> set (db_rules db). rl_id r = i \<longrightarrow> rl_owner_subject r = s"
  shows "get_alert_rule E t i s' False db = (Inr None, db)"
proof -
  have "filter (\<lambda>(r, v). rl_id r = i) (authorised_rules db t s' False) = []"
    using assms(4,5) by (auto simp: filter_empty_conv authorised_rules_def)
  then show ?thesis
    unfolding get_alert_rule_run [OF assms(1-3)] by (simp add: decode_row_def)
qed

lemma authorised_unique:
  assumes "db_wf db" and "(r, v) \<in> set (authorised_rules db t s a)"
  shows "filter (\<lambda>(r', v'). rl_id r' = rl_id r) (authorised_rules db t s a) = [(r, v)]"
proof (rule filter_unique)
  show "distinct (authorised_rules db t s a)"
    using assms(1) by (auto simp: authorised_rules_def db_wf_def tables_ok_def table_ok_def distinct_map
        intro!: distinct_filter distinct_product)
  fix y assume y: "y \<in> set (authorised_rules db t s a)" "case y of (r', v') \<Rightarrow> rl_id r' = rl_id r"
  obtain r' v' where rv: "y = (r', v')" by (cases y)
  have "r' = r"
    using assms y rules.pk_unique [of "db_rules db" r' r]
    by (auto simp: rv authorised_rules_def db_wf_def tables_ok_def)
  moreover have "v' = v"
  proof (rule rule_revisions.pk_unique)
    have "Some (rv_id v') = rl_active_revision_id r" "Some (rv_id v) = rl_active_revision_id r"
      using assms(2) y \<open>r' = r\<close> by (auto simp: rv authorised_rules_def is_active_revision_def)
    then show "rv_id v' = rv_id v" by (metis option.inject)
  qed (use assms y in \<open>auto simp: rv authorised_rules_def db_wf_def tables_ok_def\<close>)
  ultimately show "y = (r, v)" by (simp add: rv)
qed (use assms(2) in auto)


lemma alert_rule_json_Some:
  "alert_rule_json E (r, v) = Some x \<Longrightarrow> ar_id x = rl_id r \<and> ar_tenant_id x = rl_tenant_id r \<and>
     ar_owner_subject x = rl_owner_subject r \<and> ar_revision_id x = rv_id v \<and>
     ar_updated_at x = rl_updated_at r"
  by (auto simp: alert_rule_json_def)

lemma own_revisions_create:
  assumes "db_wf db" and "own_revisions db"
  shows "own_revisions (snd (create_alert_rule E now t s inp db))"
proof -
  have act: "has_rule_revision db (rl_tenant_id r) j'" if "r \<in> set (db_rules db)" "rl_active_revision_id r = Some j'" for r j'
    using assms(1) that by (auto simp: db_wf_def references_ok_def list_all_iff rule_fk_def null_or_def)
  have "rl_active_revision_id r \<noteq> Some j" if "r \<in> set (db_rules db)" "j \<notin> rv_id ` set (db_rule_revisions db)" for r j
    using act [OF that(1), of j] that(2) by (auto simp: has_rule_revision_def list_ex_iff)
  then show ?thesis
    using assms(2) unfolding create_alert_rule_run [OF assms(1)]
    by (auto simp: own_revisions_def list_all_iff image_iff dest!: sym [of "Some _"])
qed

lemma create_alert_rule_wf: "wf_kept db (snd (create_alert_rule E now t s inp db))"
  unfolding create_alert_rule_def require_one_def
  by (intro wf.R_seq wf.R_transaction wf.R_new_uuid wf.R_set_request_context wf.R_query wf.R_of_result
      wf.R_ret insert_rule_wf insert_rule_revision_wf activate_rule_wf)
    (auto intro: wf.R_fail wf.R_ret)

lemma rule_wf_check:
  assumes "rule_wf p inp" and "char_length_between 1 256 s" and "text_ok s"
    and "text_ok (ca_name inp)" and "text_ok (ca_query_text inp)" and "text_ok (ca_embedding_model inp)"
    and "list_all text_ok (ca_source_filters inp)" and "list_all text_ok (ca_delivery_channels inp)"
  shows "rule_revision_check (new_revision now j t i s inp)"
  using assms byte_len_ge_length [of "ca_name inp"] byte_len_ge_length [of "ca_embedding_model inp"]
  by (auto simp: rule_revision_check_def new_revision_def rule_wf_def char_length_between_def in_unit32_def
      Suc_le_eq)

definition input_storable :: "create_alert_rule_input \<Rightarrow> bool" where
  "input_storable inp \<longleftrightarrow> text_ok (ca_name inp) \<and> text_ok (ca_query_text inp) \<and>
     text_ok (ca_embedding_model inp) \<and> list_all text_ok (ca_source_filters inp) \<and>
     list_all text_ok (ca_delivery_channels inp)"

definition rule_of_input ::
  "uuid \<Rightarrow> uuid \<Rightarrow> timestamp \<Rightarrow> uuid \<Rightarrow> rstr \<Rightarrow> create_alert_rule_input \<Rightarrow> alert_rule" where
  "rule_of_input i j now t s inp =
     \<lparr>ar_id = i, ar_tenant_id = t, ar_owner_subject = s, ar_revision_id = j, ar_revision_number = 1,
      ar_created_at = now, ar_updated_at = now, ar_revision_created_at = now, ar_name = ca_name inp,
      ar_query_text = ca_query_text inp, ar_embedding_model = ca_embedding_model inp,
      ar_similarity_threshold = ca_similarity_threshold inp, ar_source_filters = ca_source_filters inp,
      ar_delivery_channels = ca_delivery_channels inp, ar_enabled = ca_enabled inp\<rparr>"

lemma json_of_created:
  "json_f32 E (ca_similarity_threshold inp) = Some (ca_similarity_threshold inp) \<Longrightarrow>
   alert_rule_json E (activate_revision j now (new_rule now i t s), new_revision now j t i s inp) =
     Some (rule_of_input i j now t s inp)"
  by (simp add: alert_rule_json_def rule_of_input_def new_revision_def new_rule_def activate_revision_def)

section \<open>The store keeps evidence and stays inside its tenant\<close>

lemma insert_strict_appended: "insert_strict check key pk r t = Some t' \<Longrightarrow> t' = t @ [r]"
  by (auto simp: insert_strict_if split: if_splits)

lemma insert_rule_evidence: "evidence_kept db (snd (insert_rule now i t s db))"
  unfolding insert_rule_def
  by (rule evidence.R_statement)
    (auto simp: evidence_kept_def Let_def dest!: insert_strict_appended split: if_splits)

lemma insert_rule_revision_evidence: "evidence_kept db (snd (insert_rule_revision now j t i s inp db))"
  unfolding insert_rule_revision_def
  by (rule evidence.R_statement)
    (auto simp: evidence_kept_def Let_def dest!: insert_strict_appended split: if_splits)

lemma rule_identity_activate: "rule_identity (if c then activate_revision j now r else r) = rule_identity r"
  by (simp add: rule_identity_def activate_revision_def)

lemma activate_rule_evidence: "evidence_kept db (snd (activate_rule now i t j db))"
  unfolding activate_rule_def
  by (rule evidence.R_statement)
    (auto simp: evidence_kept_def Let_def comp_def rule_identity_activate split: if_splits)

lemma insert_rule_frame: "tenant_frame t db (snd (insert_rule now i t s db))"
  unfolding insert_rule_def
  by (rule frame.R_statement)
    (auto simp: tenant_frame_def Let_def dest!: insert_strict_appended split: if_splits)

lemma insert_rule_revision_frame: "tenant_frame t db (snd (insert_rule_revision now j t i s inp db))"
  unfolding insert_rule_revision_def
  by (rule frame.R_statement)
    (auto simp: tenant_frame_def Let_def dest!: insert_strict_appended split: if_splits)

lemma activate_rule_frame: "tenant_frame t db (snd (activate_rule now i t j db))"
  unfolding activate_rule_def
proof (rule frame.R_statement)
  fix x db'
  assume "(let target = \<lambda>r. rule_visible db r \<and> rl_id r = i \<and> rl_tenant_id r = t;
        rows = filter target (db_rules db)
      in if list_ex (\<lambda>r. \<not> enforce_active_alert_limit db (activate_revision j now r) \<or>
            \<not> rule_fk db (activate_revision j now r)) rows
         then None
         else Some (length rows, db\<lparr>db_rules :=
           map (\<lambda>r. if target r then activate_revision j now r else r) (db_rules db)\<rparr>)) = Some (x, db')"
  then have "db' = db\<lparr>db_rules := map (\<lambda>r. if rule_visible db r \<and> rl_id r = i \<and> rl_tenant_id r = t
      then activate_revision j now r else r) (db_rules db)\<rparr>"
    by (auto simp: Let_def split: if_splits)
  then show "tenant_frame t db db'"
    by (simp add: tenant_frame_def foreign_map)
qed

lemma create_alert_rule_evidence: "evidence_kept db (snd (create_alert_rule E now t s inp db))"
  unfolding create_alert_rule_def require_one_def
  by (intro evidence.R_seq evidence.R_transaction evidence.R_new_uuid evidence.R_set_request_context
      evidence.R_query evidence.R_of_result evidence.R_ret insert_rule_evidence
      insert_rule_revision_evidence activate_rule_evidence)
    (auto intro: evidence.R_fail evidence.R_ret)

lemma create_alert_rule_frame: "tenant_frame t db (snd (create_alert_rule E now t s inp db))"
  unfolding create_alert_rule_def require_one_def
  by (intro frame.R_seq frame.R_transaction frame.R_new_uuid frame.R_set_request_context
      frame.R_query frame.R_of_result frame.R_ret insert_rule_frame
      insert_rule_revision_frame activate_rule_frame)
    (auto intro: frame.R_fail frame.R_ret)

lemma read_only_rules:
  "snd (list_alert_rules E t s a db) = db\<lparr>db_settings := db_settings db\<rparr>"
  "snd (get_alert_rule E t i s a db) = db\<lparr>db_settings := db_settings db\<rparr>"
  "snd (require_alert_rule E t i s a db) = db\<lparr>db_settings := db_settings db\<rparr>"
  by (auto simp: list_alert_rules_def get_alert_rule_def require_alert_rule_def seq_def transaction_def
      set_request_context_def statement_def query_def of_result_def rollback_def
      split: prod.splits sum.splits)

section \<open>Properties\<close>

text \<open>
  C14. Reading one rule is exactly authorised: whether or not the connection's role bypasses
  row-level security, the caller gets the rule and its active revision when it belongs to the
  tenant and the caller owns it or is a tenant administrator, and nothing otherwise; the
  policies and the WHERE clause of the query agree.
\<close>

theorem get_alert_rule_exact:
  assumes "db_wf db" and "own_revisions db" and "s \<noteq> []" and "text_ok s"
  shows "get_alert_rule E t i s a db = (Inr (Some x), db) \<longleftrightarrow>
    (\<exists>r \<in> set (db_rules db). \<exists>v \<in> set (db_rule_revisions db). rl_id r = i \<and> is_active_revision r v \<and>
       rl_tenant_id r = t \<and> (a \<or> rl_owner_subject r = s) \<and> alert_rule_json E (r, v) = Some x)"
  (is "?L \<longleftrightarrow> ?R")
proof
  assume ?L
  then have "decode_row (alert_rule_json E) (filter (\<lambda>(r, v). rl_id r = i) (authorised_rules db t s a)) = Inr (Some x)"
    using get_alert_rule_run [OF assms(2-4)] by simp
  then obtain r v rest where f: "filter (\<lambda>(r, v). rl_id r = i) (authorised_rules db t s a) = (r, v) # rest"
    and x: "alert_rule_json E (r, v) = Some x"
    by (auto simp: decode_row_def decode_json_row_def split: list.splits)
  have "(r, v) \<in> set (filter (\<lambda>(r, v). rl_id r = i) (authorised_rules db t s a))"
    unfolding f by simp
  then have "r \<in> set (db_rules db)" "v \<in> set (db_rule_revisions db)" "rl_id r = i \<and> is_active_revision r v \<and>
       rl_tenant_id r = t \<and> (a \<or> rl_owner_subject r = s)"
    by (auto simp: authorised_rules_def)
  with x show ?R by blast
next
  assume ?R
  then obtain r v where "(r, v) \<in> set (authorised_rules db t s a)" "rl_id r = i" "alert_rule_json E (r, v) = Some x"
    by (auto simp: authorised_rules_def)
  then show ?L
    using get_alert_rule_run [OF assms(2-4)] authorised_unique [OF assms(1), of r v t s a]
    by (simp add: decode_row_def decode_json_row_def)
qed

text \<open>
  C30. A list of rules holds only rules the caller may see, newest first with ties broken by
  identifier, at most 500 of them; when no more than 500 are visible it holds all of them.
\<close>

theorem list_alert_rules_contract:
  assumes "own_revisions db" and "s \<noteq> []" and "text_ok s"
    and "list_alert_rules E t s a db = (Inr rules, db')"
  shows "db' = db \<and> length rules \<le> 500 \<and>
    (\<forall>x \<in> set rules. ar_tenant_id x = t \<and> (a \<or> ar_owner_subject x = s)) \<and>
    sorted_wrt (\<lambda>x y. ar_updated_at x > ar_updated_at y \<or>
        ar_updated_at x = ar_updated_at y \<and> ar_id x \<le> ar_id y) rules \<and>
    (length (authorised_rules db t s a) \<le> 500 \<longrightarrow>
       (\<forall>row \<in> set (authorised_rules db t s a). \<exists>x \<in> set rules. alert_rule_json E row = Some x))"
proof -
  let ?key = "\<lambda>(r :: rule_row, v :: rule_revision_row). (- rl_updated_at r, rl_id r)"
  define rows where "rows = take 500 (sort_key ?key (authorised_rules db t s a))"
  have tr: "traverse (\<lambda>row. decode_json_row (alert_rule_json E row)) rows = Inr rules" and db': "db' = db"
    using assms(4) unfolding list_alert_rules_run [OF assms(1-3)] rows_def by auto
  have len: "length rules = length rows"
    and nth: "\<And>k. k < length rows \<Longrightarrow> alert_rule_json E (rows ! k) = Some (rules ! k)"
    using tr by (auto simp: traverse_eq_Inr decode_json_row_def)
  have sub: "set rows \<subseteq> set (authorised_rules db t s a)"
    unfolding rows_def using set_take_subset by fastforce
  have fields: "ar_id (rules ! k) = rl_id (fst (rows ! k)) \<and> ar_tenant_id (rules ! k) = rl_tenant_id (fst (rows ! k)) \<and>
      ar_owner_subject (rules ! k) = rl_owner_subject (fst (rows ! k)) \<and>
      ar_updated_at (rules ! k) = rl_updated_at (fst (rows ! k))" if "k < length rows" for k
    using nth [OF that] by (cases "rows ! k") (auto dest!: alert_rule_json_Some)
  have auth: "\<forall>x \<in> set rules. ar_tenant_id x = t \<and> (a \<or> ar_owner_subject x = s)"
  proof
    fix x assume "x \<in> set rules"
    then obtain k where k: "k < length rows" "x = rules ! k"
      by (auto simp: in_set_conv_nth len)
    then have "rows ! k \<in> set (authorised_rules db t s a)"
      using sub by auto
    then show "ar_tenant_id x = t \<and> (a \<or> ar_owner_subject x = s)"
      using fields [OF k(1)] k(2) by (auto simp: authorised_rules_def)
  qed
  have "sorted (map ?key rows)"
    unfolding rows_def take_map [symmetric] by (simp add: sorted_wrt_take)
  then have srt: "sorted_wrt (\<lambda>x y. ar_updated_at x > ar_updated_at y \<or>
        ar_updated_at x = ar_updated_at y \<and> ar_id x \<le> ar_id y) rules"
    using fields len by (fastforce simp: sorted_wrt_iff_nth_less less_eq_prod_def case_prod_beta)
  have "\<exists>x \<in> set rules. alert_rule_json E row = Some x"
    if "length (authorised_rules db t s a) \<le> 500" "row \<in> set (authorised_rules db t s a)" for row
  proof -
    have "row \<in> set rows"
      using that by (simp add: rows_def)
    then show ?thesis
      using nth len by (metis in_set_conv_nth)
  qed
  moreover have "length rules \<le> 500"
    by (simp add: len rows_def)
  ultimately show ?thesis
    using db' auth srt by blast
qed

text \<open>
  C20. Creating a well-formed rule succeeds unless it is enabled and the owner already has ten
  enabled active rules, in which case the request fails with status 500 and no table changes.
  On success the stored rule is the submitted one, its owner reads it back unchanged, and
  another subject of the tenant who is no administrator does not see it.
\<close>

theorem create_alert_rule_outcome:
  fixes E db
  defines "i \<equiv> gen_uuid E (db_seed db)" and "j \<equiv> gen_uuid E (Suc (db_seed db))"
  assumes wf: "db_wf db" and own: "own_revisions db"
    and input: "rule_wf p inp" "input_storable inp"
    and subj: "char_length_between 1 256 s" "text_ok s"
    and fresh: "i \<notin> rl_id ` set (db_rules db)" "j \<notin> rv_id ` set (db_rule_revisions db)"
    and json: "json_f32 E (ca_similarity_threshold inp) = Some (ca_similarity_threshold inp)"
  shows "if ca_enabled inp \<and> length (enabled_active db t s) \<ge> 10
    then create_alert_rule E now t s inp db = (Inl db_error, db\<lparr>db_seed := db_seed db + 2\<rparr>) \<and>
      err_status db_error = 500
    else \<exists>db'. create_alert_rule E now t s inp db = (Inr (rule_of_input i j now t s inp), db') \<and>
      get_alert_rule E t i s False db' = (Inr (Some (rule_of_input i j now t s inp)), db') \<and>
      (\<forall>s'. s' \<noteq> s \<longrightarrow> s' \<noteq> [] \<longrightarrow> text_ok s' \<longrightarrow> get_alert_rule E t i s' False db' = (Inr None, db'))"
proof -
  let ?r = "new_rule now i t s" and ?v = "new_revision now j t i s inp"
  let ?r' = "activate_revision j now ?r"
  have chk: "rule_check ?r" "rule_revision_check ?v" and "s \<noteq> []"
    using subj input rule_wf_check [OF input(1) subj]
    by (auto simp: rule_check_def input_storable_def char_length_between_def)
  note run = create_alert_rule_run [OF wf, of E now t s inp, folded i_def j_def]
  show ?thesis
  proof (cases "ca_enabled inp \<and> length (enabled_active db t s) \<ge> 10")
    case True
    then show ?thesis
      unfolding run by (simp add: db_error_def)
  next
    case False
    let ?db' = "db\<lparr>db_seed := db_seed db + 2, db_rules := db_rules db @ [?r'],
      db_rule_revisions := db_rule_revisions db @ [?v]\<rparr>"
    have res: "create_alert_rule E now t s inp db = (Inr (rule_of_input i j now t s inp), ?db')"
      unfolding run using False chk fresh json by (auto simp: json_of_created)
    have wf': "db_wf ?db'" and own': "own_revisions ?db'"
      using create_alert_rule_wf [of db E now t s inp] own_revisions_create [OF wf own, of E now t s inp] wf
      by (auto simp: res wf_kept_def)
    have mem: "(?r', ?v) \<in> set (authorised_rules ?db' t s False)"
      by (simp add: authorised_rules_def is_active_revision_def)
    have "get_alert_rule E t i s False ?db' = (Inr (Some (rule_of_input i j now t s inp)), ?db')"
      unfolding get_alert_rule_run [OF own' \<open>s \<noteq> []\<close> subj(2)]
      using authorised_unique [OF wf' mem] json
      by (simp add: decode_row_def decode_json_row_def json_of_created)
    moreover have "r = ?r'" if "r \<in> set (db_rules ?db')" "rl_id r = i" for r
      using that fresh(1) by (auto simp: image_iff)
    then have "\<forall>r \<in> set (db_rules ?db'). rl_id r = i \<longrightarrow> rl_owner_subject r = s"
      by (metis activate_fields(3) new_rule_fields(3))
    then have "get_alert_rule E t i s' False ?db' = (Inr None, ?db')" if "s' \<noteq> s" "s' \<noteq> []" "text_ok s'" for s'
      using that get_alert_rule_not_owner [OF own' that(2,3,1)] by blast
    ultimately show ?thesis
      using False res by auto
  qed
qed


definition example_ext :: ext where
  "example_ext = \<lparr>gen_uuid = (\<lambda>n. word_of_nat (n + 1)), timestamptz = (\<lambda>t. t),
     parse_vector = (\<lambda>_. Some [1065353216]), cosine_distance = (\<lambda>_ _. Some zero64),
     json_f32 = Some, json_f64 = Some, f32_display = (\<lambda>_. lit ''1''), uuid_to_string = hyphenated,
     sha256 = (\<lambda>_. []), hex_encode = (\<lambda>_. replicate 64 97), json_of_strings = (\<lambda>_. [])\<rparr>"

lemma own_revisions_empty: "own_revisions (empty_db b)"
  by (simp add: own_revisions_def empty_db_def)

lemma example_input_ok: "rule_wf parse_hyphenated example_rule_normal" "input_storable example_rule_normal"
proof -
  have "validate_rule parse_hyphenated example_rule_normal = Inr ()"
    by code_simp
  then show "rule_wf parse_hyphenated example_rule_normal"
    by (rule validate_rule_wf)
  show "input_storable example_rule_normal"
    by code_simp
qed

theorem create_alert_rule_outcome_witness:
  "\<exists>db'. create_alert_rule example_ext 5 7 (lit ''user-1'') example_rule_normal (empty_db False) =
       (Inr (rule_of_input 1 2 5 7 (lit ''user-1'') example_rule_normal), db') \<and>
     get_alert_rule example_ext 7 1 (lit ''user-1'') False db' =
       (Inr (Some (rule_of_input 1 2 5 7 (lit ''user-1'') example_rule_normal)), db') \<and>
     get_alert_rule example_ext 7 1 (lit ''user-2'') False db' = (Inr None, db')"
proof -
  have subj: "char_length_between 1 256 (lit ''user-1'')" "text_ok (lit ''user-1'')" "text_ok (lit ''user-2'')"
    "lit ''user-2'' \<noteq> lit ''user-1''" "lit ''user-2'' \<noteq> []"
    by (simp_all add: char_length_between_def text_ok_def lit_def)
  have ids: "gen_uuid example_ext (db_seed (empty_db False)) = 1" "gen_uuid example_ext (Suc (db_seed (empty_db False))) = 2"
    by (simp_all add: example_ext_def empty_db_def)
  have "enabled_active (empty_db False) 7 (lit ''user-1'') = []"
    by (simp add: enabled_active_def empty_db_def)
  then show ?thesis
    using create_alert_rule_outcome [OF db_wf_empty own_revisions_empty example_input_ok subj(1,2),
        of example_ext False 7 5] subj(3-5)
    by (auto simp: ids empty_db_def example_ext_def)
qed

definition example_db :: db where
  "example_db = (empty_db False)\<lparr>db_seed := 2,
     db_rules := [activate_revision 2 5 (new_rule 5 1 7 (lit ''user-1''))],
     db_rule_revisions := [new_revision 5 2 7 1 (lit ''user-1'') example_rule_normal]\<rparr>"

lemma example_db_run:
  "create_alert_rule example_ext 5 7 (lit ''user-1'') example_rule_normal (empty_db False) =
     (Inr (rule_of_input 1 2 5 7 (lit ''user-1'') example_rule_normal), example_db)"
proof -
  have "rule_check (new_rule 5 1 7 (lit ''user-1''))"
    and "rule_revision_check (new_revision 5 2 7 1 (lit ''user-1'') example_rule_normal)"
    using rule_wf_check [OF example_input_ok(1), of "lit ''user-1''"] example_input_ok(2)
    by (simp_all add: rule_check_def char_length_between_def text_ok_def lit_def input_storable_def)
  moreover have "gen_uuid example_ext 0 = 1" "gen_uuid example_ext (Suc 0) = 2" "json_f32 example_ext = Some"
    by (simp_all add: example_ext_def)
  ultimately show ?thesis
    unfolding create_alert_rule_run [OF db_wf_empty]
    by (simp add: json_of_created example_db_def enabled_active_def empty_db_def)
qed

lemma example_db_ok: "db_wf example_db" "own_revisions example_db"
  using create_alert_rule_wf [of "empty_db False" example_ext 5 7 "lit ''user-1''" example_rule_normal]
    own_revisions_create [OF db_wf_empty own_revisions_empty [of False], of example_ext 5 7 "lit ''user-1''" example_rule_normal]
  by (simp_all add: example_db_run wf_kept_def db_wf_empty)

lemma example_subject: "lit ''user-1'' \<noteq> []" "text_ok (lit ''user-1'')" "lit ''user-2'' \<noteq> []" "text_ok (lit ''user-2'')"
  "lit ''user-2'' \<noteq> lit ''user-1''"
  by (simp_all add: text_ok_def lit_def)

theorem get_alert_rule_exact_witness:
  "get_alert_rule example_ext 7 1 (lit ''user-2'') True example_db =
     (Inr (Some (rule_of_input 1 2 5 7 (lit ''user-1'') example_rule_normal)), example_db) \<and>
   get_alert_rule example_ext 8 1 (lit ''user-2'') True example_db \<noteq>
     (Inr (Some (rule_of_input 1 2 5 7 (lit ''user-1'') example_rule_normal)), example_db)"
proof -
  note g = get_alert_rule_exact [OF example_db_ok example_subject(3,4), of example_ext]
  have "json_f32 example_ext = Some"
    by (simp add: example_ext_def)
  then show ?thesis
    unfolding g by (simp add: example_db_def is_active_revision_def json_of_created)
qed

theorem list_alert_rules_contract_witness:
  "\<exists>rules. list_alert_rules example_ext 7 (lit ''user-1'') False example_db = (Inr rules, example_db) \<and>
     length rules \<le> 500 \<and> (\<forall>x \<in> set rules. ar_owner_subject x = lit ''user-1'')"
proof -
  have json: "json_f32 example_ext = Some"
    by (simp add: example_ext_def)
  have "\<exists>rules. list_alert_rules example_ext 7 (lit ''user-1'') False example_db = (Inr rules, example_db)"
    unfolding list_alert_rules_run [OF example_db_ok(2) example_subject(1,2)]
    by (simp add: authorised_rules_def example_db_def decode_json_row_def json_of_created
        is_active_revision_def json)
  then obtain rules where r: "list_alert_rules example_ext 7 (lit ''user-1'') False example_db = (Inr rules, example_db)"
    by blast
  then show ?thesis
    using list_alert_rules_contract [OF example_db_ok(2) example_subject(1,2) r] by auto
qed

end
