(* ===== verification/Store.thy ===== *)
theory Store
  imports Alert_Store
begin

text \<open>
  Sources, pages, search and match evaluation (\<^verbatim>\<open>src/store.rs\<close>). The request and response types of
  the interface crate are records with the fields the program uses. A statement with several
  data-modifying parts runs every part on the tables as they were when it began: a part sees the
  rows another part returns, never its effect on a table, and a row that one part has updated is
  skipped when another part updates it.
\<close>

section \<open>Requests and responses\<close>

record embedding_payload =
  ep_model :: rstr
  ep_model_version :: rstr
  ep_dimensions :: u32
  ep_normalization :: vector_normalization
  ep_values :: "f32 list"

record page_ingest_request =
  pi_source_id :: uuid
  pi_url :: rstr
  pi_final_url :: rstr
  pi_title :: "rstr option"
  pi_content_text :: rstr
  pi_content_type :: rstr
  pi_http_status :: u16
  pi_published_at :: "timestamp option"
  pi_fetched_at :: timestamp
  pi_embedding :: embedding_payload

record page_revision =
  pv_page_id :: uuid
  pv_revision_id :: uuid
  pv_embedding_id :: uuid
  pv_source_id :: uuid
  pv_tenant_id :: uuid
  pv_canonical_url :: rstr
  pv_content_sha256 :: rstr
  pv_changed :: bool
  pv_fetched_at :: timestamp

record search_cursor =
  cu_distance :: f64
  cu_embedding_id :: uuid

record embedding_search_request =
  es_embedding :: embedding_payload
  es_source_ids :: "uuid list"
  es_min_similarity :: f32
  es_limit :: u16
  es_cursor :: "search_cursor option"

record embedding_search_hit =
  eh_embedding_id :: uuid
  eh_revision_id :: uuid
  eh_page_id :: uuid
  eh_source_id :: uuid
  eh_canonical_url :: rstr
  eh_title :: "rstr option"
  eh_excerpt :: rstr
  eh_similarity :: f64
  eh_distance :: f64
  eh_model :: rstr
  eh_model_version :: rstr
  eh_dimensions :: u32
  eh_normalization :: vector_normalization
  eh_fetched_at :: timestamp

record search_record =
  sr_hit :: embedding_search_hit
  sr_content_sha256 :: rstr

record search_page =
  pa_hits :: "embedding_search_hit list"
  pa_next_cursor :: "search_cursor option"
  pa_records :: "search_record list"

section \<open>Encodings\<close>

fun normalization_name :: "vector_normalization \<Rightarrow> rstr" where
  "normalization_name NormNone = lit ''none''"
| "normalization_name NormL2 = lit ''l2''"
| "normalization_name NormUnitLength = lit ''unit_length''"

definition normalization_from_name :: "rstr \<Rightarrow> vector_normalization option" where
  "normalization_from_name s =
     (if s = lit ''none'' then Some NormNone else if s = lit ''l2'' then Some NormL2
      else if s = lit ''unit_length'' then Some NormUnitLength else None)"

definition normalize_content :: "rstr \<Rightarrow> rstr" where
  "normalize_content content = join [32] (split_whitespace content)"

definition vector_literal :: "ext \<Rightarrow> f32 list \<Rightarrow> rstr" where
  "vector_literal E values =
     [91] @ concat (map (\<lambda>(index, value). (if index > 0 then [44] else []) @ f32_display E value)
       (enumerate 0 values)) @ [93]"

definition sha256_hex :: "ext \<Rightarrow> bytes \<Rightarrow> rstr" where
  "sha256_hex E b = hex_encode E (sha256 E b)"

record match_identity =
  mi_tenant_id :: uuid
  mi_alert_rule_id :: uuid
  mi_alert_rule_revision_id :: uuid
  mi_page_revision_id :: uuid
  mi_content_sha256 :: rstr
  mi_model :: rstr
  mi_model_version :: rstr
  mi_dimensions :: u32
  mi_normalization :: vector_normalization

definition canonical_fields :: "ext \<Rightarrow> match_identity \<Rightarrow> rstr list" where
  "canonical_fields E m =
     [uuid_to_string E (mi_tenant_id m), uuid_to_string E (mi_alert_rule_id m),
      uuid_to_string E (mi_alert_rule_revision_id m), uuid_to_string E (mi_page_revision_id m),
      mi_content_sha256 m, mi_model m, mi_model_version m, show_nat (unat (mi_dimensions m)),
      normalization_name (mi_normalization m)]"

definition match_key :: "ext \<Rightarrow> match_identity \<Rightarrow> rstr" where
  "match_key E m = sha256_hex E (json_of_strings E (canonical_fields E m))"

definition json_of_f64 :: "f64 \<Rightarrow> json" where
  "json_of_f64 x = (if is_finite64 x then JNumber (FloatNumber x) else JNull)"

definition as_i32 :: "u32 \<Rightarrow> int" where
  "as_i32 x = sint x"

definition as_i16 :: "u16 \<Rightarrow> int" where
  "as_i16 x = sint x"

section \<open>Sources\<close>

definition list_sources :: "uuid \<Rightarrow> source_policy list stmt" where
  "list_sources tenant_id = query (\<lambda>db.
     take 500 (sort_key (\<lambda>s. (- sp_updated_at s, sp_id s))
       (filter (\<lambda>s. sp_tenant_id s = tenant_id) (db_sources db))))"

definition get_source :: "uuid \<Rightarrow> uuid \<Rightarrow> source_policy option stmt" where
  "get_source tenant_id source_id = query (\<lambda>db.
     find (\<lambda>s. sp_tenant_id s = tenant_id \<and> sp_id s = source_id) (db_sources db))"

definition source_row ::
  "timestamp \<Rightarrow> uuid \<Rightarrow> uuid \<Rightarrow> create_source_policy \<Rightarrow> rstr \<Rightarrow> source_policy" where
  "source_row now i tenant_id input canonical_root_url =
     \<lparr>sp_id = i, sp_tenant_id = tenant_id, sp_name = cs_name input, sp_root_url = canonical_root_url,
      sp_allowed_hosts = cs_allowed_hosts input,
      sp_allowed_path_prefixes = cs_allowed_path_prefixes input,
      sp_include_subdomains = cs_include_subdomains input,
      sp_discovery_modes = cs_discovery_modes input,
      sp_crawl_interval_seconds = as_i32 (cs_crawl_interval_seconds input),
      sp_max_depth = as_i16 (cs_max_depth input),
      sp_max_pages_per_run = as_i32 (cs_max_pages_per_run input),
      sp_obey_robots = cs_obey_robots input, sp_enabled = cs_enabled input,
      sp_created_at = now, sp_updated_at = now\<rparr>"

definition create_source ::
  "ext \<Rightarrow> timestamp \<Rightarrow> uuid \<Rightarrow> create_source_policy \<Rightarrow> rstr \<Rightarrow> source_policy stmt" where
  "create_source E now tenant_id input canonical_root_url =
     seq (statement (\<lambda>db.
       let row = source_row now (gen_uuid E (db_seed db)) tenant_id input canonical_root_url in
       case insert_on_conflict source_check source_key sp_id row (db_sources db) of
         None \<Rightarrow> None
       | Some (t, inserted) \<Rightarrow>
           Some (if inserted then Some row else None,
                 db\<lparr>db_seed := Suc (db_seed db), db_sources := t\<rparr>))) (\<lambda>row.
     of_result (ok_or (HttpError_conflict (lit ''a source with this canonical root URL already exists''))
       row))"

section \<open>Pages\<close>

text \<open>
  The upsert of a page by its unique key: \<^verbatim>\<open>INSERT INTO eal_pages ... ON CONFLICT DO UPDATE\<close>. The
  result is the row after the statement part.
\<close>

definition upsert_page ::
  "ext \<Rightarrow> timestamp \<Rightarrow> uuid \<Rightarrow> uuid \<Rightarrow> rstr \<Rightarrow> timestamp \<Rightarrow> db \<Rightarrow> (page_row \<times> db) option" where
  "upsert_page E now tenant_id source_id canonical_url seen_at db =
     (let p = \<lparr>pg_id = gen_uuid E (db_seed db), pg_tenant_id = tenant_id, pg_source_id = source_id,
               pg_canonical_url = canonical_url, pg_first_seen_at = seen_at, pg_last_seen_at = seen_at,
               pg_latest_revision_id = None, pg_created_at = now, pg_updated_at = now\<rparr>;
          touch = (\<lambda>q. q\<lparr>pg_last_seen_at := seen_at, pg_updated_at := now\<rparr>);
          db1 = db\<lparr>db_seed := Suc (db_seed db)\<rparr> in
      if \<not> page_check p then None
      else case find (\<lambda>q. page_key q = page_key p) (db_pages db) of
        Some q \<Rightarrow> Some (touch q, db1\<lparr>db_pages :=
            map (\<lambda>x. if page_key x = page_key p then touch x else x) (db_pages db)\<rparr>)
      | None \<Rightarrow>
          if pg_id p \<in> set (map pg_id (db_pages db)) \<or> \<not> has_source db source_id then None
          else Some (p, db1\<lparr>db_pages := db_pages db @ [p]\<rparr>))"

definition page_revision_row_of ::
  "ext \<Rightarrow> timestamp \<Rightarrow> uuid \<Rightarrow> uuid \<Rightarrow> uuid \<Rightarrow> uuid option \<Rightarrow> rstr \<Rightarrow> rstr \<Rightarrow> page_ingest_request \<Rightarrow>
   page_revision_row" where
  "page_revision_row_of E now i tenant_id page_id predecessor original_url final_url input =
     (let content = normalize_content (pi_content_text input) in
      \<lparr>pr_id = i, pr_tenant_id = tenant_id, pr_page_id = page_id,
       pr_predecessor_revision_id = predecessor, pr_original_url = original_url,
       pr_final_url = final_url,
       pr_title = (case pi_title input of None \<Rightarrow> None | Some t \<Rightarrow> if t = [] then None else Some t),
       pr_content_text = content, pr_content_sha256 = sha256_hex E (as_bytes content),
       pr_content_type = pi_content_type input, pr_http_status = as_i16 (pi_http_status input),
       pr_published_at = map_option (timestamptz E) (pi_published_at input),
       pr_fetched_at = timestamptz E (pi_fetched_at input), pr_created_at = now\<rparr>)"

text \<open>
  \<^verbatim>\<open>inserted_revision\<close>: one insertion per source row (predecessors), and \<^verbatim>\<open>selected_revision\<close>: the inserted
  revision, or the stored one with the same content, read from the tables at the start of the
  statement (\<open>snapshot\<close>).
\<close>

definition insert_revision ::
  "ext \<Rightarrow> (uuid \<Rightarrow> page_revision_row) \<Rightarrow> db \<Rightarrow> (page_revision_row option \<times> db) option" where
  "insert_revision E row_of db =
     (let row = row_of (gen_uuid E (db_seed db)) in
      case insert_on_conflict page_revision_check page_revision_key pr_id row (db_page_revisions db) of
        None \<Rightarrow> None
      | Some (t, inserted) \<Rightarrow>
          if inserted \<and> \<not> page_revision_fk db row then None
          else Some (if inserted then Some row else None,
                     db\<lparr>db_seed := Suc (db_seed db), db_page_revisions := t\<rparr>))"

definition select_revision ::
  "db \<Rightarrow> uuid \<Rightarrow> uuid \<Rightarrow> rstr \<Rightarrow> page_revision_row option \<Rightarrow> (uuid \<times> bool) list" where
  "select_revision snapshot tenant_id page_id content_sha256 inserted =
     (case inserted of
        Some row \<Rightarrow> [(pr_id row, True)]
      | None \<Rightarrow> take 1 (map (\<lambda>r. (pr_id r, False))
          (filter (\<lambda>r. pr_page_id r = page_id \<and> pr_tenant_id r = tenant_id \<and>
             pr_content_sha256 r = content_sha256) (db_page_revisions snapshot))))"

definition embedding_row_of ::
  "ext \<Rightarrow> timestamp \<Rightarrow> uuid \<Rightarrow> uuid \<Rightarrow> uuid \<Rightarrow> embedding_payload \<Rightarrow> f32 list \<Rightarrow> timestamp \<Rightarrow> embedding_row" where
  "embedding_row_of E now i tenant_id revision_id e vec generated_at =
     \<lparr>em_id = i, em_tenant_id = tenant_id, em_revision_id = revision_id, em_model = ep_model e,
      em_model_version = ep_model_version e, em_dimensions = as_i32 (ep_dimensions e),
      em_normalization = normalization_name (ep_normalization e), em_embedding = vec,
      em_generated_at = generated_at, em_created_at = now\<rparr>"

definition insert_embedding :: "ext \<Rightarrow> (uuid \<Rightarrow> embedding_row) \<Rightarrow> db \<Rightarrow> (embedding_row option \<times> db) option" where
  "insert_embedding E row_of db =
     (let row = row_of (gen_uuid E (db_seed db)) in
      case insert_on_conflict embedding_check embedding_key em_id row (db_embeddings db) of
        None \<Rightarrow> None
      | Some (t, inserted) \<Rightarrow>
          if inserted \<and> \<not> embedding_fk db row then None
          else Some (if inserted then Some row else None,
                     db\<lparr>db_seed := Suc (db_seed db), db_embeddings := t\<rparr>))"

text \<open>
  A part of a statement updates the rows of the snapshot that satisfy its condition and that no
  other part of the same statement has modified.
\<close>

definition rows_to_update :: "('r \<Rightarrow> uuid) \<Rightarrow> uuid list \<Rightarrow> ('r \<Rightarrow> bool) \<Rightarrow> 'r list \<Rightarrow> 'r list" where
  "rows_to_update pk modified P snapshot = filter (\<lambda>r. P r \<and> pk r \<notin> set modified) snapshot"

definition ingest_revisions ::
  "ext \<Rightarrow> timestamp \<Rightarrow> uuid \<Rightarrow> uuid \<Rightarrow> page_ingest_request \<Rightarrow> rstr \<Rightarrow> rstr \<Rightarrow> db \<Rightarrow> db \<Rightarrow>
   (page_revision_row option \<times> db) option" where
  "ingest_revisions E now tenant_id page_id input original_url final_url snapshot db =
     (case filter (\<lambda>p. pg_id p = page_id) (db_pages snapshot) of
        [] \<Rightarrow> Some (None, db)
      | current_page # _ \<Rightarrow>
          insert_revision E (\<lambda>i. page_revision_row_of E now i tenant_id page_id
            (pg_latest_revision_id current_page) original_url final_url input) db)"

definition ingest_embeddings ::
  "ext \<Rightarrow> timestamp \<Rightarrow> uuid \<Rightarrow> embedding_payload \<Rightarrow> f32 list \<Rightarrow> timestamp \<Rightarrow> (uuid \<times> bool) list \<Rightarrow> db \<Rightarrow>
   (embedding_row option \<times> db) option" where
  "ingest_embeddings E now tenant_id e vec generated_at revisions db =
     (case revisions of
        [] \<Rightarrow> Some (None, db)
      | (revision_id, _) # _ \<Rightarrow>
          insert_embedding E (\<lambda>i. embedding_row_of E now i tenant_id revision_id e vec generated_at) db)"

definition select_embedding ::
  "db \<Rightarrow> uuid \<Rightarrow> embedding_payload \<Rightarrow> (uuid \<times> bool) list \<Rightarrow> embedding_row option \<Rightarrow> uuid list" where
  "select_embedding snapshot tenant_id e revisions inserted =
     (case inserted of
        Some row \<Rightarrow> [em_id row]
      | None \<Rightarrow> take 1 (map em_id (filter (\<lambda>r. em_revision_id r \<in> fst ` set revisions \<and>
          em_tenant_id r = tenant_id \<and> em_model r = ep_model e \<and>
          em_model_version r = ep_model_version e \<and> em_dimensions r = as_i32 (ep_dimensions e) \<and>
          em_normalization r = normalization_name (ep_normalization e)) (db_embeddings snapshot))))"

definition ingest_statement ::
  "ext \<Rightarrow> timestamp \<Rightarrow> uuid \<Rightarrow> uuid \<Rightarrow> page_ingest_request \<Rightarrow> rstr \<Rightarrow> rstr \<Rightarrow> db \<Rightarrow>
   (page_revision list \<times> db) option" where
  "ingest_statement E now tenant_id source_id input original_url final_url db =
     do {
       ensure (list_all text_ok [final_url, original_url, (case pi_title input of None \<Rightarrow> [] | Some t \<Rightarrow> t),
         pi_content_text input, pi_content_type input, ep_model (pi_embedding input),
         ep_model_version (pi_embedding input)]);
       vec \<leftarrow> parse_vector E (vector_literal E (ep_values (pi_embedding input)));
       (page, db1) \<leftarrow> upsert_page E now tenant_id source_id final_url
         (timestamptz E (pi_fetched_at input)) db;
       (inserted, db2) \<leftarrow> ingest_revisions E now tenant_id (pg_id page) input original_url final_url db db1;
       let content_sha256 = sha256_hex E (as_bytes (normalize_content (pi_content_text input)));
       let revisions = select_revision db tenant_id (pg_id page) content_sha256 inserted;
       (inserted_embedding, db3) \<leftarrow> ingest_embeddings E now tenant_id (pi_embedding input) vec
         (timestamptz E (pi_fetched_at input)) revisions db2;
       let embeddings = select_embedding db tenant_id (pi_embedding input) revisions inserted_embedding;
       let updated = (if revisions = [] then []
         else rows_to_update pg_id [pg_id page] (\<lambda>p. pg_id p = pg_id page) (db_pages db));
       let db4 = db3\<lparr>db_pages := map (\<lambda>p. if pg_id p \<in> pg_id ` set updated
           then p\<lparr>pg_latest_revision_id := Some (fst (hd revisions)),
                  pg_last_seen_at := timestamptz E (pi_fetched_at input), pg_updated_at := now\<rparr>
           else p) (db_pages db3)\<rparr>;
       Some (map (\<lambda>(p, (r, changed), e).
           \<lparr>pv_page_id = pg_id p, pv_revision_id = r, pv_embedding_id = e, pv_source_id = source_id,
            pv_tenant_id = tenant_id, pv_canonical_url = final_url,
            pv_content_sha256 = content_sha256, pv_changed = changed,
            pv_fetched_at = timestamptz E (pi_fetched_at input)\<rparr>)
         (List.product updated (List.product revisions embeddings)), db4)
     }"

definition ingest_page ::
  "ext \<Rightarrow> timestamp \<Rightarrow> uuid \<Rightarrow> uuid \<Rightarrow> page_ingest_request \<Rightarrow> rstr \<Rightarrow> rstr \<Rightarrow> page_revision stmt" where
  "ingest_page E now tenant_id source_id input canonical_original_url canonical_final_url =
     seq (statement (ingest_statement E now tenant_id source_id input canonical_original_url
       canonical_final_url)) (\<lambda>rows.
     case rows of
       [] \<Rightarrow> fail (HttpError_internal (lit ''page ingestion returned no durable record''))
     | row # _ \<Rightarrow> ret row)"

section \<open>Search\<close>

text \<open>A row of \<^verbatim>\<open>ranked\<close>: an embedding with its revision, its page and its distance to the query.\<close>

record ranked_row =
  rk_embedding :: embedding_row
  rk_revision :: page_revision_row
  rk_page :: page_row
  rk_distance :: f64

definition search_joins ::
  "uuid \<Rightarrow> embedding_search_request \<Rightarrow> db \<Rightarrow> (embedding_row \<times> page_revision_row \<times> page_row) list" where
  "search_joins tenant_id request db =
     filter (\<lambda>(e, r, p). pr_id r = em_revision_id e \<and> pr_tenant_id r = em_tenant_id e \<and>
         pg_id p = pr_page_id r \<and> pg_tenant_id p = pr_tenant_id r \<and>
         em_tenant_id e = tenant_id \<and> em_model e = ep_model (es_embedding request) \<and>
         em_model_version e = ep_model_version (es_embedding request) \<and>
         em_dimensions e = as_i32 (ep_dimensions (es_embedding request)) \<and>
         em_normalization e = normalization_name (ep_normalization (es_embedding request)) \<and>
         (es_source_ids request = [] \<or> pg_source_id p \<in> set (es_source_ids request)))
       (List.product (db_embeddings db) (List.product (db_page_revisions db) (db_pages db)))"

primrec rank_rows ::
  "ext \<Rightarrow> f32 list \<Rightarrow> (embedding_row \<times> page_revision_row \<times> page_row) list \<Rightarrow> ranked_row list option" where
  "rank_rows E vec [] = Some []"
| "rank_rows E vec (x # xs) =
     (case x of (e, r, p) \<Rightarrow>
        do { d \<leftarrow> cosine_distance E (em_embedding e) vec;
             rows \<leftarrow> rank_rows E vec xs;
             Some (\<lparr>rk_embedding = e, rk_revision = r, rk_page = p, rk_distance = d\<rparr> # rows) })"

definition similarity_of :: "ranked_row \<Rightarrow> f64" where
  "similarity_of row = sub64 one64 (rk_distance row)"

definition after_cursor :: "search_cursor option \<Rightarrow> ranked_row \<Rightarrow> bool" where
  "after_cursor cursor row =
     (case cursor of
        None \<Rightarrow> True
      | Some c \<Rightarrow> pg_lt (cu_distance c) (rk_distance row) \<or>
          pg_key (rk_distance row) = pg_key (cu_distance c) \<and>
          cu_embedding_id c < em_id (rk_embedding row))"

definition row_order :: "ranked_row \<Rightarrow> int \<times> uuid" where
  "row_order row = (pg_key (rk_distance row), em_id (rk_embedding row))"

definition search_statement ::
  "ext \<Rightarrow> uuid \<Rightarrow> embedding_search_request \<Rightarrow> db \<Rightarrow> (ranked_row list \<times> db) option" where
  "search_statement E tenant_id request db =
     do {
       ensure (text_ok (ep_model (es_embedding request)) \<and> text_ok (ep_model_version (es_embedding request)));
       vec \<leftarrow> parse_vector E (vector_literal E (ep_values (es_embedding request)));
       ranked \<leftarrow> rank_rows E vec (search_joins tenant_id request db);
       let filtered = filter (\<lambda>row. pg_le (f64_from (es_min_similarity request)) (similarity_of row)) ranked;
       Some (take (unat (es_limit request) + 1)
         (sort_key row_order (filter (after_cursor (es_cursor request)) filtered)), db)
     }"

definition into_record :: "ext \<Rightarrow> ranked_row \<Rightarrow> search_record option" where
  "into_record E row =
     do {
       similarity \<leftarrow> json_f64 E (similarity_of row);
       distance \<leftarrow> json_f64 E (rk_distance row);
       normalization \<leftarrow> normalization_from_name (em_normalization (rk_embedding row));
       Some \<lparr>sr_hit = \<lparr>eh_embedding_id = em_id (rk_embedding row), eh_revision_id = pr_id (rk_revision row),
              eh_page_id = pg_id (rk_page row), eh_source_id = pg_source_id (rk_page row),
              eh_canonical_url = pg_canonical_url (rk_page row), eh_title = pr_title (rk_revision row),
              eh_excerpt = take 600 (pr_content_text (rk_revision row)), eh_similarity = similarity,
              eh_distance = distance, eh_model = em_model (rk_embedding row),
              eh_model_version = em_model_version (rk_embedding row),
              eh_dimensions = word_of_int (em_dimensions (rk_embedding row)),
              eh_normalization = normalization, eh_fetched_at = pr_fetched_at (rk_revision row)\<rparr>,
             sr_content_sha256 = pr_content_sha256 (rk_revision row)\<rparr>
     }"

definition search_result :: "nat \<Rightarrow> search_record list \<Rightarrow> search_page" where
  "search_result requested all_records =
     (let has_more = length all_records > requested;
          records = (if has_more then take requested all_records else all_records);
          next_cursor = (if has_more then
              (if records = [] then None
               else Some \<lparr>cu_distance = eh_distance (sr_hit (last records)),
                          cu_embedding_id = eh_embedding_id (sr_hit (last records))\<rparr>)
            else None) in
      \<lparr>pa_hits = map sr_hit records, pa_next_cursor = next_cursor, pa_records = records\<rparr>)"

definition search_embeddings :: "ext \<Rightarrow> uuid \<Rightarrow> embedding_search_request \<Rightarrow> search_page stmt" where
  "search_embeddings E tenant_id request =
     seq (statement (search_statement E tenant_id request)) (\<lambda>rows.
     seq (of_result (traverse (\<lambda>row. decode_json_row (into_record E row)) rows)) (\<lambda>records.
     ret (search_result (unat (es_limit request)) records)))"

section \<open>Match evaluation\<close>

definition insert_candidate :: "ext \<Rightarrow> (uuid \<Rightarrow> candidate_row) \<Rightarrow> db \<Rightarrow> (candidate_row option \<times> db) option" where
  "insert_candidate E row_of db =
     (let row = row_of (gen_uuid E (db_seed db)) in
      case insert_on_conflict candidate_check candidate_key mc_id row (db_candidates db) of
        None \<Rightarrow> None
      | Some (t, inserted) \<Rightarrow>
          if inserted \<and> \<not> candidate_fk db row then None
          else Some (if inserted then Some row else None,
                     db\<lparr>db_seed := Suc (db_seed db), db_candidates := t\<rparr>))"

definition decode_candidate :: "ext \<Rightarrow> candidate_row \<Rightarrow> candidate_row option" where
  "decode_candidate E row =
     do { similarity \<leftarrow> json_f64 E (mc_similarity row);
          threshold \<leftarrow> json_f64 E (mc_threshold row);
          Some (row\<lparr>mc_similarity := similarity, mc_threshold := threshold\<rparr>) }"

definition match_explanation :: "ext \<Rightarrow> uuid \<Rightarrow> f64 \<Rightarrow> search_record \<Rightarrow> json" where
  "match_explanation E alert_rule_revision_id threshold record =
     (let hit = sr_hit record in JObject
       [(lit ''semantic_similarity'', json_of_f64 (eh_similarity hit)),
        (lit ''threshold'', json_of_f64 threshold),
        (lit ''alert_rule_revision_id'', JString (uuid_to_string E alert_rule_revision_id)),
        (lit ''page_revision_id'', JString (uuid_to_string E (eh_revision_id hit))),
        (lit ''model'', JString (eh_model hit)),
        (lit ''model_version'', JString (eh_model_version hit)),
        (lit ''dimensions'', JNumber (PosInt (unat (eh_dimensions hit)))),
        (lit ''normalization'', JString (normalization_name (eh_normalization hit))),
        (lit ''canonical_url'', JString (eh_canonical_url hit)),
        (lit ''content_sha256'', JString (sr_content_sha256 record))])"

definition hit_identity :: "uuid \<Rightarrow> uuid \<Rightarrow> uuid \<Rightarrow> search_record \<Rightarrow> match_identity" where
  "hit_identity tenant_id alert_rule_id alert_rule_revision_id record =
     \<lparr>mi_tenant_id = tenant_id, mi_alert_rule_id = alert_rule_id,
      mi_alert_rule_revision_id = alert_rule_revision_id,
      mi_page_revision_id = eh_revision_id (sr_hit record),
      mi_content_sha256 = sr_content_sha256 record, mi_model = eh_model (sr_hit record),
      mi_model_version = eh_model_version (sr_hit record),
      mi_dimensions = eh_dimensions (sr_hit record),
      mi_normalization = eh_normalization (sr_hit record)\<rparr>"

definition historical_candidate ::
  "ext \<Rightarrow> timestamp \<Rightarrow> uuid \<Rightarrow> uuid \<Rightarrow> uuid \<Rightarrow> f64 \<Rightarrow> search_record \<Rightarrow> uuid \<Rightarrow> candidate_row" where
  "historical_candidate E now tenant_id alert_rule_id alert_rule_revision_id threshold record i =
     \<lparr>mc_id = i, mc_tenant_id = tenant_id, mc_alert_rule_id = alert_rule_id,
      mc_alert_rule_revision_id = Some alert_rule_revision_id,
      mc_revision_id = eh_revision_id (sr_hit record),
      mc_embedding_id = Some (eh_embedding_id (sr_hit record)),
      mc_match_mode = lit ''historical_page_search'', mc_alert_embedding_id = None,
      mc_page_embedding_sha256 = None, mc_page_embedding_model = None,
      mc_page_embedding_model_version = None, mc_page_embedding_dimensions = None,
      mc_page_embedding_normalization = None,
      mc_canonical_match_key =
        match_key E (hit_identity tenant_id alert_rule_id alert_rule_revision_id record),
      mc_similarity = eh_similarity (sr_hit record), mc_threshold = threshold,
      mc_status = lit ''pending'',
      mc_score_explanation = match_explanation E alert_rule_revision_id threshold record,
      mc_created_at = now, mc_updated_at = now\<rparr>"

text \<open>The stored candidate that a repeated evaluation of a record finds.\<close>

definition candidate_of ::
  "ext \<Rightarrow> uuid \<Rightarrow> uuid \<Rightarrow> uuid \<Rightarrow> search_record \<Rightarrow> candidate_row \<Rightarrow> bool" where
  "candidate_of E tenant_id alert_rule_id alert_rule_revision_id record c \<longleftrightarrow>
     mc_tenant_id c = tenant_id \<and> mc_alert_rule_id c = alert_rule_id \<and>
     mc_alert_rule_revision_id c = Some alert_rule_revision_id \<and>
     mc_revision_id c = eh_revision_id (sr_hit record) \<and>
     mc_embedding_id c = Some (eh_embedding_id (sr_hit record)) \<and>
     mc_canonical_match_key c =
       match_key E (hit_identity tenant_id alert_rule_id alert_rule_revision_id record)"

text \<open>
  The statement both kinds of match share: insert the candidate, or select the stored one with
  the same evidence; the caller decodes the row or reports that there is none.
\<close>

definition candidate_upsert ::
  "ext \<Rightarrow> (uuid \<Rightarrow> candidate_row) \<Rightarrow> (db \<Rightarrow> candidate_row \<Rightarrow> bool) \<Rightarrow> (candidate_row \<Rightarrow> 'a option) \<Rightarrow> http_error \<Rightarrow>
   'a stmt" where
  "candidate_upsert E row_of existing decode missing =
     seq (statement (\<lambda>db.
       do {
         (upserted, db1) \<leftarrow> insert_candidate E row_of db;
         Some (case upserted of
             Some row \<Rightarrow> [row]
           | None \<Rightarrow> take 1 (filter (existing db) (db_candidates db)), db1)
       })) (\<lambda>rows.
     seq (of_result (decode_row decode rows)) (\<lambda>row.
     of_result (ok_or missing row)))"

definition upsert_candidate ::
  "ext \<Rightarrow> timestamp \<Rightarrow> uuid \<Rightarrow> uuid \<Rightarrow> uuid \<Rightarrow> f64 \<Rightarrow> search_record \<Rightarrow> candidate_row stmt" where
  "upsert_candidate E now tenant_id alert_rule_id alert_rule_revision_id threshold record =
     candidate_upsert E
       (historical_candidate E now tenant_id alert_rule_id alert_rule_revision_id threshold record)
       (\<lambda>db. candidate_of E tenant_id alert_rule_id alert_rule_revision_id record)
       (decode_candidate E) (HttpError_internal (lit ''match upsert returned no durable record''))"

definition evaluate_matches ::
  "ext \<Rightarrow> timestamp \<Rightarrow> uuid \<Rightarrow> uuid \<Rightarrow> uuid \<Rightarrow> f64 \<Rightarrow> embedding_search_request \<Rightarrow> candidate_row list stmt" where
  "evaluate_matches E now tenant_id alert_rule_id alert_rule_revision_id threshold search =
     seq (search_embeddings E tenant_id
       (search\<lparr>es_min_similarity := max32 (es_min_similarity search) (f32_from threshold)\<rparr>)) (\<lambda>page.
     map_stmt (upsert_candidate E now tenant_id alert_rule_id alert_rule_revision_id threshold)
       (pa_records page))"

end
