(* ===== verification/Store_Integrity.thy ===== *)
theory Store_Integrity
  imports Store
begin

text \<open>
  Every operation of the source, page and match store keeps the invariant of the tables, takes
  no evidence back and leaves the rows of other tenants alone (\<open>sound_step\<close>), statement part by
  statement part.
\<close>

section \<open>Integrity of the statements\<close>

lemma db_wf_map_pages:
  assumes wf: "db_wf db"
    and f: "\<And>p. page_identity (f p) = page_identity p"
      "\<And>p. p \<in> set (db_pages db) \<Longrightarrow> null_or (has_page_revision db) (pg_latest_revision_id (f p))"
  shows "db_wf (db\<lparr>db_pages := map f (db_pages db)\<rparr>)" (is "db_wf ?db'")
proof -
  have keys: "page_key (f p) = page_key p" "pg_id (f p) = pg_id p" "page_check (f p) = page_check p"
    "pg_source_id (f p) = pg_source_id p" for p
    using f(1) [of p] by (simp_all add: page_identity_def page_key_def page_check_def)
  have mono: "ids_kept db ?db'"
    by (auto simp: ids_kept_def fk_defs list_ex_iff keys)
  have "table_ok page_check page_key pg_id (map f (db_pages db))"
    using wf by (intro table_ok_map) (simp_all add: keys db_wf_def tables_ok_def)
  moreover have "list_all (page_fk ?db') (map f (db_pages db))"
    using wf f(2) fk_mono(4) [OF mono]
    by (auto simp: db_wf_def references_ok_def list_all_iff page_fk_def keys has_source_def
        has_page_revision_def [abs_def])
  ultimately show ?thesis
    using wf fk_all_mono [OF mono]
    by (auto simp: db_wf_def tables_ok_def references_ok_def within_limit_def enabled_active_def
        is_enabled_active_def)
qed

text \<open>A statement part that keeps the invariant, the evidence and the tenant's frame.\<close>

definition sound_step :: "uuid \<Rightarrow> db \<Rightarrow> db \<Rightarrow> bool" where
  "sound_step tenant db db' \<longleftrightarrow> wf_kept db db' \<and> evidence_kept db db' \<and> tenant_frame tenant db db'"

interpretation sound: stmt_relation "sound_step tenant" for tenant
  by unfold_locales
    (auto simp: sound_step_def
      intro: wf.R_refl wf.R_trans wf.R_seed wf.R_settings evidence.R_refl evidence.R_trans evidence.R_seed
        evidence.R_settings frame.R_refl frame.R_trans frame.R_seed frame.R_settings)

lemma sound_seed: "sound_step t db db' \<Longrightarrow> sound_step t db (db'\<lparr>db_seed := n\<rparr>)"
  using sound.R_trans sound.R_seed by blast

lemma map_pages_sound:
  assumes "\<And>p. page_identity (f p) = page_identity p"
    and "\<And>p. db_wf db \<Longrightarrow> p \<in> set (db_pages db) \<Longrightarrow> null_or (has_page_revision db) (pg_latest_revision_id (f p))"
    and "\<And>p. pg_tenant_id p \<noteq> t \<Longrightarrow> f p = p"
  shows "sound_step t db (db\<lparr>db_pages := map f (db_pages db)\<rparr>)"
proof -
  have "pg_tenant_id (f p) = pg_tenant_id p" for p
    using assms(1) [of p] by (simp add: page_identity_def)
  then show ?thesis
    using assms db_wf_map_pages [of db f] foreign_map [of pg_tenant_id t f "db_pages db"]
    by (simp add: sound_step_def wf_kept_def evidence_kept_def tenant_frame_def comp_def)
qed

lemma upsert_page_sound:
  assumes "upsert_page E now t s url seen db = Some (p, db')"
  shows "sound_step t db db'"
proof -
  let ?p = "\<lparr>pg_id = gen_uuid E (db_seed db), pg_tenant_id = t, pg_source_id = s, pg_canonical_url = url,
    pg_first_seen_at = seen, pg_last_seen_at = seen, pg_latest_revision_id = None,
    pg_created_at = now, pg_updated_at = now\<rparr>"
  let ?touch = "\<lambda>q. if page_key q = page_key ?p then q\<lparr>pg_last_seen_at := seen, pg_updated_at := now\<rparr> else q"
  consider (new) "find (\<lambda>q. page_key q = page_key ?p) (db_pages db) = None" "page_check ?p"
      "pg_id ?p \<notin> pg_id ` set (db_pages db)" "has_source db s"
      "db' = db\<lparr>db_pages := db_pages db @ [?p]\<rparr>\<lparr>db_seed := Suc (db_seed db)\<rparr>"
    | (old) "db' = db\<lparr>db_pages := map ?touch (db_pages db)\<rparr>\<lparr>db_seed := Suc (db_seed db)\<rparr>"
    using assms by (auto simp: upsert_page_def Let_def split: if_splits option.splits)
  then show ?thesis
  proof cases
    case new
    then have ins: "insert_on_conflict page_check page_key pg_id ?p (db_pages db) = Some (db_pages db @ [?p], True)"
      by (auto simp: pages.ins_new find_None_iff)
    have "sound_step t db (db\<lparr>db_pages := db_pages db @ [?p]\<rparr>)"
      using db_wf_insert(3) [OF _ ins] new(4)
      by (auto simp: sound_step_def wf_kept_def evidence_kept_def tenant_frame_def page_fk_def null_or_def)
    then show ?thesis
      unfolding new(5) by (rule sound_seed)
  next
    case old
    have "sound_step t db (db\<lparr>db_pages := map ?touch (db_pages db)\<rparr>)"
    proof (rule map_pages_sound)
      show "null_or (has_page_revision db) (pg_latest_revision_id (?touch q))"
        if "db_wf db" "q \<in> set (db_pages db)" for q
        using that by (auto simp: db_wf_def references_ok_def list_all_iff page_fk_def)
    qed (auto simp: page_identity_def page_key_def)
    then show ?thesis
      unfolding old by (rule sound_seed)
  qed
qed

lemma insert_revision_sound:
  assumes "insert_revision E row_of db = Some (r, db')" and "\<And>i. pr_tenant_id (row_of i) = t"
  shows "sound_step t db db'"
proof -
  let ?row = "row_of (gen_uuid E (db_seed db))"
  from assms(1) obtain ts b where ins: "insert_on_conflict page_revision_check page_revision_key pr_id ?row
      (db_page_revisions db) = Some (ts, b)"
    and fk: "b \<Longrightarrow> page_revision_fk db ?row"
    and db': "db' = db\<lparr>db_page_revisions := ts\<rparr>\<lparr>db_seed := Suc (db_seed db)\<rparr>"
    by (auto simp: insert_revision_def Let_def split: option.splits if_splits)
  have "sound_step t db (db\<lparr>db_page_revisions := ts\<rparr>)"
    using assms(2) db_wf_insert(4) [OF _ ins] fk
    by (cases rule: page_revisions.ins_cases [OF ins])
      (auto simp: sound_step_def wf_kept_def evidence_kept_def tenant_frame_def)
  then show ?thesis
    unfolding db' by (rule sound_seed)
qed

lemma insert_embedding_sound:
  assumes "insert_embedding E row_of db = Some (r, db')" and "\<And>i. em_tenant_id (row_of i) = t"
  shows "sound_step t db db'"
proof -
  let ?row = "row_of (gen_uuid E (db_seed db))"
  from assms(1) obtain ts b where ins: "insert_on_conflict embedding_check embedding_key em_id ?row
      (db_embeddings db) = Some (ts, b)"
    and fk: "b \<Longrightarrow> embedding_fk db ?row"
    and db': "db' = db\<lparr>db_embeddings := ts\<rparr>\<lparr>db_seed := Suc (db_seed db)\<rparr>"
    by (auto simp: insert_embedding_def Let_def split: option.splits if_splits)
  have "sound_step t db (db\<lparr>db_embeddings := ts\<rparr>)"
    using assms(2) db_wf_insert(5) [OF _ ins] fk
    by (cases rule: embeddings.ins_cases [OF ins])
      (auto simp: sound_step_def wf_kept_def evidence_kept_def tenant_frame_def)
  then show ?thesis
    unfolding db' by (rule sound_seed)
qed

lemma insert_candidate_sound:
  assumes "insert_candidate E row_of db = Some (r, db')" and "\<And>i. mc_tenant_id (row_of i) = t"
  shows "sound_step t db db'"
proof -
  let ?row = "row_of (gen_uuid E (db_seed db))"
  from assms(1) obtain ts b where ins: "insert_on_conflict candidate_check candidate_key mc_id ?row
      (db_candidates db) = Some (ts, b)"
    and fk: "b \<Longrightarrow> candidate_fk db ?row"
    and db': "db' = db\<lparr>db_candidates := ts\<rparr>\<lparr>db_seed := Suc (db_seed db)\<rparr>"
    by (auto simp: insert_candidate_def Let_def split: option.splits if_splits)
  have "sound_step t db (db\<lparr>db_candidates := ts\<rparr>)"
    using assms(2) db_wf_insert(6) [OF _ ins] fk
    by (cases rule: candidates.ins_cases [OF ins])
      (auto simp: sound_step_def wf_kept_def evidence_kept_def tenant_frame_def)
  then show ?thesis
    unfolding db' by (rule sound_seed)
qed

lemma no_second_update: "rows_to_update pk [i] (\<lambda>r. pk r = i) t = []"
  by (auto simp: rows_to_update_def filter_empty_conv)

lemma ingest_statement_cases:
  assumes "ingest_statement E now t s input orig fin db = Some (rows, db')"
  obtains vec page db1 inserted db2 emb revisions where
    "parse_vector E (vector_literal E (ep_values (pi_embedding input))) = Some vec"
    "upsert_page E now t s fin (timestamptz E (pi_fetched_at input)) db = Some (page, db1)"
    "ingest_revisions E now t (pg_id page) input orig fin db db1 = Some (inserted, db2)"
    "revisions = select_revision db t (pg_id page)
       (sha256_hex E (as_bytes (normalize_content (pi_content_text input)))) inserted"
    "ingest_embeddings E now t (pi_embedding input) vec (timestamptz E (pi_fetched_at input)) revisions db2
       = Some (emb, db')"
    "rows = []"
  using assms
  by (auto simp: ingest_statement_def bind_eq_Some_conv Let_def no_second_update map_idI split: prod.splits)

lemma ingest_statement_sound:
  assumes "ingest_statement E now t s input orig fin db = Some (rows, db')"
  shows "sound_step t db db'"
proof (cases rule: ingest_statement_cases [OF assms])
  case (1 vec page db1 inserted db2 emb revisions)
  have "sound_step t db db1"
    using 1(2) by (rule upsert_page_sound)
  moreover have "sound_step t db1 db2"
    using 1(3) by (auto simp: ingest_revisions_def page_revision_row_of_def Let_def sound.R_refl
        split: list.splits elim!: insert_revision_sound)
  moreover have "sound_step t db2 db'"
    using 1(5) by (auto simp: ingest_embeddings_def embedding_row_of_def sound.R_refl
        split: list.splits elim!: insert_embedding_sound)
  ultimately show ?thesis
    using sound.R_trans by blast
qed

lemma ingest_page_sound: "sound_step t db (snd (ingest_page E now t s input orig fin db))"
  unfolding ingest_page_def
  by (intro sound.R_seq sound.R_statement)
    (auto intro: ingest_statement_sound sound.R_fail sound.R_ret split: list.split)

lemma create_source_sound: "sound_step t db (snd (create_source E now t input root db))"
proof -
  have "sound_step t db db'"
    if "(let row = source_row now (gen_uuid E (db_seed db)) t input root in
       case insert_on_conflict source_check source_key sp_id row (db_sources db) of
         None \<Rightarrow> None
       | Some (ts, inserted) \<Rightarrow> Some (if inserted then Some row else None,
                 db\<lparr>db_seed := Suc (db_seed db), db_sources := ts\<rparr>)) = Some (x, db')" for x db'
  proof -
    let ?row = "source_row now (gen_uuid E (db_seed db)) t input root"
    from that obtain ts b where ins: "insert_on_conflict source_check source_key sp_id ?row (db_sources db) = Some (ts, b)"
      and db': "db' = db\<lparr>db_sources := ts\<rparr>\<lparr>db_seed := Suc (db_seed db)\<rparr>"
      by (auto simp: Let_def split: option.splits)
    have "sp_tenant_id ?row = t" by (simp add: source_row_def)
    then have "sound_step t db (db\<lparr>db_sources := ts\<rparr>)"
      using db_wf_insert(1) [OF _ ins]
      by (cases rule: sources.ins_cases [OF ins])
        (auto simp: sound_step_def wf_kept_def evidence_kept_def tenant_frame_def)
    then show ?thesis
      unfolding db' by (rule sound_seed)
  qed
  then show ?thesis
    unfolding create_source_def by (intro sound.R_seq sound.R_statement sound.R_of_result) blast
qed

lemma search_statement_db: "search_statement E t request db = Some (rows, db') \<Longrightarrow> db' = db"
  by (auto simp: search_statement_def bind_eq_Some_conv Let_def)

lemma search_embeddings_read_only: "snd (search_embeddings E t request db) = db"
  by (auto simp: search_embeddings_def seq_def statement_def of_result_def ret_def
      dest: search_statement_db split: option.splits prod.splits sum.splits)

lemma candidate_upsert_sound:
  assumes "\<And>i. mc_tenant_id (row_of i) = t"
  shows "sound_step t db (snd (candidate_upsert E row_of existing decode missing db))"
  unfolding candidate_upsert_def
  by (intro sound.R_seq sound.R_statement sound.R_of_result)
    (use assms in \<open>auto simp: bind_eq_Some_conv elim!: insert_candidate_sound split: prod.splits\<close>)

lemma upsert_candidate_sound: "sound_step t db (snd (upsert_candidate E now t a v th record db))"
  unfolding upsert_candidate_def by (rule candidate_upsert_sound) (simp add: historical_candidate_def)

lemma evaluate_matches_sound: "sound_step t db (snd (evaluate_matches E now t a v th search db))"
  unfolding evaluate_matches_def
  by (intro sound.R_seq sound.R_map_stmt upsert_candidate_sound)
    (simp add: search_embeddings_read_only sound.R_refl)

end
