(* ===== verification/Search.thy ===== *)
theory Search
  imports Store_Integrity
begin

text \<open>
  The ranked search of \<^verbatim>\<open>src/store.rs\<close>: the order of its result, its scope, and the equivalence of
  following the cursors page by page with the unpaginated result.
\<close>

lemma normalization_round_trip: "normalization_from_name (normalization_name n) = Some n"
  by (cases n) (simp_all add: normalization_from_name_def lit_def)

lemma traverse_all_Inr:
  "(\<And>x. x \<in> set xs \<Longrightarrow> f x = Inr (g x)) \<Longrightarrow> traverse f xs = Inr (map g xs)"
  by (simp add: traverse_eq_Inr)

lemma Inr_eq_traverse: "Inr ys = traverse f xs \<longleftrightarrow> traverse f xs = Inr ys"
  by (rule eq_commute)

section \<open>Pages of a search\<close>

text \<open>All rows a search ranks, in the order of the result, before the cursor and the limit.\<close>

definition search_order :: "ext \<Rightarrow> uuid \<Rightarrow> embedding_search_request \<Rightarrow> db \<Rightarrow> ranked_row list option" where
  "search_order E tenant_id request db =
     do {
       ensure (text_ok (ep_model (es_embedding request)) \<and> text_ok (ep_model_version (es_embedding request)));
       vec \<leftarrow> parse_vector E (vector_literal E (ep_values (es_embedding request)));
       ranked \<leftarrow> rank_rows E vec (search_joins tenant_id request db);
       Some (sort_key row_order
         (filter (\<lambda>row. pg_le (f64_from (es_min_similarity request)) (similarity_of row)) ranked))
     }"

lemma search_statement_order:
  "search_statement E t request db =
     map_option (\<lambda>rows. (take (unat (es_limit request) + 1) (filter (after_cursor (es_cursor request)) rows), db))
       (search_order E t request db)"
  unfolding search_statement_def search_order_def Let_def
  by (simp add: ensure_def filter_sort split: Option.bind_splits)

lemma search_order_cursor:
  "search_order E t (request\<lparr>es_cursor := c\<rparr>) db = search_order E t request db"
  by (simp add: search_order_def search_joins_def)

text \<open>The rows after position \<open>k\<close> of a strictly ordered list are those after its cursor.\<close>

definition cursor_of :: "ranked_row \<Rightarrow> search_cursor" where
  "cursor_of row = \<lparr>cu_distance = rk_distance row, cu_embedding_id = em_id (rk_embedding row)\<rparr>"

lemma after_cursor_of: "after_cursor (Some (cursor_of r)) = (\<lambda>row. row_order r < row_order row)"
  by (auto simp: after_cursor_def cursor_of_def row_order_def pg_lt_def fun_eq_iff)

lemma filter_after_nth:
  fixes f :: "'a \<Rightarrow> 'b::linorder"
  assumes "sorted_wrt (<) (map f xs)" and "k < length xs"
  shows "filter (\<lambda>x. f (xs ! k) < f x) xs = drop (Suc k) xs"
proof -
  have "filter (\<lambda>x. f (xs ! k) < f x) (take (Suc k) xs) = []"
    using assms by (fastforce simp: filter_empty_conv in_set_conv_nth sorted_wrt_iff_nth_less not_less less_Suc_eq
        intro: order.strict_implies_order)
  moreover have "filter (\<lambda>x. f (xs ! k) < f x) (drop (Suc k) xs) = drop (Suc k) xs"
    using assms by (auto simp: filter_id_conv in_set_conv_nth sorted_wrt_iff_nth_less)
  ultimately show ?thesis
    by (metis append_Nil append_take_drop_id filter_append)
qed

lemma rank_rows_embeddings: "rank_rows E vec xs = Some rows \<Longrightarrow> map rk_embedding rows = map fst xs"
  by (induction xs arbitrary: rows) (auto simp: bind_eq_Some_conv split: prod.splits)

lemma search_joins_distinct:
  assumes "db_wf db"
  shows "distinct (map (em_id \<circ> fst) (search_joins t request db))"
proof -
  have "distinct (db_embeddings db)" "distinct (db_page_revisions db)" "distinct (db_pages db)"
    using assms by (auto simp: db_wf_def tables_ok_def table_ok_def distinct_map)
  then have "distinct (search_joins t request db)"
    unfolding search_joins_def by (intro distinct_filter distinct_product)
  moreover have "inj_on (em_id \<circ> fst) (set (search_joins t request db))"
  proof (rule inj_onI)
    fix x y
    assume x: "x \<in> set (search_joins t request db)" and y: "y \<in> set (search_joins t request db)"
      and eq: "(em_id \<circ> fst) x = (em_id \<circ> fst) y"
    obtain e r p e' r' p' where xy: "x = (e, r, p)" "y = (e', r', p')"
      by (cases x, cases y) auto
    have mem: "e \<in> set (db_embeddings db)" "e' \<in> set (db_embeddings db)"
      "r \<in> set (db_page_revisions db)" "r' \<in> set (db_page_revisions db)"
      "p \<in> set (db_pages db)" "p' \<in> set (db_pages db)"
      and join: "pr_id r = em_revision_id e" "pr_id r' = em_revision_id e'"
        "pg_id p = pr_page_id r" "pg_id p' = pr_page_id r'"
      using x y by (simp_all add: xy search_joins_def)
    have ok: "table_ok embedding_check embedding_key em_id (db_embeddings db)"
      "table_ok page_revision_check page_revision_key pr_id (db_page_revisions db)"
      "table_ok page_check page_key pg_id (db_pages db)"
      using assms by (simp_all add: db_wf_def tables_ok_def)
    have e: "e = e'"
      using embeddings.pk_unique [OF ok(1) mem(1,2)] eq by (simp add: xy)
    have r: "r = r'"
      using page_revisions.pk_unique [OF ok(2) mem(3,4)] join e by simp
    have "p = p'"
      using pages.pk_unique [OF ok(3) mem(5,6)] join r by simp
    with e r show "x = y" by (simp add: xy)
  qed
  ultimately show ?thesis
    by (simp add: distinct_map)
qed

lemma search_order_ids:
  assumes "db_wf db" and "search_order E t request db = Some rows"
  shows "distinct (map (em_id \<circ> rk_embedding) rows)" and "sorted (map row_order rows)"
proof -
  from assms(2) obtain vec ranked where ranked: "rank_rows E vec (search_joins t request db) = Some ranked"
    and rows: "rows = sort_key row_order
      (filter (\<lambda>row. pg_le (f64_from (es_min_similarity request)) (similarity_of row)) ranked)"
    by (auto simp: search_order_def bind_eq_Some_conv)
  have "map (em_id \<circ> rk_embedding) ranked = map (em_id \<circ> fst) (search_joins t request db)"
    using rank_rows_embeddings [OF ranked] by (metis map_map)
  then have "distinct (map (em_id \<circ> rk_embedding) ranked)"
    using search_joins_distinct [OF assms(1)] by simp
  then show "distinct (map (em_id \<circ> rk_embedding) rows)"
    unfolding rows by (auto simp: distinct_map inj_on_def)
  show "sorted (map row_order rows)"
    by (simp add: rows)
qed

lemma search_order_strict:
  assumes "db_wf db" and "search_order E t request db = Some rows"
  shows "sorted_wrt (<) (map row_order rows)"
proof -
  have "distinct (map row_order rows)"
    using search_order_ids(1) [OF assms] by (auto simp: distinct_map row_order_def inj_on_def)
  then show ?thesis
    using search_order_ids(2) [OF assms] by (simp add: strict_sorted_iff)
qed

definition record_of :: "ext \<Rightarrow> ranked_row \<Rightarrow> search_record" where
  "record_of E row = the (into_record E row)"

text \<open>Every row of the result survives the JSON transport, and its distance comes back unchanged.\<close>

definition transport_exact :: "ext \<Rightarrow> ranked_row list \<Rightarrow> bool" where
  "transport_exact E rows \<longleftrightarrow>
     list_all (\<lambda>row. into_record E row \<noteq> None \<and> json_f64 E (rk_distance row) = Some (rk_distance row)) rows"

lemma into_record_fields:
  assumes "into_record E row = Some r"
  shows "eh_embedding_id (sr_hit r) = em_id (rk_embedding row)" "eh_revision_id (sr_hit r) = pr_id (rk_revision row)"
    "eh_page_id (sr_hit r) = pg_id (rk_page row)" "eh_source_id (sr_hit r) = pg_source_id (rk_page row)"
    "json_f64 E (similarity_of row) = Some (eh_similarity (sr_hit r))"
    "json_f64 E (rk_distance row) = Some (eh_distance (sr_hit r))"
    "eh_model (sr_hit r) = em_model (rk_embedding row)"
    "eh_model_version (sr_hit r) = em_model_version (rk_embedding row)"
    "eh_dimensions (sr_hit r) = word_of_int (em_dimensions (rk_embedding row))"
    "normalization_from_name (em_normalization (rk_embedding row)) = Some (eh_normalization (sr_hit r))"
    "sr_content_sha256 r = pr_content_sha256 (rk_revision row)"
    "eh_canonical_url (sr_hit r) = pg_canonical_url (rk_page row)"
    "eh_excerpt (sr_hit r) = take 600 (pr_content_text (rk_revision row))"
  using assms by (auto simp: into_record_def bind_eq_Some_conv)

lemma into_record_cursor:
  assumes "transport_exact E rows" and "row \<in> set rows"
  shows "into_record E row = Some (record_of E row)"
    and "eh_distance (sr_hit (record_of E row)) = rk_distance row"
    and "eh_embedding_id (sr_hit (record_of E row)) = em_id (rk_embedding row)"
proof -
  from assms obtain r where r: "into_record E row = Some r" "json_f64 E (rk_distance row) = Some (rk_distance row)"
    by (auto simp: transport_exact_def list_all_iff)
  then show rec: "into_record E row = Some (record_of E row)"
    by (simp add: record_of_def)
  show "eh_distance (sr_hit (record_of E row)) = rk_distance row"
    "eh_embedding_id (sr_hit (record_of E row)) = em_id (rk_embedding row)"
    using into_record_fields [OF rec] r(2) by simp_all
qed

lemma search_embeddings_run:
  assumes "search_order E t request db = Some rows" and "transport_exact E rows"
    and "filter (after_cursor (es_cursor request)) rows = rest"
  shows "search_embeddings E t request db =
    (Inr (search_result (unat (es_limit request)) (map (record_of E) (take (unat (es_limit request) + 1) rest))), db)"
proof -
  have "traverse (\<lambda>row. decode_json_row (into_record E row)) (take (unat (es_limit request) + 1) rest) =
      Inr (map (record_of E) (take (unat (es_limit request) + 1) rest))"
  proof (rule traverse_all_Inr)
    fix row assume "row \<in> set (take (unat (es_limit request) + 1) rest)"
    then have "row \<in> set rows"
      using assms(3) by (auto dest: in_set_takeD)
    then show "decode_json_row (into_record E row) = Inr (record_of E row)"
      using into_record_cursor(1) [OF assms(2)] by (simp add: decode_json_row_def)
  qed
  then show ?thesis
    using assms(1,3)
    by (simp add: search_embeddings_def search_statement_order seq_def statement_def of_result_def ret_def)
qed

lemma search_result_last:
  "length rs \<le> n \<Longrightarrow> search_result n (map f (take (n + 1) rs)) =
     \<lparr>pa_hits = map (sr_hit \<circ> f) rs, pa_next_cursor = None, pa_records = map f rs\<rparr>"
  by (simp add: search_result_def)

lemma search_result_more:
  assumes "0 < n" and "n < length rs"
  shows "search_result n (map f (take (n + 1) rs)) =
     \<lparr>pa_hits = map (sr_hit \<circ> f) (take n rs),
      pa_next_cursor = Some \<lparr>cu_distance = eh_distance (sr_hit (f (rs ! (n - 1)))),
        cu_embedding_id = eh_embedding_id (sr_hit (f (rs ! (n - 1))))\<rparr>,
      pa_records = map f (take n rs)\<rparr>"
proof -
  have "take n (map f (take (n + 1) rs)) = map f (take n rs)"
    by (simp add: take_map)
  moreover have "last (map f (take n rs)) = f (rs ! (n - 1))"
    using assms by (subst last_conv_nth) auto
  moreover have "map f (take n rs) \<noteq> []" and "length (map f (take (n + 1) rs)) > n"
    using assms by auto
  ultimately show ?thesis
    by (simp add: search_result_def del: take_map)
qed

text \<open>A client that follows the cursors until there is none.\<close>

primrec follow_cursors ::
  "nat \<Rightarrow> ext \<Rightarrow> uuid \<Rightarrow> embedding_search_request \<Rightarrow> db \<Rightarrow> embedding_search_hit list option" where
  "follow_cursors 0 E tenant_id request db = None"
| "follow_cursors (Suc n) E tenant_id request db =
     (case search_embeddings E tenant_id request db of
        (Inl _, _) \<Rightarrow> None
      | (Inr page, db') \<Rightarrow>
          (case pa_next_cursor page of
             None \<Rightarrow> Some (pa_hits page)
           | Some c \<Rightarrow> map_option ((@) (pa_hits page))
               (follow_cursors n E tenant_id (request\<lparr>es_cursor := Some c\<rparr>) db')))"

lemma follow_cursors_from:
  assumes "db_wf db" and "search_order E t request db = Some rows" and "transport_exact E rows"
    and "0 < es_limit request"
    and "filter (after_cursor c) rows = drop k rows" and "length rows - k < n"
  shows "follow_cursors n E t (request\<lparr>es_cursor := c\<rparr>) db =
    Some (map (sr_hit \<circ> record_of E) (drop k rows))"
  using assms(5,6)
proof (induction n arbitrary: c k)
  case (Suc n)
  let ?l = "unat (es_limit request)" and ?rest = "drop k rows"
  have l: "0 < ?l"
    using assms(4) by (simp add: word_less_nat_alt)
  have run: "search_embeddings E t (request\<lparr>es_cursor := c\<rparr>) db =
      (Inr (search_result ?l (map (record_of E) (take (?l + 1) ?rest))), db)"
    using search_embeddings_run [of E t "request\<lparr>es_cursor := c\<rparr>" db rows ?rest] assms(2,3) Suc.prems(1)
    by (simp add: search_order_cursor)
  show ?case
  proof (cases "length ?rest \<le> ?l")
    case True
    then show ?thesis
      using search_result_last [OF True, of "record_of E"] run by simp
  next
    case False
    let ?last = "rows ! (k + ?l - 1)"
    have idx: "k + ?l - 1 < length rows" and nth: "?rest ! (?l - 1) = ?last" and suc: "Suc (k + ?l - 1) = ?l + k"
      using False l by auto
    have cur: "filter (after_cursor (Some (cursor_of ?last))) rows = drop (?l + k) rows"
      unfolding after_cursor_of
      using filter_after_nth [OF search_order_strict [OF assms(1,2)] idx] by (simp only: suc)
    have "?last \<in> set rows"
      using idx by simp
    note rc = into_record_cursor [OF assms(3) this]
    have "search_embeddings E t (request\<lparr>es_cursor := c\<rparr>) db =
        (Inr \<lparr>pa_hits = map (sr_hit \<circ> record_of E) (take ?l ?rest), pa_next_cursor = Some (cursor_of ?last),
          pa_records = map (record_of E) (take ?l ?rest)\<rparr>, db)"
      using search_result_more [OF l, of ?rest "record_of E"] False
      by (simp only: run nth rc(2,3) cursor_of_def not_le)
    moreover have "follow_cursors n E t (request\<lparr>es_cursor := Some (cursor_of ?last)\<rparr>) db =
        Some (map (sr_hit \<circ> record_of E) (drop (?l + k) rows))"
      using Suc.IH [OF cur] Suc.prems(2) l False by simp
    moreover have "map (sr_hit \<circ> record_of E) (take ?l ?rest) @ map (sr_hit \<circ> record_of E) (drop (?l + k) rows) =
        map (sr_hit \<circ> record_of E) ?rest"
      by (simp only: map_append [symmetric] drop_drop [symmetric] append_take_drop_id)
    ultimately show ?thesis
      by simp
  qed
qed simp

lemma search_order_row:
  assumes "search_order E t request db = Some rows" and "row \<in> set rows"
  obtains vec where "parse_vector E (vector_literal E (ep_values (es_embedding request))) = Some vec"
    and "(rk_embedding row, rk_revision row, rk_page row) \<in> set (search_joins t request db)"
    and "cosine_distance E (em_embedding (rk_embedding row)) vec = Some (rk_distance row)"
    and "pg_le (f64_from (es_min_similarity request)) (similarity_of row)"
proof -
  from assms obtain vec ranked where v: "parse_vector E (vector_literal E (ep_values (es_embedding request))) = Some vec"
    and r: "rank_rows E vec (search_joins t request db) = Some ranked" "row \<in> set ranked"
    and s: "pg_le (f64_from (es_min_similarity request)) (similarity_of row)"
    by (auto simp: search_order_def bind_eq_Some_conv)
  have "(rk_embedding row, rk_revision row, rk_page row) \<in> set xs \<and>
      cosine_distance E (em_embedding (rk_embedding row)) vec = Some (rk_distance row)"
    if "rank_rows E vec xs = Some rs" "row \<in> set rs" for xs rs
    using that by (induction xs arbitrary: rs) (auto simp: bind_eq_Some_conv split: prod.splits)
  then show ?thesis
    using that v r s by blast
qed

lemma search_embeddings_rows:
  assumes "search_embeddings E t request db = (Inr page, db')"
  obtains rows where "search_order E t request db = Some rows" and "db' = db"
    and "length (pa_records page) \<le> unat (es_limit request)"
    and "pa_hits page = map sr_hit (pa_records page)"
    and "\<And>x. x \<in> set (pa_records page) \<Longrightarrow> \<exists>row \<in> set rows. into_record E row = Some x"
proof -
  from assms obtain sel records where s: "search_statement E t request db = Some (sel, db')"
    and tr: "traverse (\<lambda>row. decode_json_row (into_record E row)) sel = Inr records"
    and page: "page = search_result (unat (es_limit request)) records"
    by (auto simp: search_embeddings_def seq_Inr statement_Inr of_result_eq ret_eq Inr_eq_traverse)
  from s obtain rows where rows: "search_order E t request db = Some rows" "db' = db"
    and sel: "sel = take (unat (es_limit request) + 1) (filter (after_cursor (es_cursor request)) rows)"
    by (auto simp: search_statement_order)
  have sub: "set sel \<subseteq> set rows"
    unfolding sel by (auto dest: in_set_takeD)
  have "\<exists>row \<in> set rows. into_record E row = Some x" if "x \<in> set records" for x
  proof -
    from that obtain k where "k < length records" "x = records ! k"
      by (auto simp: in_set_conv_nth)
    with tr have "k < length sel" "into_record E (sel ! k) = Some x"
      by (auto simp: traverse_eq_Inr decode_json_row_def)
    with sub show ?thesis
      using nth_mem by blast
  qed
  moreover have "pa_records page = (if length records > unat (es_limit request)
      then take (unat (es_limit request)) records else records)" "pa_hits page = map sr_hit (pa_records page)"
    unfolding page by (simp_all add: search_result_def Let_def)
  ultimately show ?thesis
    using that rows by (auto dest: in_set_takeD split: if_splits)
qed

section \<open>Properties\<close>


text \<open>
  C31. A search reads only the tenant's rows: every hit of a page is an embedding of the tenant
  in the requested model space, of a revision and a page of the tenant, inside the requested
  sources, with a similarity of at least the requested minimum; a page has at most the
  requested number of hits and the database is not changed.
\<close>

theorem search_hits_in_scope:
  assumes "search_embeddings E t request db = (Inr page, db')"
  shows "db' = db \<and> length (pa_hits page) \<le> unat (es_limit request) \<and>
    (\<forall>h \<in> set (pa_hits page). \<exists>e \<in> set (db_embeddings db). \<exists>r \<in> set (db_page_revisions db). \<exists>p \<in> set (db_pages db).
      \<exists>vec d. eh_embedding_id h = em_id e \<and> eh_revision_id h = pr_id r \<and> eh_page_id h = pg_id p \<and>
        em_revision_id e = pr_id r \<and> pr_page_id r = pg_id p \<and>
        em_tenant_id e = t \<and> pr_tenant_id r = t \<and> pg_tenant_id p = t \<and>
        eh_source_id h = pg_source_id p \<and> (es_source_ids request = [] \<or> eh_source_id h \<in> set (es_source_ids request)) \<and>
        eh_model h = ep_model (es_embedding request) \<and>
        eh_model_version h = ep_model_version (es_embedding request) \<and>
        em_dimensions e = as_i32 (ep_dimensions (es_embedding request)) \<and>
        eh_normalization h = ep_normalization (es_embedding request) \<and>
        parse_vector E (vector_literal E (ep_values (es_embedding request))) = Some vec \<and>
        cosine_distance E (em_embedding e) vec = Some d \<and>
        json_f64 E (sub64 one64 d) = Some (eh_similarity h) \<and>
        pg_le (f64_from (es_min_similarity request)) (sub64 one64 d))"
proof (rule search_embeddings_rows [OF assms])
  fix rows
  assume rows: "search_order E t request db = Some rows" "db' = db"
    and len: "length (pa_records page) \<le> unat (es_limit request)" "pa_hits page = map sr_hit (pa_records page)"
    and rec: "\<And>x. x \<in> set (pa_records page) \<Longrightarrow> \<exists>row \<in> set rows. into_record E row = Some x"
  have hit: "\<exists>e \<in> set (db_embeddings db). \<exists>r \<in> set (db_page_revisions db). \<exists>p \<in> set (db_pages db).
      \<exists>vec d. eh_embedding_id h = em_id e \<and> eh_revision_id h = pr_id r \<and> eh_page_id h = pg_id p \<and>
        em_revision_id e = pr_id r \<and> pr_page_id r = pg_id p \<and>
        em_tenant_id e = t \<and> pr_tenant_id r = t \<and> pg_tenant_id p = t \<and>
        eh_source_id h = pg_source_id p \<and> (es_source_ids request = [] \<or> eh_source_id h \<in> set (es_source_ids request)) \<and>
        eh_model h = ep_model (es_embedding request) \<and>
        eh_model_version h = ep_model_version (es_embedding request) \<and>
        em_dimensions e = as_i32 (ep_dimensions (es_embedding request)) \<and>
        eh_normalization h = ep_normalization (es_embedding request) \<and>
        parse_vector E (vector_literal E (ep_values (es_embedding request))) = Some vec \<and>
        cosine_distance E (em_embedding e) vec = Some d \<and>
        json_f64 E (sub64 one64 d) = Some (eh_similarity h) \<and>
        pg_le (f64_from (es_min_similarity request)) (sub64 one64 d)"
    if "h \<in> set (pa_hits page)" for h
  proof -
    from that len(2) obtain x where "x \<in> set (pa_records page)" and h: "h = sr_hit x"
      by auto
    with rec obtain row where x: "row \<in> set rows" "into_record E row = Some x"
      by blast
    obtain vec where v: "parse_vector E (vector_literal E (ep_values (es_embedding request))) = Some vec"
      and j: "(rk_embedding row, rk_revision row, rk_page row) \<in> set (search_joins t request db)"
      and d: "cosine_distance E (em_embedding (rk_embedding row)) vec = Some (rk_distance row)"
      and s: "pg_le (f64_from (es_min_similarity request)) (similarity_of row)"
      using search_order_row [OF rows(1) x(1)] .
    note f = into_record_fields [OF x(2)]
    have "normalization_from_name (em_normalization (rk_embedding row)) = Some (ep_normalization (es_embedding request))"
      using j by (simp add: search_joins_def normalization_round_trip)
    then show ?thesis
      using j v d s f
      by (intro bexI [of _ "rk_embedding row"] bexI [of _ "rk_revision row"] bexI [of _ "rk_page row"]
          exI [of _ vec] exI [of _ "rk_distance row"])
        (simp_all add: search_joins_def h similarity_of_def)
  qed
  show ?thesis
    using rows(2) len hit by simp
qed

section \<open>A small corpus\<close>

definition example_source :: source_policy where
  "example_source = \<lparr>sp_id = 20, sp_tenant_id = 7, sp_name = lit ''news'', sp_root_url = lit ''https://a.org/'',
     sp_allowed_hosts = [lit ''a.org''], sp_allowed_path_prefixes = [lit ''/''], sp_include_subdomains = False,
     sp_discovery_modes = [lit ''rss''], sp_crawl_interval_seconds = 900, sp_max_depth = 3,
     sp_max_pages_per_run = 1000, sp_obey_robots = True, sp_enabled = True, sp_created_at = 1, sp_updated_at = 1\<rparr>"

definition example_page :: "uuid \<Rightarrow> page_row" where
  "example_page i = \<lparr>pg_id = i, pg_tenant_id = 7, pg_source_id = 20, pg_canonical_url = [unat i],
     pg_first_seen_at = 2, pg_last_seen_at = 2, pg_latest_revision_id = None, pg_created_at = 2, pg_updated_at = 2\<rparr>"

definition example_revision :: "uuid \<Rightarrow> page_revision_row" where
  "example_revision i = \<lparr>pr_id = i, pr_tenant_id = 7, pr_page_id = i, pr_predecessor_revision_id = None,
     pr_original_url = [unat i], pr_final_url = [unat i], pr_title = None,
     pr_content_text = lit ''storm warning'', pr_content_sha256 = replicate 64 97, pr_content_type = lit ''text/html'',
     pr_http_status = 200, pr_published_at = None, pr_fetched_at = 2, pr_created_at = 2\<rparr>"

definition example_embedding :: "uuid \<Rightarrow> embedding_row" where
  "example_embedding i = \<lparr>em_id = i, em_tenant_id = 7, em_revision_id = i, em_model = lit ''m'',
     em_model_version = lit ''1'', em_dimensions = 1, em_normalization = lit ''l2'', em_embedding = [1065353216],
     em_generated_at = 2, em_created_at = 2\<rparr>"

definition example_corpus :: db where
  "example_corpus = example_db\<lparr>db_sources := [example_source],
     db_pages := map example_page [21, 22, 23], db_page_revisions := map example_revision [21, 22, 23],
     db_embeddings := map example_embedding [23, 22, 21]\<rparr>"

lemma example_corpus_wf: "db_wf example_corpus"
proof -
  have "table_ok source_check source_key sp_id [example_source]"
    "table_ok page_check page_key pg_id (map example_page [21, 22, 23])"
    "table_ok page_revision_check page_revision_key pr_id (map example_revision [21, 22, 23])"
    "table_ok embedding_check embedding_key em_id (map example_embedding [23, 22, 21])"
    by (simp_all add: table_ok_def source_check_def page_check_def page_revision_check_def embedding_check_def
        page_key_def page_revision_key_def embedding_key_def char_length_between_def text_ok_def
        normalization_check_def example_source_def example_page_def example_revision_def example_embedding_def lit_def)
  then have "tables_ok example_corpus"
    using example_db_ok(1) by (simp add: db_wf_def tables_ok_def example_corpus_def)
  moreover have "references_ok example_corpus"
    by (simp add: references_ok_def example_corpus_def example_db_def empty_db_def fk_defs null_or_def
        activate_revision_def new_rule_def new_revision_def
        example_source_def example_page_def example_revision_def example_embedding_def)
  moreover have "within_limit example_corpus"
    using example_db_ok(1)
    by (simp add: db_wf_def within_limit_def enabled_active_def is_enabled_active_def example_corpus_def)
  ultimately show ?thesis
    by (simp add: db_wf_def)
qed

definition example_search :: embedding_search_request where
  "example_search = \<lparr>es_embedding = \<lparr>ep_model = lit ''m'', ep_model_version = lit ''1'', ep_dimensions = 1,
       ep_normalization = NormL2, ep_values = [1065353216]\<rparr>, es_source_ids = [20],
     es_min_similarity = 0, es_limit = 2, es_cursor = None\<rparr>"



definition example_rows :: "ranked_row list" where
  "example_rows = map (\<lambda>i. \<lparr>rk_embedding = example_embedding i, rk_revision = example_revision i,
     rk_page = example_page i, rk_distance = 0\<rparr>) [21, 22, 23]"

lemma example_fields:
  "es_limit example_search = 2" "es_cursor example_search = None" "es_source_ids example_search = [20]"
  "json_f64 example_ext = Some" "es_min_similarity example_search = 0"
  by (simp_all add: example_search_def example_ext_def)

lemma example_order: "search_order example_ext 7 example_search example_corpus = Some example_rows"
proof -
  have "search_joins 7 example_search example_corpus =
      map (\<lambda>i. (example_embedding i, example_revision i, example_page i)) [23, 22, 21]"
    by (simp add: search_joins_def example_corpus_def example_search_def example_embedding_def example_revision_def
        example_page_def as_i32_def)
  moreover have "pg_le (f64_from 0) one64"
    by (simp add: f64_from_0 pg_le_def pg_key_0_1)
  moreover have "parse_vector example_ext v = Some [1065353216]" "cosine_distance example_ext x y = Some 0" for v x y
    by (simp_all add: example_ext_def zero64_def)
  moreover have "text_ok (ep_model (es_embedding example_search))" "text_ok (ep_model_version (es_embedding example_search))"
    by code_simp+
  ultimately show ?thesis
    by (simp add: search_order_def ensure_def example_fields similarity_of_def sub64_one_zero row_order_def example_embedding_def
        example_rows_def)
qed


lemma example_transport: "transport_exact example_ext example_rows"
  by (simp add: transport_exact_def example_rows_def into_record_def example_fields example_embedding_def
      normalization_from_name_def lit_def)


lemma example_page_run:
  obtains page where "search_embeddings example_ext 7 example_search example_corpus = (Inr page, example_corpus)"
    and "map eh_embedding_id (pa_hits page) = [21, 22]"
proof -
  have "filter (after_cursor (es_cursor example_search)) example_rows = example_rows"
    by (simp add: example_fields after_cursor_def)
  from search_embeddings_run [OF example_order example_transport this]
  have "search_embeddings example_ext 7 example_search example_corpus =
      (Inr (search_result 2 (map (record_of example_ext) (take 3 example_rows))), example_corpus)"
    by (simp add: example_fields)
  moreover have "map eh_embedding_id (pa_hits (search_result 2 (map (record_of example_ext) (take 3 example_rows)))) = [21, 22]"
    using into_record_cursor(3) [OF example_transport]
    by (simp add: search_result_def example_rows_def example_embedding_def)
  ultimately show ?thesis
    by (rule that)
qed

theorem search_hits_in_scope_witness:
  "\<exists>page. search_embeddings example_ext 7 example_search example_corpus = (Inr page, example_corpus) \<and>
     pa_hits page \<noteq> [] \<and> (\<forall>h \<in> set (pa_hits page). eh_source_id h = 20)"
proof (rule example_page_run)
  fix page
  assume run: "search_embeddings example_ext 7 example_search example_corpus = (Inr page, example_corpus)"
    and hits: "map eh_embedding_id (pa_hits page) = [21, 22]"
  have "eh_source_id h = 20" if "h \<in> set (pa_hits page)" for h
    using bspec [OF conjunct2 [OF conjunct2 [OF search_hits_in_scope [OF run]]] that] unfolding example_fields by force
  then show ?thesis
    using run hits by auto
qed

end
