(* ===== verification/Matching.thy ===== *)
theory Matching
  imports Search "HOL-Library.Countable"
begin

text \<open>
  Sources, page ingestion and match evaluation of \<^verbatim>\<open>src/store.rs\<close>: the identity of a match, the
  repetition of an evaluation, and the outcomes of the write operations.
\<close>

section \<open>The key of a match\<close>

lemma normalization_name_inject: "normalization_name a = normalization_name b \<longleftrightarrow> a = b"
  by (cases a; cases b) (simp_all add: lit_def)

lemma show_nat_value: "foldl (\<lambda>a c. 10 * a + (c - 48)) 0 (show_nat n) = n"
  by (induction n rule: show_nat.induct) (subst show_nat.simps, simp)

lemma show_nat_inject: "show_nat m = show_nat n \<longleftrightarrow> m = n"
  by (metis show_nat_value)

lemma canonical_fields_inject:
  assumes "uuid_codec p (uuid_to_string E)"
  shows "canonical_fields E m = canonical_fields E m' \<longleftrightarrow> m = (m' :: match_identity)"
  by (cases m; cases m') (auto simp: canonical_fields_def show_nat_inject normalization_name_inject
      uuid_codec.to_str_inject [OF assms] dest: word_unat_eq_iff [THEN iffD2])

section \<open>Inserting or selecting a candidate\<close>

lemma insert_candidate_Some:
  "insert_candidate E row_of db = Some (r, db') \<longleftrightarrow>
     (\<exists>ts b. insert_on_conflict candidate_check candidate_key mc_id (row_of (gen_uuid E (db_seed db)))
         (db_candidates db) = Some (ts, b) \<and>
        (b \<longrightarrow> candidate_fk db (row_of (gen_uuid E (db_seed db)))) \<and>
        r = (if b then Some (row_of (gen_uuid E (db_seed db))) else None) \<and>
        db' = db\<lparr>db_seed := Suc (db_seed db), db_candidates := ts\<rparr>)"
  by (auto simp: insert_candidate_def Let_def split: option.splits)

lemma upserted_rows:
  "(\<exists>u. (\<exists>ts b. I = Some (ts, b) \<and> (b \<longrightarrow> F) \<and> u = (if b then Some row else None) \<and> D ts) \<and>
      Q (case u of Some row \<Rightarrow> [row] | None \<Rightarrow> xs)) \<longleftrightarrow>
   (\<exists>ts b. I = Some (ts, b) \<and> (b \<longrightarrow> F) \<and> Q (if b then [row] else xs) \<and> D ts)"
proof (cases I)
  case (Some p)
  obtain ts b where "p = (ts, b)" by (cases p)
  with Some show ?thesis by (cases b) (auto simp: ex_bool_eq)
qed simp

lemma candidate_upsert_Inr:
  "candidate_upsert E row_of existing decode missing db = (Inr c, db') \<longleftrightarrow>
     (\<exists>upserted. insert_candidate E row_of db = Some (upserted, db') \<and>
        decode_row decode (case upserted of Some row \<Rightarrow> [row]
          | None \<Rightarrow> take 1 (filter (existing db) (db_candidates db))) = Inr (Some c))"
  unfolding candidate_upsert_def seq_Inr statement_Inr of_result_eq bind_eq_Some_conv
  by (auto simp: eq_commute [of "Inr _" "decode_row _ _"] eq_commute [of "Inr _" "ok_or _ _"])

lemma candidate_upsert_ins:
  "candidate_upsert E row_of existing decode missing db = (Inr c, db') \<longleftrightarrow>
     (\<exists>ts b. insert_on_conflict candidate_check candidate_key mc_id (row_of (gen_uuid E (db_seed db)))
          (db_candidates db) = Some (ts, b) \<and>
        (b \<longrightarrow> candidate_fk db (row_of (gen_uuid E (db_seed db)))) \<and>
        decode_row decode (if b then [row_of (gen_uuid E (db_seed db))]
          else take 1 (filter (existing db) (db_candidates db))) = Inr (Some c) \<and>
        db' = db\<lparr>db_seed := Suc (db_seed db), db_candidates := ts\<rparr>)"
  unfolding candidate_upsert_Inr insert_candidate_Some by (rule upserted_rows)

lemma decode_row_take1:
  "decode_row f (take 1 (filter P xs)) = Inr (Some c) \<Longrightarrow> \<exists>x \<in> set xs. P x \<and> f x = Some c"
  by (induction xs) (auto simp: decode_row_def decode_json_row_def bindr_def split: if_splits option.splits sum.splits)

lemma candidate_upsert_stored:
  assumes "candidate_upsert E row_of existing decode missing db = (Inr c, db')"
    and "\<And>i. existing db (row_of i)"
  obtains row i where "existing db row" and "row \<in> set (db_candidates db')" and "decode row = Some c"
    and "candidate_check (row_of i)"
proof -
  let ?row = "row_of (gen_uuid E (db_seed db))"
  from assms(1) obtain ts b where
      ins: "insert_on_conflict candidate_check candidate_key mc_id ?row (db_candidates db) = Some (ts, b)"
    and sel: "decode_row decode (if b then [?row] else take 1 (filter (existing db) (db_candidates db))) = Inr (Some c)"
    and db': "db_candidates db' = ts"
    unfolding candidate_upsert_ins by auto
  show ?thesis
  proof (cases rule: candidates.ins_cases [OF ins])
    case 1
    have "decode ?row = Some c"
      using sel 1(1) by (cases "decode ?row") (simp_all add: decode_row_def decode_json_row_def)
    moreover have "?row \<in> set (db_candidates db')"
      using 1(5) db' by simp
    ultimately show ?thesis
      using that assms(2) 1(2) by blast
  next
    case 2
    then obtain row where "row \<in> set (db_candidates db)" "existing db row" "decode row = Some c"
      using sel decode_row_take1 by fastforce
    then show ?thesis
      using that [of row] 2(2,4) db' by auto
  qed
qed

lemma candidate_upsert_again:
  assumes "existing db row" and "row \<in> set (db_candidates db)" and "decode row = Some c"
    and "\<And>i. candidate_check (row_of i)" and "\<And>x i. existing db x \<Longrightarrow> candidate_key x = candidate_key (row_of i)"
    and "table_ok candidate_check candidate_key mc_id (db_candidates db)"
  shows "candidate_upsert E row_of existing decode missing db = (Inr c, db\<lparr>db_seed := Suc (db_seed db)\<rparr>)"
proof -
  let ?row = "row_of (gen_uuid E (db_seed db))"
  have "candidate_key ?row = candidate_key row"
    using assms(5) [OF assms(1)] by simp
  then have "insert_on_conflict candidate_check candidate_key mc_id ?row (db_candidates db) = Some (db_candidates db, False)"
    using assms(2,4) by (simp add: candidates.ins_conflict)
  moreover have "filter (existing db) (db_candidates db) = [row]"
    using assms(6,2,1) by (rule candidates.filter_key) (use assms(1,5) in metis)
  ultimately show ?thesis
    unfolding candidate_upsert_ins
    using assms(3) by (auto simp: decode_row_def decode_json_row_def)
qed

text \<open>
  An operation that may be retried: whatever it returned is stored, stays stored as the evidence
  grows, and is found again. A loop over such operations can be retried as a whole.
\<close>

locale retry_safe =
  fixes up :: "timestamp \<Rightarrow> 'x \<Rightarrow> 'a stmt"
    and ready :: "db \<Rightarrow> bool"
    and stored :: "db \<Rightarrow> 'x \<Rightarrow> 'a \<Rightarrow> bool"
  assumes up_stored: "ready db \<Longrightarrow> up now x db = (Inr c, db') \<Longrightarrow> stored db' x c"
    and up_kept: "evidence_kept db (snd (up now x db))"
    and ready_kept: "ready db \<Longrightarrow> evidence_kept db d \<Longrightarrow> ready d"
    and stored_kept: "stored db x c \<Longrightarrow> evidence_kept db d \<Longrightarrow> stored d x c"
    and up_again: "stored db x c \<Longrightarrow> table_ok candidate_check candidate_key mc_id (db_candidates db) \<Longrightarrow>
      up now x db = (Inr c, db\<lparr>db_seed := Suc (db_seed db)\<rparr>)"
begin

lemma loop_kept: "evidence_kept db (snd (map_stmt (up now) xs db))"
  by (intro evidence.R_map_stmt up_kept)

lemma loop_again:
  assumes "map_stmt (up now) xs db = (Inr cs, db')" and "ready db" and "evidence_kept db' d"
    and "table_ok candidate_check candidate_key mc_id (db_candidates d)"
  shows "map_stmt (up now') xs d = (Inr cs, d\<lparr>db_seed := db_seed d + length xs\<rparr>) \<and> list_all2 (stored d) xs cs"
  using assms
proof (induction xs arbitrary: db cs d)
  case Nil
  then show ?case
    by (simp add: ret_def)
next
  case (Cons x xs)
  from Cons.prems(1) obtain c db1 cs' where u: "up now x db = (Inr c, db1)"
    and m: "map_stmt (up now) xs db1 = (Inr cs', db')" and cs: "cs = c # cs'"
    by (auto simp: seq_Inr ret_eq)
  have "evidence_kept db db1" and "evidence_kept db1 db'"
    using up_kept [of db now x] loop_kept [of db1 now xs] u m by simp_all
  then have "stored d x c"
    using up_stored [OF Cons.prems(2) u] Cons.prems(3) stored_kept evidence.R_trans by blast
  moreover have "ready db1"
    using ready_kept Cons.prems(2) \<open>evidence_kept db db1\<close> .
  moreover have "evidence_kept db' (d\<lparr>db_seed := Suc (db_seed d)\<rparr>)"
    using Cons.prems(3) evidence.R_trans evidence.R_seed by blast
  moreover have "table_ok candidate_check candidate_key mc_id (db_candidates (d\<lparr>db_seed := Suc (db_seed d)\<rparr>))"
    using Cons.prems(4) by simp
  ultimately have rest: "map_stmt (up now') xs (d\<lparr>db_seed := Suc (db_seed d)\<rparr>) =
      (Inr cs', d\<lparr>db_seed := Suc (db_seed d) + length xs\<rparr>)" "list_all2 (stored (d\<lparr>db_seed := Suc (db_seed d)\<rparr>)) xs cs'"
    and one: "up now' x d = (Inr c, d\<lparr>db_seed := Suc (db_seed d)\<rparr>)" and st: "stored d x c"
    using Cons.IH [OF m] up_again Cons.prems(4) by auto
  have "stored d y z" if "stored (d\<lparr>db_seed := Suc (db_seed d)\<rparr>) y z" for y z
    using stored_kept [OF that, of d] evidence.R_seed [of "d\<lparr>db_seed := Suc (db_seed d)\<rparr>" "db_seed d"] by simp
  then have "list_all2 (stored d) xs cs'"
    using rest(2) list.rel_mono_strong by blast
  then show ?case
    using rest(1) one st by (simp add: seq_def ret_def cs)
qed

end

section \<open>Repeating an evaluation\<close>

lemma candidate_frame:
  "candidate_key (historical_candidate E now t a v th record i) =
     (t, match_key E (hit_identity t a v record))"
  "candidate_check (historical_candidate E now t a v th record i) =
     candidate_check (historical_candidate E 0 t a v th record 0)"
  by (simp_all add: candidate_key_def historical_candidate_def candidate_check_def)

lemma candidate_of_key: "candidate_of E t a v record c \<Longrightarrow> candidate_key c = (t, match_key E (hit_identity t a v record))"
  by (simp add: candidate_of_def candidate_key_def)

definition evaluation_stored ::
  "ext \<Rightarrow> uuid \<Rightarrow> uuid \<Rightarrow> uuid \<Rightarrow> f64 \<Rightarrow> db \<Rightarrow> search_record \<Rightarrow> candidate_row \<Rightarrow> bool" where
  "evaluation_stored E t a v th db r c \<longleftrightarrow> candidate_check (historical_candidate E 0 t a v th r 0) \<and>
     list_ex (\<lambda>row. candidate_of E t a v r row \<and> decode_candidate E row = Some c) (db_candidates db)"

interpretation evaluation: retry_safe "\<lambda>now. upsert_candidate E now t a v th" "\<lambda>db. True"
  "evaluation_stored E t a v th" for E t a v th
proof
  show "evaluation_stored E t a v th db' r c" if "upsert_candidate E now t a v th r db = (Inr c, db')" for db now r c db'
    using that unfolding upsert_candidate_def
  proof (rule candidate_upsert_stored)
    show "candidate_of E t a v r (historical_candidate E now t a v th r i)" for i
      by (simp add: candidate_of_def historical_candidate_def)
    fix row i
    assume "candidate_of E t a v r row" "row \<in> set (db_candidates db')" "decode_candidate E row = Some c"
      "candidate_check (historical_candidate E now t a v th r i)"
    then show "evaluation_stored E t a v th db' r c"
      using candidate_frame(2) [of E now t a v th r i] by (auto simp: evaluation_stored_def list_ex_iff)
  qed
  show "upsert_candidate E now t a v th r db = (Inr c, db\<lparr>db_seed := Suc (db_seed db)\<rparr>)"
    if "evaluation_stored E t a v th db r c" "table_ok candidate_check candidate_key mc_id (db_candidates db)"
    for db r c now
  proof -
    from that(1) obtain row where row: "candidate_of E t a v r row" "row \<in> set (db_candidates db)"
      "decode_candidate E row = Some c" and chk: "candidate_check (historical_candidate E 0 t a v th r 0)"
      by (auto simp: evaluation_stored_def list_ex_iff)
    show ?thesis
      unfolding upsert_candidate_def
    proof (rule candidate_upsert_again)
      show "candidate_check (historical_candidate E now t a v th r i)" for i
        using chk candidate_frame(2) [of E now t a v th r i] by simp
    qed (use row that(2) in \<open>simp_all add: candidate_of_key candidate_frame(1)\<close>)
  qed
  show "evidence_kept db (snd (upsert_candidate E now t a v th r db))" for db now r
    using upsert_candidate_sound by (simp add: sound_step_def)
  show "evaluation_stored E t a v th d r c"
    if "evaluation_stored E t a v th db r c" "evidence_kept db d" for db d r c
    using that appended_set [of "db_candidates db" "db_candidates d"]
    by (auto simp: evaluation_stored_def evidence_kept_def list_ex_iff)
qed simp

text \<open>A match writes candidates only; search reads pages, revisions and embeddings only.\<close>

definition candidates_only :: "db \<Rightarrow> db \<Rightarrow> bool" where
  "candidates_only db db' \<longleftrightarrow> db_bypass_rls db' = db_bypass_rls db \<and> db_sources db' = db_sources db \<and>
     db_pages db' = db_pages db \<and> db_page_revisions db' = db_page_revisions db \<and>
     db_embeddings db' = db_embeddings db \<and> db_rules db' = db_rules db \<and>
     db_rule_revisions db' = db_rule_revisions db \<and> db_alert_embeddings db' = db_alert_embeddings db"

interpretation corpus: stmt_relation candidates_only
  by unfold_locales (simp_all add: candidates_only_def)

lemma candidate_upsert_corpus: "candidates_only db (snd (candidate_upsert E row_of existing decode missing db))"
  unfolding candidate_upsert_def
  by (intro corpus.R_seq corpus.R_statement corpus.R_of_result)
    (auto simp: bind_eq_Some_conv insert_candidate_def Let_def candidates_only_def split: option.splits if_splits)

lemma upsert_candidate_corpus: "candidates_only db (snd (upsert_candidate E now t a v th r db))"
  unfolding upsert_candidate_def by (rule candidate_upsert_corpus)

lemma search_order_corpus: "candidates_only db db' \<Longrightarrow> search_order E t request db' = search_order E t request db"
  by (simp add: candidates_only_def search_order_def search_joins_def)

lemma search_embeddings_corpus:
  assumes "candidates_only db db'" and "search_embeddings E t request db = (Inr page, d)"
  shows "search_embeddings E t request db' = (Inr page, db')"
  using assms(2)
  by (auto simp: search_embeddings_def search_statement_order search_order_corpus [OF assms(1)] seq_def
      statement_def of_result_def ret_def split: option.splits sum.splits)

section \<open>Page ingestion\<close>

lemma upsert_page_stored:
  assumes "upsert_page E now t s url seen db = Some (p, db')"
  shows "\<exists>q \<in> set (db_pages db'). page_key q = (t, s, url)"
proof -
  let ?touch = "\<lambda>q. q\<lparr>pg_last_seen_at := seen, pg_updated_at := now\<rparr>"
  have key: "page_key (?touch q) = page_key q" for q
    by (simp add: page_key_def)
  from assms consider (old) q where "q \<in> set (db_pages db)" "page_key q = (t, s, url)"
      "db_pages db' = map (\<lambda>x. if page_key x = (t, s, url) then ?touch x else x) (db_pages db)"
    | (new) "p \<in> set (db_pages db')" "page_key p = (t, s, url)"
    by (auto simp: upsert_page_def Let_def page_key_def dest!: find_SomeD split: if_splits option.splits)
  then show ?thesis
  proof cases
    case old
    then have "?touch q \<in> set (db_pages db')"
      by (auto intro!: rev_image_eqI [of q])
    then show ?thesis
      using key old(2) by metis
  qed blast
qed

lemma ingest_rest_pages:
  "ingest_revisions E now t i input orig fin db0 db = Some (r, db') \<Longrightarrow> db_pages db' = db_pages db"
  "ingest_embeddings E now t e vec g rs db = Some (m, db') \<Longrightarrow> db_pages db' = db_pages db"
  by (auto simp: ingest_revisions_def ingest_embeddings_def insert_revision_def insert_embedding_def Let_def
      split: list.splits option.splits if_splits)

section \<open>Properties\<close>

text \<open>
  C19. Evaluating a rule is safe to retry: when an evaluation has returned its candidates, every
  one of them is stored for that tenant, rule and rule revision, and evaluating the same
  request again, at any later time, returns the same candidates and adds no row.
\<close>

theorem evaluate_matches_retry:
  assumes "db_wf db" and "evaluate_matches E now t a v th search db = (Inr cs, db')"
  shows "evaluate_matches E now' t a v th search db' = (Inr cs, db'\<lparr>db_seed := db_seed db' + length cs\<rparr>) \<and>
    (\<forall>c \<in> set cs. \<exists>row \<in> set (db_candidates db'). decode_candidate E row = Some c \<and> mc_tenant_id row = t \<and>
       mc_alert_rule_id row = a \<and> mc_alert_rule_revision_id row = Some v)"
proof -
  let ?req = "search\<lparr>es_min_similarity := max32 (es_min_similarity search) (f32_from th)\<rparr>"
  from assms(2) obtain page where page: "search_embeddings E t ?req db = (Inr page, db)"
    and m: "map_stmt (upsert_candidate E now t a v th) (pa_records page) db = (Inr cs, db')"
    using search_embeddings_read_only [of E t ?req db]
    by (auto simp: evaluate_matches_def seq_Inr)
  have "candidates_only db (snd (map_stmt (upsert_candidate E now t a v th) (pa_records page) db))"
    by (intro corpus.R_map_stmt upsert_candidate_corpus)
  then have run: "search_embeddings E t ?req db' = (Inr page, db')"
    using search_embeddings_corpus [OF _ page] m by simp
  have "db_wf db'"
    using evaluate_matches_sound [of t db E now a v th search] assms by (simp add: sound_step_def wf_kept_def)
  then have "table_ok candidate_check candidate_key mc_id (db_candidates db')"
    by (simp add: db_wf_def tables_ok_def)
  note again = evaluation.loop_again [OF m TrueI evidence.R_refl this, of now']
  have "length (pa_records page) = length cs"
    using again list_all2_lengthD by blast
  then have "evaluate_matches E now' t a v th search db' = (Inr cs, db'\<lparr>db_seed := db_seed db' + length cs\<rparr>)"
    using run again by (simp add: evaluate_matches_def seq_def)
  moreover have "\<exists>row \<in> set (db_candidates db'). decode_candidate E row = Some c \<and> mc_tenant_id row = t \<and>
       mc_alert_rule_id row = a \<and> mc_alert_rule_revision_id row = Some v" if "c \<in> set cs" for c
    using again that
    by (auto simp: list_all2_conv_all_nth in_set_conv_nth evaluation_stored_def list_ex_iff candidate_of_def)
  ultimately show ?thesis
    by blast
qed

text \<open>
  C32. The key of a match identifies it: two matches have the same canonical key exactly when
  tenant, rule, rule revision, page revision, content digest and model space all agree, unless
  SHA-256 maps the two encodings of the identities to the same digest.
\<close>

theorem match_key_identifies:
  assumes "uuid_codec p (uuid_to_string E)" and "inj (hex_encode E)" and "inj (json_of_strings E)"
  shows "match_key E m = match_key E m' \<longleftrightarrow> m = m' \<or>
    json_of_strings E (canonical_fields E m) \<noteq> json_of_strings E (canonical_fields E m') \<and>
    sha256 E (json_of_strings E (canonical_fields E m)) = sha256 E (json_of_strings E (canonical_fields E m'))"
  using canonical_fields_inject [OF assms(1), of m m'] assms(2,3)
  by (auto simp: match_key_def sha256_hex_def inj_eq)

text \<open>
  Creating a source: when the submitted fields satisfy the constraints of the table, the
  request conflicts (409) exactly when the tenant already has a source with this canonical
  root; otherwise the source is stored as submitted and can be read back by its tenant and by
  no other.
\<close>

theorem create_source_outcome:
  fixes E db
  defines "i \<equiv> gen_uuid E (db_seed db)"
  assumes "source_check (source_row now i t input root)" and "i \<notin> sp_id ` set (db_sources db)"
  shows "if \<exists>s \<in> set (db_sources db). sp_tenant_id s = t \<and> sp_root_url s = root
    then \<exists>e db'. create_source E now t input root db = (Inl e, db') \<and> err_status e = 409 \<and>
      db' = db\<lparr>db_seed := Suc (db_seed db)\<rparr>
    else \<exists>db'. create_source E now t input root db = (Inr (source_row now i t input root), db') \<and>
      get_source t i db' = (Inr (Some (source_row now i t input root)), db') \<and>
      (\<forall>t'. t' \<noteq> t \<longrightarrow> get_source t' i db' = (Inr None, db'))"
proof -
  let ?row = "source_row now i t input root"
  have key: "source_key ?row \<in> source_key ` set (db_sources db) \<longleftrightarrow>
      (\<exists>s \<in> set (db_sources db). sp_tenant_id s = t \<and> sp_root_url s = root)"
    by (auto simp: source_key_def source_row_def image_iff)
  have ids: "sp_id ?row = i" "sp_tenant_id ?row = t"
    by (simp_all add: source_row_def)
  have none: "find (\<lambda>s. sp_tenant_id s = x \<and> sp_id s = i) (db_sources db) = None" for x
    using assms(3) by (auto simp: find_None_iff)
  show ?thesis
  proof (cases "\<exists>s \<in> set (db_sources db). sp_tenant_id s = t \<and> sp_root_url s = root")
    case True
    then have "insert_on_conflict source_check source_key sp_id ?row (db_sources db) = Some (db_sources db, False)"
      using assms(2) by (simp only: sources.ins_conflict key simp_thms)
    then have "create_source E now t input root db =
        (Inl (HttpError_conflict (lit ''a source with this canonical root URL already exists'')),
         db\<lparr>db_seed := Suc (db_seed db)\<rparr>)"
      by (simp add: create_source_def seq_def statement_def of_result_def i_def [symmetric] Let_def)
    then show ?thesis
      unfolding if_P [OF True] by simp
  next
    case False
    then have "insert_on_conflict source_check source_key sp_id ?row (db_sources db) = Some (db_sources db @ [?row], True)"
      using assms(2,3) by (simp only: sources.ins_new key ids simp_thms)
    then have "create_source E now t input root db =
        (Inr ?row, db\<lparr>db_seed := Suc (db_seed db), db_sources := db_sources db @ [?row]\<rparr>)"
      by (simp add: create_source_def seq_def statement_def of_result_def i_def [symmetric] Let_def)
    moreover have "find (\<lambda>s. sp_tenant_id s = x \<and> sp_id s = i) (db_sources db @ [?row]) =
        (if x = t then Some ?row else None)" for x
      using none [of x] by (simp add: find_append ids)
    ultimately show ?thesis
      unfolding if_not_P [OF False] by (simp add: get_source_def query_def)
  qed
qed

text \<open>
  C33. Page ingestion never reports success: whatever the request and the tables, the caller
  receives an internal error with status 500, because the last part of the statement updates a
  page that the first part has already inserted or updated and so returns no row. The effects
  of the statement are committed all the same: when it runs, the page is stored.
\<close>

theorem ingest_page_never_succeeds:
  "(\<exists>e. fst (ingest_page E now t s input orig fin db) = Inl e \<and> err_status e = 500) \<and>
   (ingest_statement E now t s input orig fin db \<noteq> None \<longrightarrow>
      (\<exists>p \<in> set (db_pages (snd (ingest_page E now t s input orig fin db))). page_key p = (t, s, fin)))"
proof (cases "ingest_statement E now t s input orig fin db")
  case None
  then show ?thesis
    by (simp add: ingest_page_def seq_def statement_def db_error_def)
next
  case (Some x)
  obtain rows db' where x: "x = (rows, db')" by (cases x)
  show ?thesis
  proof (rule ingest_statement_cases [OF Some [unfolded x]])
    fix vec page db1 inserted db2 emb revisions
    assume page: "upsert_page E now t s fin (timestamptz E (pi_fetched_at input)) db = Some (page, db1)"
      and rest: "ingest_revisions E now t (pg_id page) input orig fin db db1 = Some (inserted, db2)"
        "ingest_embeddings E now t (pi_embedding input) vec (timestamptz E (pi_fetched_at input)) revisions db2
           = Some (emb, db')"
      and "rows = []"
    have "db_pages db' = db_pages db1"
      using ingest_rest_pages rest by metis
    then have "\<exists>p \<in> set (db_pages db'). page_key p = (t, s, fin)"
      using upsert_page_stored [OF page] by simp
    then show ?thesis
      using Some \<open>rows = []\<close> by (simp add: x ingest_page_def seq_def statement_def fail_def)
  qed
qed

lemma pg_key_minus_one: "pg_key minus_one64 = - 4607182418800017408"
  by (simp add: minus_one64_def pg_key_def ord64_def neg64_def mag64_def is_nan64_def)

section \<open>Witnesses\<close>

definition example_one :: embedding_search_request where
  "example_one = example_search\<lparr>es_limit := 1\<rparr>"

lemma example_one_page:
  obtains r where "search_embeddings example_ext 7 example_one example_corpus =
      (Inr \<lparr>pa_hits = [sr_hit r], pa_next_cursor = Some (cursor_of (hd example_rows)), pa_records = [r]\<rparr>, example_corpus)"
    and "r = record_of example_ext (hd example_rows)"
proof -
  have order: "search_order example_ext 7 example_one example_corpus = Some example_rows"
    using example_order by (simp add: example_one_def search_order_def search_joins_def)
  have "filter (after_cursor (es_cursor example_one)) example_rows = example_rows"
    by (simp add: example_one_def example_fields after_cursor_def)
  note run = search_embeddings_run [OF order example_transport this]
  have len: "0 < (1::nat)" "1 < length example_rows" and hd: "example_rows ! (1 - 1) = hd example_rows"
    by (simp_all add: example_rows_def)
  have "hd example_rows \<in> set example_rows"
    by (simp add: example_rows_def)
  note rc = into_record_cursor [OF example_transport this]
  have "search_result 1 (map (record_of example_ext) (take (1 + 1) example_rows)) =
      \<lparr>pa_hits = [sr_hit (record_of example_ext (hd example_rows))],
       pa_next_cursor = Some (cursor_of (hd example_rows)), pa_records = [record_of example_ext (hd example_rows)]\<rparr>"
    unfolding search_result_more [OF len] hd rc(2,3) cursor_of_def by (simp add: example_rows_def)
  moreover have "unat (es_limit example_one) = 1"
    by (simp add: example_one_def)
  ultimately show ?thesis
    using that run by simp
qed


lemma example_evaluation:
  obtains c db' where "evaluate_matches example_ext 9 7 1 2 0 example_one example_corpus = (Inr [c], db')"
proof (rule example_one_page)
  fix r
  assume run: "search_embeddings example_ext 7 example_one example_corpus =
      (Inr \<lparr>pa_hits = [sr_hit r], pa_next_cursor = Some (cursor_of (hd example_rows)), pa_records = [r]\<rparr>, example_corpus)"
    and r: "r = record_of example_ext (hd example_rows)"
  have "hd example_rows \<in> set example_rows"
    by (simp add: example_rows_def)
  note f = into_record_fields [OF into_record_cursor(1) [OF example_transport this], folded r]
  have ids: "eh_revision_id (sr_hit r) = 21" "eh_embedding_id (sr_hit r) = 21" "eh_similarity (sr_hit r) = one64"
    using f(1,2,5) by (simp_all add: example_rows_def example_embedding_def example_revision_def similarity_of_def
        sub64_one_zero example_fields)
  let ?row = "historical_candidate example_ext 9 7 1 2 0 r (gen_uuid example_ext (db_seed example_corpus))"
  have "candidate_check ?row"
    by (simp add: candidate_check_def historical_candidate_def ids pg_le_def pg_key_0_1 zero64_def pg_key_minus_one)
  moreover have "candidate_fk example_corpus ?row"
    by (simp add: fk_defs null_or_def historical_candidate_def ids example_corpus_def example_db_def
        activate_revision_def new_rule_def new_revision_def example_revision_def example_embedding_def)
  moreover have "db_candidates example_corpus = []"
    by (simp add: example_corpus_def example_db_def empty_db_def)
  moreover have "decode_candidate example_ext ?row = Some ?row"
    by (simp add: decode_candidate_def example_fields)
  ultimately have "upsert_candidate example_ext 9 7 1 2 0 r example_corpus =
      (Inr ?row, example_corpus\<lparr>db_seed := Suc (db_seed example_corpus), db_candidates := [?row]\<rparr>)"
    unfolding upsert_candidate_def candidate_upsert_ins
    by (simp add: insert_on_conflict_def decode_row_def decode_json_row_def ex_bool_eq)
  moreover have "example_one\<lparr>es_min_similarity := max32 (es_min_similarity example_one) (f32_from 0)\<rparr> = example_one"
    by (simp add: example_one_def example_search_def f32_from_0 max32_def)
  ultimately show ?thesis
    using run that by (simp add: evaluate_matches_def seq_def ret_def)
qed

theorem evaluate_matches_retry_witness:
  "\<exists>c db'. evaluate_matches example_ext 9 7 1 2 0 example_one example_corpus = (Inr [c], db') \<and>
     (\<exists>n. evaluate_matches example_ext 99 7 1 2 0 example_one db' = (Inr [c], db'\<lparr>db_seed := n\<rparr>))"
proof (rule example_evaluation)
  fix c db'
  assume "evaluate_matches example_ext 9 7 1 2 0 example_one example_corpus = (Inr [c], db')"
  then show ?thesis
    using evaluate_matches_retry [OF example_corpus_wf, of example_ext 9 7 1 2 0 example_one "[c]" db' 99] by blast
qed

text \<open>Concrete encoders that are injective, with the identity in place of SHA-256.\<close>

definition injective_ext :: ext where
  "injective_ext = example_ext\<lparr>sha256 := (\<lambda>b. b), hex_encode := map unat,
     json_of_strings := (\<lambda>xs. replicate (list_encode (map list_encode xs)) 0)\<rparr>"

lemma injective_ext_laws:
  "uuid_codec parse_hyphenated (uuid_to_string injective_ext)" "inj (hex_encode injective_ext)"
  "inj (json_of_strings injective_ext)"
proof -
  show "uuid_codec parse_hyphenated (uuid_to_string injective_ext)"
    using rfc4122.uuid_codec_axioms by (simp add: injective_ext_def example_ext_def)
  show "inj (hex_encode injective_ext)"
    by (simp add: injective_ext_def inj_mapI inj_unsigned)
  have "map list_encode xs = map list_encode ys \<longleftrightarrow> xs = ys" for xs ys
    using inj_list_encode by (simp add: inj_map_eq_map)
  then show "inj (json_of_strings injective_ext)"
    by (auto simp: injective_ext_def inj_def replicate_eq_replicate list_encode_eq)
qed

definition example_identity :: "rstr \<Rightarrow> match_identity" where
  "example_identity content = \<lparr>mi_tenant_id = 7, mi_alert_rule_id = 1, mi_alert_rule_revision_id = 2,
     mi_page_revision_id = 21, mi_content_sha256 = content, mi_model = lit ''m'', mi_model_version = lit ''1'',
     mi_dimensions = 3, mi_normalization = NormL2\<rparr>"

theorem match_key_identifies_witness:
  "match_key injective_ext (example_identity (lit ''a'')) \<noteq> match_key injective_ext (example_identity (lit ''b''))"
  unfolding match_key_identifies [OF injective_ext_laws]
  by (simp add: injective_ext_def) (simp add: example_identity_def lit_def)

definition example_source_input :: create_source_policy where
  "example_source_input = \<lparr>cs_name = lit ''news'', cs_root_url = lit ''https://b.org/'',
     cs_allowed_hosts = [lit ''b.org''], cs_allowed_path_prefixes = [lit ''/''], cs_include_subdomains = False,
     cs_discovery_modes = [lit ''rss''], cs_crawl_interval_seconds = 900, cs_max_depth = 3,
     cs_max_pages_per_run = 1000, cs_obey_robots = True, cs_enabled = True\<rparr>"

theorem create_source_outcome_witness:
  "(\<exists>db'. create_source example_ext 4 7 example_source_input (lit ''https://b.org/'') example_corpus =
      (Inr (source_row 4 3 7 example_source_input (lit ''https://b.org/'')), db')) \<and>
   (\<exists>e db'. create_source example_ext 4 7 example_source_input (lit ''https://a.org/'') example_corpus = (Inl e, db') \<and>
      err_status e = 409)"
proof -
  have i: "gen_uuid example_ext (db_seed example_corpus) = 3"
    by (simp add: example_ext_def example_corpus_def example_db_def)
  have chk: "source_check (source_row 4 3 7 example_source_input root)" if "text_ok root" for root
    using that by (simp add: source_check_def source_row_def example_source_input_def char_length_between_def
        text_ok_def lit_def as_i32_def as_i16_def)
  have src: "db_sources example_corpus = [example_source]"
    by (simp add: example_corpus_def)
  have "text_ok (lit ''https://b.org/'')" "text_ok (lit ''https://a.org/'')"
    by (simp_all add: text_ok_def lit_def)
  note c = chk [OF this(1)] chk [OF this(2)]
  show ?thesis
    using create_source_outcome [of 4 example_ext example_corpus 7 example_source_input "lit ''https://b.org/''"]
      create_source_outcome [of 4 example_ext example_corpus 7 example_source_input "lit ''https://a.org/''"] c
    by (auto simp: i src example_source_def lit_def)
qed

definition example_ingest :: page_ingest_request where
  "example_ingest = \<lparr>pi_source_id = 20, pi_url = lit ''https://a.org/x'', pi_final_url = lit ''https://a.org/x'',
     pi_title = None, pi_content_text = lit ''storm'', pi_content_type = lit ''text/html'', pi_http_status = 200,
     pi_published_at = None, pi_fetched_at = 3, pi_embedding = es_embedding example_search\<rparr>"

lemma example_ingest_runs:
  "ingest_statement example_ext 3 7 20 example_ingest (lit ''https://a.org/x'') (lit ''https://a.org/x'') example_corpus \<noteq> None"
proof -
  have tx: "list_all text_ok [lit ''https://a.org/x'', lit ''https://a.org/x'', (case pi_title example_ingest of None \<Rightarrow> [] | Some t \<Rightarrow> t),
         pi_content_text example_ingest, pi_content_type example_ingest, ep_model (pi_embedding example_ingest),
         ep_model_version (pi_embedding example_ingest)]"
    by (simp add: example_ingest_def example_search_def text_ok_def lit_def)
  have "upsert_page example_ext 3 7 20 (lit ''https://a.org/x'') 3 example_corpus \<noteq> None"
    by (simp add: upsert_page_def Let_def page_check_def page_key_def text_ok_def lit_def has_source_def example_corpus_def
        example_db_def example_ext_def example_source_def example_page_def split: option.split)
  then obtain p d where u: "upsert_page example_ext 3 7 20 (lit ''https://a.org/x'') 3 example_corpus = Some (p, d)"
    by fastforce
  then have "pg_id p = 3"
    by (simp add: upsert_page_def Let_def page_check_def page_key_def text_ok_def lit_def has_source_def example_corpus_def
        example_db_def example_ext_def example_source_def example_page_def)
      auto
  then have r: "filter (\<lambda>q. pg_id q = pg_id p) (db_pages example_corpus) = []"
    "\<And>sha. select_revision example_corpus 7 (pg_id p) sha None = []"
    by (simp_all add: select_revision_def example_corpus_def example_page_def example_revision_def)
  have "parse_vector example_ext v = Some [1065353216]" "timestamptz example_ext t = t" "pi_fetched_at example_ingest = 3" for v t
    by (simp_all add: example_ext_def example_ingest_def)
  then show ?thesis
    using tx u r by (simp add: ingest_statement_def ensure_def ingest_revisions_def ingest_embeddings_def Let_def)
qed

theorem ingest_page_never_succeeds_witness:
  "\<exists>p \<in> set (db_pages (snd (ingest_page example_ext 3 7 20 example_ingest (lit ''https://a.org/x'')
      (lit ''https://a.org/x'') example_corpus))). page_key p = (7, 20, lit ''https://a.org/x'')"
  using ingest_page_never_succeeds example_ingest_runs by blast

end
