(* ===== verification/Reverse_Match.thy ===== *)
theory Reverse_Match
  imports Matching
begin

text \<open>
  The reverse alert stream (\<^verbatim>\<open>src/reverse_match.rs\<close>): alert-rule embeddings, and pages matched
  against the active alert rules as they arrive, without storing the page vector. The
  validators of the interface crate, which is not part of the repository, are the parameter
  \<open>interfaces\<close>; the encoders are those of the store, which this file of the program repeats.
\<close>

record interfaces =
  validate_embedding :: "embedding_payload \<Rightarrow> rstr + unit"
  validate_page :: "page_ingest_request \<Rightarrow> rstr + unit"
  validate_search :: "embedding_search_request \<Rightarrow> rstr + unit"
  validate_source :: "create_source_policy \<Rightarrow> rstr + unit"

definition validated :: "rstr + unit \<Rightarrow> http_error + unit" where
  "validated r = (case r of Inl e \<Rightarrow> Inl (HttpError_validation e) | Inr u \<Rightarrow> Inr u)"

section \<open>Requests and responses\<close>

definition DEFAULT_MAX_CANDIDATES :: u16 where "DEFAULT_MAX_CANDIDATES = 100"
definition MAX_CANDIDATES :: u16 where "MAX_CANDIDATES = 500"

record alert_embedding_request =
  au_alert_rule_revision_id :: uuid
  au_embedding :: embedding_payload

record alert_embedding_receipt =
  rc_id :: uuid
  rc_alert_rule_id :: uuid
  rc_alert_rule_revision_id :: uuid
  rc_embedding_sha256 :: rstr
  rc_created :: bool

record reverse_page_request =
  rp_source_id :: uuid
  rp_url :: rstr
  rp_final_url :: rstr
  rp_title :: "rstr option"
  rp_content_text :: rstr
  rp_content_type :: rstr
  rp_http_status :: u16
  rp_published_at :: "timestamp option"
  rp_fetched_at :: timestamp
  rp_embedding :: embedding_payload
  rp_max_candidates :: u16

record reverse_candidate =
  rd_id :: uuid
  rd_alert_rule_id :: uuid
  rd_alert_rule_revision_id :: uuid
  rd_page_revision_id :: uuid
  rd_alert_embedding_id :: uuid
  rd_similarity :: f64
  rd_threshold :: f64
  rd_canonical_match_key :: rstr

record reverse_match_response =
  rm_page_id :: uuid
  rm_page_revision_id :: uuid
  rm_content_sha256 :: rstr
  rm_changed :: bool
  rm_page_vector_persisted :: bool
  rm_candidates :: "reverse_candidate list"

record page_wire =
  pw_page_id :: uuid
  pw_page_revision_id :: uuid
  pw_content_sha256 :: rstr
  pw_changed :: bool

record candidate_wire =
  cw_alert_rule_id :: uuid
  cw_alert_rule_revision_id :: uuid
  cw_alert_embedding_id :: uuid
  cw_similarity :: f64
  cw_threshold :: f64

definition default_max_candidates :: u16 where
  "default_max_candidates = DEFAULT_MAX_CANDIDATES"

definition validate_upsert :: "interfaces \<Rightarrow> alert_embedding_request \<Rightarrow> rstr + unit" where
  "validate_upsert V request = validate_embedding V (au_embedding request)"

text \<open>The page of a request, as its validation and its ingestion see it.\<close>

definition page_of_request :: "reverse_page_request \<Rightarrow> page_ingest_request" where
  "page_of_request r =
     \<lparr>pi_source_id = rp_source_id r, pi_url = rp_url r, pi_final_url = rp_final_url r,
      pi_title = rp_title r, pi_content_text = rp_content_text r, pi_content_type = rp_content_type r,
      pi_http_status = rp_http_status r, pi_published_at = rp_published_at r,
      pi_fetched_at = rp_fetched_at r, pi_embedding = rp_embedding r\<rparr>"

definition validate_reverse :: "interfaces \<Rightarrow> reverse_page_request \<Rightarrow> rstr + unit" where
  "validate_reverse V r =
     bindr (validate_page V (page_of_request r)) (\<lambda>_.
     if \<not> (1 \<le> rp_max_candidates r \<and> rp_max_candidates r \<le> MAX_CANDIDATES)
     then Inl (lit ''max_candidates must be between 1 and 500'')
     else Inr ())"

text \<open>\<^verbatim>\<open>f32::to_bits().to_be_bytes()\<close>, after the sign of zero is dropped.\<close>

definition to_be_bytes :: "u32 \<Rightarrow> bytes" where
  "to_be_bytes w = [ucast (drop_bit 24 w), ucast (drop_bit 16 w), ucast (drop_bit 8 w), ucast w]"

definition canonical_value :: "f32 \<Rightarrow> f32" where
  "canonical_value value = (if mag32 value = 0 then zero32 else value)"

definition embedding_sha256 :: "ext \<Rightarrow> f32 list \<Rightarrow> rstr" where
  "embedding_sha256 E values =
     hex_encode E (sha256 E (concat (map (\<lambda>v. to_be_bytes (canonical_value v)) values)))"

section \<open>Alert-rule embeddings\<close>

text \<open>\<^verbatim>\<open>target\<close>: the enabled active revision the request names, as the connection sees it.\<close>

definition embedding_target ::
  "uuid \<Rightarrow> uuid \<Rightarrow> alert_embedding_request \<Rightarrow> db \<Rightarrow> (rule_row \<times> rule_revision_row) list" where
  "embedding_target tenant_id alert_rule_id request db =
     filter (\<lambda>(rule, revision). is_active_revision rule revision \<and> rl_tenant_id rule = tenant_id \<and>
         rl_id rule = alert_rule_id \<and> rv_id revision = au_alert_rule_revision_id request \<and>
         rv_enabled revision \<and> rv_embedding_model revision = ep_model (au_embedding request))
       (List.product (rules_view db) (rule_revisions_view db))"

definition alert_embedding_of ::
  "ext \<Rightarrow> timestamp \<Rightarrow> uuid \<Rightarrow> embedding_payload \<Rightarrow> f32 list \<Rightarrow> timestamp \<Rightarrow> rule_row \<times> rule_revision_row \<Rightarrow> uuid \<Rightarrow>
   alert_embedding_row" where
  "alert_embedding_of E now tenant_id e vec generated_at target i =
     \<lparr>ae_id = i, ae_tenant_id = tenant_id, ae_alert_rule_id = rl_id (fst target),
      ae_alert_rule_revision_id = rv_id (snd target), ae_model = ep_model e,
      ae_model_version = ep_model_version e, ae_dimensions = as_i32 (ep_dimensions e),
      ae_normalization = normalization_name (ep_normalization e), ae_embedding = vec,
      ae_embedding_sha256 = embedding_sha256 E (ep_values e), ae_generated_at = generated_at,
      ae_created_at = now\<rparr>"

definition insert_alert_embedding ::
  "ext \<Rightarrow> (uuid \<Rightarrow> alert_embedding_row) \<Rightarrow> db \<Rightarrow> (alert_embedding_row option \<times> db) option" where
  "insert_alert_embedding E row_of db =
     (let row = row_of (gen_uuid E (db_seed db)) in
      if \<not> alert_embedding_visible db row then None
      else case insert_on_conflict alert_embedding_check alert_embedding_key ae_id row
          (db_alert_embeddings db) of
        None \<Rightarrow> None
      | Some (t, inserted) \<Rightarrow>
          if inserted \<and> \<not> alert_embedding_fk db row then None
          else Some (if inserted then Some row else None,
                     db\<lparr>db_seed := Suc (db_seed db), db_alert_embeddings := t\<rparr>))"

definition select_alert_embedding ::
  "db \<Rightarrow> uuid \<Rightarrow> embedding_payload \<Rightarrow> (rule_row \<times> rule_revision_row) list \<Rightarrow> alert_embedding_row option \<Rightarrow>
   (alert_embedding_row \<times> bool) list" where
  "select_alert_embedding snapshot tenant_id e targets inserted =
     (case inserted of
        Some row \<Rightarrow> [(row, True)]
      | None \<Rightarrow> take 1 (map (\<lambda>r. (r, False)) (filter (\<lambda>r.
          list_ex (\<lambda>(rule, revision). rv_id revision = ae_alert_rule_revision_id r \<and>
            rl_id rule = ae_alert_rule_id r) targets \<and>
          ae_tenant_id r = tenant_id \<and> ae_model r = ep_model e \<and> ae_model_version r = ep_model_version e \<and>
          ae_dimensions r = as_i32 (ep_dimensions e) \<and>
          ae_normalization r = normalization_name (ep_normalization e))
        (alert_embeddings_view snapshot))))"

definition upsert_embedding_statement ::
  "ext \<Rightarrow> timestamp \<Rightarrow> uuid \<Rightarrow> uuid \<Rightarrow> alert_embedding_request \<Rightarrow> db \<Rightarrow> ((alert_embedding_row \<times> bool) list \<times> db) option" where
  "upsert_embedding_statement E now tenant_id alert_rule_id request db =
     do {
       let e = au_embedding request;
       ensure (text_ok (ep_model e) \<and> text_ok (ep_model_version e));
       vec \<leftarrow> parse_vector E (vector_literal E (ep_values e));
       let targets = embedding_target tenant_id alert_rule_id request db;
       (inserted, db1) \<leftarrow> (case targets of
           [] \<Rightarrow> Some (None, db)
         | target # _ \<Rightarrow> insert_alert_embedding E (alert_embedding_of E now tenant_id e vec (timestamptz E now) target) db);
       Some (select_alert_embedding db tenant_id e targets inserted, db1)
     }"

definition upsert_alert_rule_embedding ::
  "ext \<Rightarrow> interfaces \<Rightarrow> timestamp \<Rightarrow> uuid \<Rightarrow> uuid \<Rightarrow> alert_embedding_request \<Rightarrow> alert_embedding_receipt stmt" where
  "upsert_alert_rule_embedding E V now tenant_id alert_rule_id request =
     seq (of_result (validated (validate_upsert V request))) (\<lambda>_.
     seq (statement (upsert_embedding_statement E now tenant_id alert_rule_id request)) (\<lambda>rows.
     case rows of
       [] \<Rightarrow> fail (HttpError_validation
           (lit ''alert embedding must target the enabled active rule revision and its configured model''))
     | (row, created) # _ \<Rightarrow>
         if ae_embedding_sha256 row \<noteq> embedding_sha256 E (ep_values (au_embedding request))
         then fail (HttpError_conflict
           (lit ''an immutable embedding already exists for this alert revision and model space''))
         else ret \<lparr>rc_id = ae_id row, rc_alert_rule_id = ae_alert_rule_id row,
                   rc_alert_rule_revision_id = ae_alert_rule_revision_id row,
                   rc_embedding_sha256 = ae_embedding_sha256 row, rc_created = created\<rparr>))"

section \<open>The page of a reverse match\<close>

text \<open>
  The statement that upserts the page and its revision: here the predecessor comes from the
  row the upsert returns, and the pointer to the latest revision is set by a statement of its
  own.
\<close>

definition page_revision_statement ::
  "ext \<Rightarrow> timestamp \<Rightarrow> uuid \<Rightarrow> uuid \<Rightarrow> reverse_page_request \<Rightarrow> rstr \<Rightarrow> rstr \<Rightarrow> db \<Rightarrow> (page_wire list \<times> db) option" where
  "page_revision_statement E now tenant_id source_id request original_url final_url db =
     do {
       ensure (list_all text_ok [final_url, original_url, (case rp_title request of None \<Rightarrow> [] | Some t \<Rightarrow> t),
         rp_content_text request, rp_content_type request]);
       (page, db1) \<leftarrow> upsert_page E now tenant_id source_id final_url
         (timestamptz E (rp_fetched_at request)) db;
       (inserted, db2) \<leftarrow> insert_revision E (\<lambda>i. page_revision_row_of E now i tenant_id (pg_id page)
         (pg_latest_revision_id page) original_url final_url (page_of_request request)) db1;
       let content_sha256 = sha256_hex E (as_bytes (normalize_content (rp_content_text request)));
       Some (map (\<lambda>(r, changed). \<lparr>pw_page_id = pg_id page, pw_page_revision_id = r,
            pw_content_sha256 = content_sha256, pw_changed = changed\<rparr>)
         (select_revision db tenant_id (pg_id page) content_sha256 inserted), db2)
     }"

definition set_latest_revision ::
  "ext \<Rightarrow> timestamp \<Rightarrow> uuid \<Rightarrow> page_wire \<Rightarrow> timestamp \<Rightarrow> db \<Rightarrow> (unit \<times> db) option" where
  "set_latest_revision E now tenant_id page seen_at db =
     (let target = (\<lambda>p. pg_tenant_id p = tenant_id \<and> pg_id p = pw_page_id page) in
      if list_ex target (db_pages db) \<and> \<not> has_page_revision db (pw_page_revision_id page) then None
      else Some ((), db\<lparr>db_pages := map (\<lambda>p. if target p
          then p\<lparr>pg_latest_revision_id := Some (pw_page_revision_id page),
                 pg_last_seen_at := timestamptz E seen_at, pg_updated_at := now\<rparr>
          else p) (db_pages db)\<rparr>))"

definition upsert_page_revision ::
  "ext \<Rightarrow> timestamp \<Rightarrow> uuid \<Rightarrow> uuid \<Rightarrow> reverse_page_request \<Rightarrow> rstr \<Rightarrow> rstr \<Rightarrow> page_wire stmt" where
  "upsert_page_revision E now tenant_id source_id request original_url final_url =
     seq (statement (page_revision_statement E now tenant_id source_id request original_url final_url)) (\<lambda>rows.
     case rows of
       [] \<Rightarrow> fail (HttpError_internal (lit ''transient page ingestion returned no durable revision''))
     | page # _ \<Rightarrow>
         seq (statement (set_latest_revision E now tenant_id page (rp_fetched_at request))) (\<lambda>_. ret page))"

section \<open>Candidates\<close>

definition alert_joins ::
  "ext \<Rightarrow> uuid \<Rightarrow> uuid \<Rightarrow> reverse_page_request \<Rightarrow> db \<Rightarrow> (alert_embedding_row \<times> rule_revision_row) list" where
  "alert_joins E tenant_id source_id request db =
     map (\<lambda>(e, rule, v). (e, v))
       (filter (\<lambda>(e, rule, v).
           rl_tenant_id rule = ae_tenant_id e \<and> rl_id rule = ae_alert_rule_id e \<and>
           rl_active_revision_id rule = Some (ae_alert_rule_revision_id e) \<and>
           rv_tenant_id v = ae_tenant_id e \<and> rv_id v = ae_alert_rule_revision_id e \<and>
           rv_alert_rule_id v = ae_alert_rule_id e \<and>
           ae_tenant_id e = tenant_id \<and> ae_model e = ep_model (rp_embedding request) \<and>
           ae_model_version e = ep_model_version (rp_embedding request) \<and>
           ae_dimensions e = as_i32 (ep_dimensions (rp_embedding request)) \<and>
           ae_normalization e = normalization_name (ep_normalization (rp_embedding request)) \<and>
           rv_enabled v \<and> rv_embedding_model v = ep_model (rp_embedding request) \<and>
           (length (rv_source_filters v) = 0 \<or>
            lit ''source:'' @ uuid_to_string E source_id \<in> set (rv_source_filters v)))
         (List.product (alert_embeddings_view db) (List.product (rules_view db) (rule_revisions_view db))))"

record alert_rank =
  al_embedding :: alert_embedding_row
  al_revision :: rule_revision_row
  al_distance :: f64

primrec rank_alerts ::
  "ext \<Rightarrow> f32 list \<Rightarrow> (alert_embedding_row \<times> rule_revision_row) list \<Rightarrow> alert_rank list option" where
  "rank_alerts E vec [] = Some []"
| "rank_alerts E vec (x # xs) =
     (case x of (e, v) \<Rightarrow>
        do { d \<leftarrow> cosine_distance E (ae_embedding e) vec;
             rows \<leftarrow> rank_alerts E vec xs;
             Some (\<lparr>al_embedding = e, al_revision = v, al_distance = d\<rparr> # rows) })"

definition alert_similarity :: "alert_rank \<Rightarrow> f64" where
  "alert_similarity a = sub64 one64 (al_distance a)"

definition alert_threshold :: "alert_rank \<Rightarrow> f64" where
  "alert_threshold a = f64_from (rv_similarity_threshold (al_revision a))"

definition candidate_statement ::
  "ext \<Rightarrow> uuid \<Rightarrow> uuid \<Rightarrow> reverse_page_request \<Rightarrow> db \<Rightarrow> (alert_rank list \<times> db) option" where
  "candidate_statement E tenant_id source_id request db =
     do {
       ensure (text_ok (ep_model (rp_embedding request)) \<and> text_ok (ep_model_version (rp_embedding request)));
       vec \<leftarrow> parse_vector E (vector_literal E (ep_values (rp_embedding request)));
       ranked \<leftarrow> rank_alerts E vec (alert_joins E tenant_id source_id request db);
       Some (take (unat (rp_max_candidates request))
         (sort_key (\<lambda>a. (pg_key (al_distance a), ae_id (al_embedding a)))
           (filter (\<lambda>a. pg_le (alert_threshold a) (alert_similarity a)) ranked)), db)
     }"

definition decode_alert :: "ext \<Rightarrow> alert_rank \<Rightarrow> candidate_wire option" where
  "decode_alert E a =
     do { similarity \<leftarrow> json_f64 E (alert_similarity a);
          threshold \<leftarrow> json_f64 E (alert_threshold a);
          Some \<lparr>cw_alert_rule_id = ae_alert_rule_id (al_embedding a),
                cw_alert_rule_revision_id = ae_alert_rule_revision_id (al_embedding a),
                cw_alert_embedding_id = ae_id (al_embedding a),
                cw_similarity = similarity, cw_threshold = threshold\<rparr> }"

definition find_alert_candidates ::
  "ext \<Rightarrow> uuid \<Rightarrow> uuid \<Rightarrow> reverse_page_request \<Rightarrow> candidate_wire list stmt" where
  "find_alert_candidates E tenant_id source_id request =
     seq (statement (candidate_statement E tenant_id source_id request)) (\<lambda>rows.
     of_result (traverse (\<lambda>row. decode_json_row (decode_alert E row)) rows))"

definition reverse_identity ::
  "uuid \<Rightarrow> reverse_page_request \<Rightarrow> page_wire \<Rightarrow> candidate_wire \<Rightarrow> match_identity" where
  "reverse_identity tenant_id request page c =
     \<lparr>mi_tenant_id = tenant_id, mi_alert_rule_id = cw_alert_rule_id c,
      mi_alert_rule_revision_id = cw_alert_rule_revision_id c,
      mi_page_revision_id = pw_page_revision_id page, mi_content_sha256 = pw_content_sha256 page,
      mi_model = ep_model (rp_embedding request), mi_model_version = ep_model_version (rp_embedding request),
      mi_dimensions = ep_dimensions (rp_embedding request),
      mi_normalization = ep_normalization (rp_embedding request)\<rparr>"

definition reverse_explanation ::
  "ext \<Rightarrow> reverse_page_request \<Rightarrow> rstr \<Rightarrow> page_wire \<Rightarrow> candidate_wire \<Rightarrow> json" where
  "reverse_explanation E request canonical_final_url page c =
     JObject
       [(lit ''match_mode'', JString (lit ''reverse_alert_stream'')),
        (lit ''semantic_similarity'', json_of_f64 (cw_similarity c)),
        (lit ''threshold'', json_of_f64 (cw_threshold c)),
        (lit ''alert_rule_revision_id'', JString (uuid_to_string E (cw_alert_rule_revision_id c))),
        (lit ''page_revision_id'', JString (uuid_to_string E (pw_page_revision_id page))),
        (lit ''model'', JString (ep_model (rp_embedding request))),
        (lit ''model_version'', JString (ep_model_version (rp_embedding request))),
        (lit ''dimensions'', JNumber (PosInt (unat (ep_dimensions (rp_embedding request))))),
        (lit ''normalization'', JString (normalization_name (ep_normalization (rp_embedding request)))),
        (lit ''canonical_url'', JString canonical_final_url),
        (lit ''content_sha256'', JString (pw_content_sha256 page)),
        (lit ''page_embedding_sha256'', JString (embedding_sha256 E (ep_values (rp_embedding request)))),
        (lit ''page_vector_persisted'', JBool False)]"

definition reverse_row ::
  "ext \<Rightarrow> timestamp \<Rightarrow> uuid \<Rightarrow> reverse_page_request \<Rightarrow> rstr \<Rightarrow> page_wire \<Rightarrow> candidate_wire \<Rightarrow> uuid \<Rightarrow> candidate_row" where
  "reverse_row E now tenant_id request canonical_final_url page c i =
     \<lparr>mc_id = i, mc_tenant_id = tenant_id, mc_alert_rule_id = cw_alert_rule_id c,
      mc_alert_rule_revision_id = Some (cw_alert_rule_revision_id c),
      mc_revision_id = pw_page_revision_id page, mc_embedding_id = None,
      mc_match_mode = lit ''reverse_alert_stream'', mc_alert_embedding_id = Some (cw_alert_embedding_id c),
      mc_page_embedding_sha256 = Some (embedding_sha256 E (ep_values (rp_embedding request))),
      mc_page_embedding_model = Some (ep_model (rp_embedding request)),
      mc_page_embedding_model_version = Some (ep_model_version (rp_embedding request)),
      mc_page_embedding_dimensions = Some (as_i32 (ep_dimensions (rp_embedding request))),
      mc_page_embedding_normalization = Some (normalization_name (ep_normalization (rp_embedding request))),
      mc_canonical_match_key = match_key E (reverse_identity tenant_id request page c),
      mc_similarity = cw_similarity c, mc_threshold = cw_threshold c, mc_status = lit ''pending'',
      mc_score_explanation = reverse_explanation E request canonical_final_url page c,
      mc_created_at = now, mc_updated_at = now\<rparr>"

text \<open>The stored candidate that a repeated reverse match finds: the same evidence throughout.\<close>

definition same_evidence :: "db \<Rightarrow> uuid \<Rightarrow> rstr \<Rightarrow> candidate_row \<Rightarrow> candidate_row \<Rightarrow> bool" where
  "same_evidence db tenant_id content_sha256 row c \<longleftrightarrow>
     mc_tenant_id c = mc_tenant_id row \<and> mc_canonical_match_key c = mc_canonical_match_key row \<and>
     mc_alert_rule_id c = mc_alert_rule_id row \<and>
     mc_alert_rule_revision_id c = mc_alert_rule_revision_id row \<and>
     mc_revision_id c = mc_revision_id row \<and> mc_match_mode c = lit ''reverse_alert_stream'' \<and>
     mc_alert_embedding_id c = mc_alert_embedding_id row \<and>
     mc_page_embedding_sha256 c = mc_page_embedding_sha256 row \<and>
     mc_page_embedding_model c = mc_page_embedding_model row \<and>
     mc_page_embedding_model_version c = mc_page_embedding_model_version row \<and>
     mc_page_embedding_dimensions c = mc_page_embedding_dimensions row \<and>
     mc_page_embedding_normalization c = mc_page_embedding_normalization row \<and>
     list_ex (\<lambda>r. pr_tenant_id r = tenant_id \<and> pr_id r = mc_revision_id c \<and>
       pr_content_sha256 r = content_sha256) (db_page_revisions db)"

definition decode_reverse :: "ext \<Rightarrow> candidate_row \<Rightarrow> reverse_candidate option" where
  "decode_reverse E row =
     do { rule_revision \<leftarrow> mc_alert_rule_revision_id row;
          alert_embedding \<leftarrow> mc_alert_embedding_id row;
          similarity \<leftarrow> json_f64 E (mc_similarity row);
          threshold \<leftarrow> json_f64 E (mc_threshold row);
          Some \<lparr>rd_id = mc_id row, rd_alert_rule_id = mc_alert_rule_id row,
                rd_alert_rule_revision_id = rule_revision, rd_page_revision_id = mc_revision_id row,
                rd_alert_embedding_id = alert_embedding, rd_similarity = similarity,
                rd_threshold = threshold, rd_canonical_match_key = mc_canonical_match_key row\<rparr> }"

definition persist_reverse_candidate ::
  "ext \<Rightarrow> timestamp \<Rightarrow> uuid \<Rightarrow> reverse_page_request \<Rightarrow> rstr \<Rightarrow> page_wire \<Rightarrow> candidate_wire \<Rightarrow> reverse_candidate stmt" where
  "persist_reverse_candidate E now tenant_id request canonical_final_url page c =
     candidate_upsert E (reverse_row E now tenant_id request canonical_final_url page c)
       (\<lambda>db. same_evidence db tenant_id (pw_content_sha256 page)
          (reverse_row E now tenant_id request canonical_final_url page c 0))
       (decode_reverse E)
       (HttpError_conflict (lit ''canonical match identity exists with different evidence''))"

definition accepted_candidate :: "candidate_wire \<Rightarrow> bool" where
  "accepted_candidate c \<longleftrightarrow> \<not> (\<not> is_finite64 (cw_similarity c) \<or> lt64 (cw_similarity c) (cw_threshold c))"

definition ingest_and_reverse_match ::
  "ext \<Rightarrow> interfaces \<Rightarrow> timestamp \<Rightarrow> uuid \<Rightarrow> uuid \<Rightarrow> reverse_page_request \<Rightarrow> rstr \<Rightarrow> rstr \<Rightarrow> reverse_match_response stmt" where
  "ingest_and_reverse_match E V now tenant_id source_id request original_url final_url =
     seq (of_result (validated (validate_reverse V request))) (\<lambda>_.
     transaction
       (seq (upsert_page_revision E now tenant_id source_id request original_url final_url) (\<lambda>page.
        seq (find_alert_candidates E tenant_id source_id request) (\<lambda>candidate_rows.
        seq (map_stmt (persist_reverse_candidate E now tenant_id request final_url page)
               (filter accepted_candidate candidate_rows)) (\<lambda>candidates.
        ret \<lparr>rm_page_id = pw_page_id page, rm_page_revision_id = pw_page_revision_id page,
             rm_content_sha256 = pw_content_sha256 page, rm_changed = pw_changed page,
             rm_page_vector_persisted = False, rm_candidates = candidates\<rparr>)))))"

section \<open>Integrity\<close>

lemma insert_alert_embedding_sound:
  assumes "insert_alert_embedding E row_of db = Some (r, db')" and "\<And>i. ae_tenant_id (row_of i) = t"
  shows "sound_step t db db'"
proof -
  let ?row = "row_of (gen_uuid E (db_seed db))"
  from assms(1) obtain ts b where ins: "insert_on_conflict alert_embedding_check alert_embedding_key ae_id ?row
      (db_alert_embeddings db) = Some (ts, b)"
    and fk: "b \<Longrightarrow> alert_embedding_fk db ?row"
    and db': "db' = db\<lparr>db_alert_embeddings := ts\<rparr>\<lparr>db_seed := Suc (db_seed db)\<rparr>"
    by (auto simp: insert_alert_embedding_def Let_def split: option.splits if_splits)
  have "sound_step t db (db\<lparr>db_alert_embeddings := ts\<rparr>)"
    using assms(2) db_wf_insert(2) [OF _ ins] fk
    by (cases rule: alert_embeddings.ins_cases [OF ins])
      (auto simp: sound_step_def wf_kept_def evidence_kept_def tenant_frame_def)
  then show ?thesis
    unfolding db' by (rule sound_seed)
qed

lemma upsert_embedding_statement_sound:
  assumes "upsert_embedding_statement E now t a request db = Some (rows, db')"
  shows "sound_step t db db'"
proof (cases "embedding_target t a request db")
  case Nil
  then show ?thesis
    using assms by (auto simp: upsert_embedding_statement_def bind_eq_Some_conv Let_def sound.R_refl)
next
  case (Cons target rest)
  then obtain vec r where "insert_alert_embedding E (alert_embedding_of E now t (au_embedding request) vec
      (timestamptz E now) target) db = Some (r, db')"
    using assms by (auto simp: upsert_embedding_statement_def bind_eq_Some_conv Let_def)
  then show ?thesis
    by (rule insert_alert_embedding_sound) (simp add: alert_embedding_of_def)
qed

lemma upsert_alert_rule_embedding_sound:
  "sound_step t db (snd (upsert_alert_rule_embedding E V now t a request db))"
  unfolding upsert_alert_rule_embedding_def
  by (intro sound.R_seq sound.R_statement sound.R_of_result)
    (auto intro: upsert_embedding_statement_sound sound.R_fail sound.R_ret split: list.split prod.split)

lemma page_revision_statement_sound:
  assumes "page_revision_statement E now t s request orig fin db = Some (rows, db')"
  shows "sound_step t db db'"
proof -
  from assms obtain page db1 inserted where
      page: "upsert_page E now t s fin (timestamptz E (rp_fetched_at request)) db = Some (page, db1)"
    and rev: "insert_revision E (\<lambda>i. page_revision_row_of E now i t (pg_id page) (pg_latest_revision_id page)
      orig fin (page_of_request request)) db1 = Some (inserted, db')"
    by (auto simp: page_revision_statement_def bind_eq_Some_conv Let_def split: prod.splits)
  have "sound_step t db db1"
    using page by (rule upsert_page_sound)
  moreover have "sound_step t db1 db'"
    using rev by (rule insert_revision_sound) (simp add: page_revision_row_of_def Let_def)
  ultimately show ?thesis
    by (rule sound.R_trans)
qed

lemma set_latest_revision_sound:
  assumes "set_latest_revision E now t page seen db = Some (u, db')"
  shows "sound_step t db db'"
proof -
  let ?target = "\<lambda>p. pg_tenant_id p = t \<and> pg_id p = pw_page_id page"
  let ?f = "\<lambda>p. if ?target p then p\<lparr>pg_latest_revision_id := Some (pw_page_revision_id page),
      pg_last_seen_at := timestamptz E seen, pg_updated_at := now\<rparr> else p"
  have ok: "\<not> list_ex ?target (db_pages db) \<or> has_page_revision db (pw_page_revision_id page)"
    and db': "db' = db\<lparr>db_pages := map ?f (db_pages db)\<rparr>"
    using assms by (auto simp: set_latest_revision_def Let_def split: if_splits)
  show ?thesis
    unfolding db'
  proof (rule map_pages_sound)
    show "null_or (has_page_revision db) (pg_latest_revision_id (?f p))"
      if "db_wf db" "p \<in> set (db_pages db)" for p
      using that ok by (auto simp: db_wf_def references_ok_def list_all_iff list_ex_iff page_fk_def null_or_def)
  qed (auto simp: page_identity_def)
qed

lemma upsert_page_revision_sound: "sound_step t db (snd (upsert_page_revision E now t s request orig fin db))"
  unfolding upsert_page_revision_def
  by (intro sound.R_seq sound.R_statement)
    (auto intro!: sound.R_seq sound.R_statement sound.R_ret sound.R_fail
      intro: page_revision_statement_sound set_latest_revision_sound split: list.split)

lemma candidate_statement_db: "candidate_statement E t s request db = Some (rows, db') \<Longrightarrow> db' = db"
  by (auto simp: candidate_statement_def bind_eq_Some_conv)

lemma find_alert_candidates_read_only: "snd (find_alert_candidates E t s request db) = db"
  by (auto simp: find_alert_candidates_def seq_def statement_def of_result_def
      dest: candidate_statement_db split: option.splits prod.splits sum.splits)

lemma persist_reverse_candidate_sound:
  "sound_step t db (snd (persist_reverse_candidate E now t request fin page c db))"
  unfolding persist_reverse_candidate_def by (rule candidate_upsert_sound) (simp add: reverse_row_def)

lemma ingest_and_reverse_match_sound:
  "sound_step t db (snd (ingest_and_reverse_match E V now t s request orig fin db))"
  unfolding ingest_and_reverse_match_def
  by (intro sound.R_seq sound.R_of_result sound.R_transaction sound.R_map_stmt sound.R_ret
      upsert_page_revision_sound persist_reverse_candidate_sound)
    (simp add: find_alert_candidates_read_only sound.R_refl)

section \<open>Row-level security without a request context\<close>

lemma views_empty:
  assumes "\<not> db_bypass_rls db" and "db_settings db = None"
  shows "rules_view db = []" and "rule_revisions_view db = []" and "alert_embeddings_view db = []"
  using assms by (simp_all add: rules_view_def rule_revisions_view_def alert_embeddings_view_def rule_visible_def
      rule_revision_visible_def alert_embedding_visible_def)

text \<open>What the candidates of a page depend on.\<close>

definition same_alerts :: "db \<Rightarrow> db \<Rightarrow> bool" where
  "same_alerts db db' \<longleftrightarrow> db_bypass_rls db' = db_bypass_rls db \<and> db_settings db' = db_settings db \<and>
     db_rules db' = db_rules db \<and> db_rule_revisions db' = db_rule_revisions db \<and>
     db_alert_embeddings db' = db_alert_embeddings db"

lemma upsert_page_alerts: "upsert_page E now t s url seen db = Some (p, db') \<Longrightarrow> same_alerts db db'"
  by (auto simp: upsert_page_def Let_def same_alerts_def split: if_splits option.splits)

lemma insert_revision_alerts: "insert_revision E f db = Some (r, db') \<Longrightarrow> same_alerts db db'"
  by (auto simp: insert_revision_def Let_def same_alerts_def split: if_splits option.splits)

lemma upsert_page_revision_Inr:
  "upsert_page_revision E now t s request orig fin db = (Inr page, db') \<longleftrightarrow>
     (\<exists>rest d. page_revision_statement E now t s request orig fin db = Some (page # rest, d) \<and>
        set_latest_revision E now t page (rp_fetched_at request) d = Some ((), db'))"
proof (cases "page_revision_statement E now t s request orig fin db")
  case None
  then show ?thesis
    by (simp add: upsert_page_revision_def seq_def statement_def)
next
  case (Some x)
  obtain rows d where "x = (rows, d)" by (cases x)
  with Some show ?thesis
    by (cases rows; cases "set_latest_revision E now t (hd rows) (rp_fetched_at request) d")
      (auto simp: upsert_page_revision_def seq_def statement_def ret_def fail_def)
qed

lemma upsert_page_revision_alerts:
  assumes "upsert_page_revision E now t s request orig fin db = (Inr page, db')"
  shows "same_alerts db db'"
proof -
  from assms obtain rest d where st: "page_revision_statement E now t s request orig fin db = Some (page # rest, d)"
    and l: "set_latest_revision E now t page (rp_fetched_at request) d = Some ((), db')"
    unfolding upsert_page_revision_Inr by blast
  from st obtain p db1 f r where "upsert_page E now t s fin (timestamptz E (rp_fetched_at request)) db = Some (p, db1)"
    and "insert_revision E f db1 = Some (r, d)"
    by (auto simp: page_revision_statement_def bind_eq_Some_conv Let_def split: prod.splits)
  then have "same_alerts db db1" "same_alerts db1 d"
    by (auto intro: upsert_page_alerts insert_revision_alerts)
  moreover have "same_alerts d db'"
    using l by (auto simp: set_latest_revision_def Let_def same_alerts_def split: if_splits)
  ultimately show ?thesis
    by (simp add: same_alerts_def)
qed

end
