(* ===== verification/Reverse_Stream.thy ===== *)
theory Reverse_Stream
  imports Reverse_Match
begin

text \<open>
  What the reverse alert stream guarantees: pages are stored with their revisions, repeated
  deliveries are harmless, candidates are sound and bounded, and what row-level security does to
  it.
\<close>

section \<open>The page and its revision\<close>

lemma upsert_page_row:
  assumes "upsert_page E now t s url seen db = Some (p, db')"
  shows "p \<in> set (db_pages db')" and "page_key p = (t, s, url)" and "text_ok url"
    and "db_page_revisions db' = db_page_revisions db"
proof -
  let ?touch = "\<lambda>q. q\<lparr>pg_last_seen_at := seen, pg_updated_at := now\<rparr>"
  have key: "page_key (?touch q) = page_key q" for q
    by (simp add: page_key_def)
  from assms consider (old) q where "q \<in> set (db_pages db)" "page_key q = (t, s, url)" "p = ?touch q"
      "db_pages db' = map (\<lambda>x. if page_key x = (t, s, url) then ?touch x else x) (db_pages db)"
    | (new) "p \<in> set (db_pages db')" "page_key p = (t, s, url)"
    by (auto simp: upsert_page_def Let_def page_key_def dest!: find_SomeD split: if_splits option.splits)
  then have "p \<in> set (db_pages db') \<and> page_key p = (t, s, url)"
    by cases (auto simp: key intro!: rev_image_eqI)
  then show "p \<in> set (db_pages db')" and "page_key p = (t, s, url)"
    by simp_all
  show "text_ok url" and "db_page_revisions db' = db_page_revisions db"
    using assms by (auto simp: upsert_page_def Let_def page_check_def split: if_splits option.splits)
qed

lemma revision_row_frame:
  "page_revision_key (page_revision_row_of E now i t pid pred orig fin input) =
     (t, pid, sha256_hex E (as_bytes (normalize_content (pi_content_text input))))"
  "page_revision_check (page_revision_row_of E now i t pid pred orig fin input) =
     page_revision_check (page_revision_row_of E 0 0 0 0 None orig fin input)"
  by (simp_all add: page_revision_key_def page_revision_check_def page_revision_row_of_def Let_def)

lemma insert_revision_Some:
  "insert_revision E row_of db = Some (r, db') \<longleftrightarrow>
     (\<exists>ts b. insert_on_conflict page_revision_check page_revision_key pr_id (row_of (gen_uuid E (db_seed db)))
         (db_page_revisions db) = Some (ts, b) \<and>
        (b \<longrightarrow> page_revision_fk db (row_of (gen_uuid E (db_seed db)))) \<and>
        r = (if b then Some (row_of (gen_uuid E (db_seed db))) else None) \<and>
        db' = db\<lparr>db_seed := Suc (db_seed db), db_page_revisions := ts\<rparr>)"
  by (auto simp: insert_revision_def Let_def split: option.splits)

text \<open>The content digest of a request.\<close>

definition content_digest :: "ext \<Rightarrow> reverse_page_request \<Rightarrow> rstr" where
  "content_digest E request = sha256_hex E (as_bytes (normalize_content (rp_content_text request)))"

definition texts_ok :: "reverse_page_request \<Rightarrow> rstr \<Rightarrow> rstr \<Rightarrow> bool" where
  "texts_ok request orig fin \<longleftrightarrow> list_all text_ok [fin, orig, (case rp_title request of None \<Rightarrow> [] | Some t \<Rightarrow> t),
     rp_content_text request, rp_content_type request]"

lemma page_of_request_text [simp]: "pi_content_text (page_of_request request) = rp_content_text request"
  by (simp add: page_of_request_def)

lemma select_revision_known:
  assumes "table_ok page_revision_check page_revision_key pr_id (db_page_revisions db)"
    and "r \<in> set (db_page_revisions db)" and "page_revision_key r = (t, pid, sha)"
  shows "select_revision db t pid sha None = [(pr_id r, False)]"
proof -
  have "filter (\<lambda>r. pr_page_id r = pid \<and> pr_tenant_id r = t \<and> pr_content_sha256 r = sha) (db_page_revisions db) = [r]"
    using assms(1,2) by (rule page_revisions.filter_key) (use assms(3) in \<open>auto simp: page_revision_key_def\<close>)
  then show ?thesis
    by (simp add: select_revision_def)
qed

lemma page_revision_statement_result:
  assumes "page_revision_statement E now t s request orig fin db = Some (rows, db')" and "db_wf db"
  obtains p r changed where "rows = [\<lparr>pw_page_id = pg_id p, pw_page_revision_id = pr_id r,
      pw_content_sha256 = content_digest E request, pw_changed = changed\<rparr>]"
    and "p \<in> set (db_pages db')" and "page_key p = (t, s, fin)" and "r \<in> set (db_page_revisions db')"
    and "page_revision_key r = (t, pg_id p, content_digest E request)" and "texts_ok request orig fin"
    and "page_revision_check (page_revision_row_of E 0 0 0 0 None orig fin (page_of_request request))"
    and "changed \<longleftrightarrow> (t, pg_id p, content_digest E request) \<notin> page_revision_key ` set (db_page_revisions db)"
proof -
  from assms(1) obtain p db1 u where tx: "texts_ok request orig fin"
    and page: "upsert_page E now t s fin (timestamptz E (rp_fetched_at request)) db = Some (p, db1)"
    and rev: "insert_revision E (\<lambda>i. page_revision_row_of E now i t (pg_id p) (pg_latest_revision_id p)
      orig fin (page_of_request request)) db1 = Some (u, db')"
    and rows: "rows = map (\<lambda>(r, changed). \<lparr>pw_page_id = pg_id p, pw_page_revision_id = r,
         pw_content_sha256 = content_digest E request, pw_changed = changed\<rparr>)
       (select_revision db t (pg_id p) (content_digest E request) u)"
    by (auto simp: page_revision_statement_def bind_eq_Some_conv Let_def content_digest_def texts_ok_def
        split: prod.splits)
  note p = upsert_page_row [OF page]
  let ?row = "page_revision_row_of E now (gen_uuid E (db_seed db1)) t (pg_id p) (pg_latest_revision_id p)
      orig fin (page_of_request request)"
  from rev obtain ts b where
      ins: "insert_on_conflict page_revision_check page_revision_key pr_id ?row (db_page_revisions db) = Some (ts, b)"
    and u: "u = (if b then Some ?row else None)"
    and db': "db' = db1\<lparr>db_seed := Suc (db_seed db1), db_page_revisions := ts\<rparr>"
    unfolding insert_revision_Some p(4) by auto
  have pages: "p \<in> set (db_pages db')"
    using p(1) by (simp add: db')
  have key: "page_revision_key ?row = (t, pg_id p, content_digest E request)"
    by (simp add: revision_row_frame content_digest_def)
  have chk: "page_revision_check (page_revision_row_of E 0 0 0 0 None orig fin (page_of_request request))"
    using ins revision_row_frame(2) [of E now "gen_uuid E (db_seed db1)" t "pg_id p" "pg_latest_revision_id p"
        orig fin "page_of_request request"]
    by (cases rule: page_revisions.ins_cases [OF ins]) simp_all
  have ok: "table_ok page_revision_check page_revision_key pr_id (db_page_revisions db)"
    using assms(2) by (simp add: db_wf_def tables_ok_def)
  show ?thesis
  proof (cases rule: page_revisions.ins_cases [OF ins])
    case 1
    then show ?thesis
      using that [of p ?row True] rows u pages p(2) key tx chk by (simp add: db' select_revision_def)
  next
    case 2
    then obtain r where r: "r \<in> set (db_page_revisions db)" "page_revision_key r = (t, pg_id p, content_digest E request)"
      unfolding key by auto
    moreover have "(t, pg_id p, content_digest E request) \<in> page_revision_key ` set (db_page_revisions db)"
      using 2(3) by (simp add: key)
    ultimately show ?thesis
      using that [of p r False] 2 rows u pages p(2) tx chk select_revision_known [OF ok r] by (simp add: db')
  qed
qed


text \<open>Only pages and the supply of identifiers change.\<close>

definition pages_only :: "db \<Rightarrow> db \<Rightarrow> bool" where
  "pages_only db db' \<longleftrightarrow> db_bypass_rls db' = db_bypass_rls db \<and> db_settings db' = db_settings db \<and>
     db_sources db' = db_sources db \<and> db_page_revisions db' = db_page_revisions db \<and>
     db_embeddings db' = db_embeddings db \<and> db_candidates db' = db_candidates db \<and> db_rules db' = db_rules db \<and>
     db_rule_revisions db' = db_rule_revisions db \<and> db_alert_embeddings db' = db_alert_embeddings db"

lemma upsert_page_again:
  assumes "db_wf d" and "p \<in> set (db_pages d)" and "page_key p = (t, s, fin)" and "text_ok fin"
  obtains q d' where "upsert_page E now t s fin seen d = Some (q, d')" and "pg_id q = pg_id p" and "pages_only d d'"
proof -
  have "table_ok page_check page_key pg_id (db_pages d)"
    using assms(1) by (simp add: db_wf_def tables_ok_def)
  then have "find (\<lambda>q. page_key q = (t, s, fin)) (db_pages d) = Some p"
    using assms(2,3) by (intro pages.find_key) simp_all
  then show ?thesis
    using that assms(4)
    by (auto simp: upsert_page_def Let_def page_key_def page_check_def pages_only_def)
qed

lemma upsert_page_revision_again:
  assumes wf: "db_wf d" and p: "p \<in> set (db_pages d)" "page_key p = (t, s, fin)"
    and r: "r \<in> set (db_page_revisions d)" "page_revision_key r = (t, pg_id p, content_digest E request)"
    and tx: "texts_ok request orig fin"
    and chk: "page_revision_check (page_revision_row_of E 0 0 0 0 None orig fin (page_of_request request))"
  obtains d' where "upsert_page_revision E now t s request orig fin d =
      (Inr \<lparr>pw_page_id = pg_id p, pw_page_revision_id = pr_id r,
        pw_content_sha256 = content_digest E request, pw_changed = False\<rparr>, d')"
    and "pages_only d d'"
proof -
  have "text_ok fin"
    using tx by (simp add: texts_ok_def)
  then obtain q d1 where q: "upsert_page E now t s fin (timestamptz E (rp_fetched_at request)) d = Some (q, d1)"
      "pg_id q = pg_id p" and d1: "pages_only d d1"
    using upsert_page_again [OF wf p] by blast
  let ?row = "page_revision_row_of E now (gen_uuid E (db_seed d1)) t (pg_id q) (pg_latest_revision_id q)
      orig fin (page_of_request request)"
  have revs: "db_page_revisions d1 = db_page_revisions d"
    using d1 by (auto simp: pages_only_def)
  have "page_revision_key ?row = page_revision_key r"
    by (simp add: revision_row_frame q(2) r(2) content_digest_def)
  then have "insert_on_conflict page_revision_check page_revision_key pr_id ?row (db_page_revisions d) =
      Some (db_page_revisions d, False)"
    using r(1) chk revision_row_frame(2) [of E now "gen_uuid E (db_seed d1)" t "pg_id q" "pg_latest_revision_id q"
        orig fin "page_of_request request"]
    by (simp add: page_revisions.ins_conflict)
  then have ins: "insert_revision E (\<lambda>i. page_revision_row_of E now i t (pg_id q) (pg_latest_revision_id q)
      orig fin (page_of_request request)) d1 = Some (None, d1\<lparr>db_seed := Suc (db_seed d1)\<rparr>)"
    unfolding insert_revision_Some revs using revs by (auto simp: db.defs)
  have "table_ok page_revision_check page_revision_key pr_id (db_page_revisions d)"
    using wf by (simp add: db_wf_def tables_ok_def)
  note sel = select_revision_known [OF this r]
  let ?w = "\<lparr>pw_page_id = pg_id p, pw_page_revision_id = pr_id r,
        pw_content_sha256 = content_digest E request, pw_changed = False\<rparr>"
  let ?d2 = "d1\<lparr>db_seed := Suc (db_seed d1)\<rparr>"
  have st: "page_revision_statement E now t s request orig fin d = Some ([?w], ?d2)"
    using tx q ins sel
    by (simp add: page_revision_statement_def texts_ok_def ensure_def content_digest_def Let_def)
  have "has_page_revision ?d2 (pr_id r)"
    using r(1) revs by (auto simp: has_page_revision_def list_ex_iff)
  then obtain d' where "set_latest_revision E now t ?w (rp_fetched_at request) ?d2 = Some ((), d')"
    and "pages_only ?d2 d'"
    by (auto simp: set_latest_revision_def Let_def pages_only_def)
  then show ?thesis
    using that [of d'] st d1 unfolding upsert_page_revision_Inr by (auto simp: pages_only_def)
qed

section \<open>Repeating a reverse match\<close>

lemma reverse_row_frame:
  "candidate_key (reverse_row E now t request fin page c i) = (t, match_key E (reverse_identity t request page c))"
  "candidate_check (reverse_row E now t request fin page c i) =
     candidate_check (reverse_row E 0 t request fin page c 0)"
  "same_evidence db t' sha (reverse_row E now t request fin page c i) x =
     same_evidence db t' sha (reverse_row E 0 t request fin page c 0) x"
  by (simp_all add: candidate_key_def candidate_check_def same_evidence_def reverse_row_def)

lemma same_evidence_key: "same_evidence db t sha row x \<Longrightarrow> candidate_key x = candidate_key row"
  by (simp add: same_evidence_def candidate_key_def)

definition revision_ready :: "uuid \<Rightarrow> page_wire \<Rightarrow> db \<Rightarrow> bool" where
  "revision_ready t page db \<longleftrightarrow> list_ex (\<lambda>r. pr_tenant_id r = t \<and> pr_id r = pw_page_revision_id page \<and>
     pr_content_sha256 r = pw_content_sha256 page) (db_page_revisions db)"

definition reverse_stored ::
  "ext \<Rightarrow> uuid \<Rightarrow> reverse_page_request \<Rightarrow> rstr \<Rightarrow> page_wire \<Rightarrow> db \<Rightarrow> candidate_wire \<Rightarrow> reverse_candidate \<Rightarrow> bool" where
  "reverse_stored E t request fin page db c rc \<longleftrightarrow>
     candidate_check (reverse_row E 0 t request fin page c 0) \<and>
     list_ex (\<lambda>row. same_evidence db t (pw_content_sha256 page) (reverse_row E 0 t request fin page c 0) row \<and>
       decode_reverse E row = Some rc) (db_candidates db)"

lemma persist_reverse_candidate_corpus:
  "candidates_only db (snd (persist_reverse_candidate E now t request fin page c db))"
  unfolding persist_reverse_candidate_def by (rule candidate_upsert_corpus)

lemma same_evidence_kept:
  "same_evidence db t sha row x \<Longrightarrow> evidence_kept db d \<Longrightarrow> same_evidence d t sha row x"
  using appended_set [of "db_page_revisions db" "db_page_revisions d"]
  by (auto simp: same_evidence_def evidence_kept_def list_ex_iff)

interpretation reverse: retry_safe "\<lambda>now. persist_reverse_candidate E now t request fin page"
  "revision_ready t page" "reverse_stored E t request fin page" for E t request fin page
proof
  show "reverse_stored E t request fin page db' c rc"
    if ready: "revision_ready t page db" and up: "persist_reverse_candidate E now t request fin page c db = (Inr rc, db')"
    for db now c rc db'
  proof -
    have kept: "evidence_kept db db'"
      using persist_reverse_candidate_sound [of t db E now request fin page c] up by (simp add: sound_step_def)
    show ?thesis
      using up unfolding persist_reverse_candidate_def
    proof (rule candidate_upsert_stored)
      show "same_evidence db t (pw_content_sha256 page) (reverse_row E now t request fin page c 0)
          (reverse_row E now t request fin page c i)" for i
        using ready by (simp add: same_evidence_def reverse_row_def revision_ready_def)
      fix row i
      assume "same_evidence db t (pw_content_sha256 page) (reverse_row E now t request fin page c 0) row"
        and "row \<in> set (db_candidates db')" "decode_reverse E row = Some rc"
        and "candidate_check (reverse_row E now t request fin page c i)"
      then show "reverse_stored E t request fin page db' c rc"
        using reverse_row_frame(2) [of E now t request fin page c i]
          reverse_row_frame(3) [of db t "pw_content_sha256 page" E now t request fin page c 0]
          same_evidence_kept [OF _ kept]
        unfolding reverse_stored_def list_ex_iff by blast
    qed
  qed
  show "persist_reverse_candidate E now t request fin page c db = (Inr rc, db\<lparr>db_seed := Suc (db_seed db)\<rparr>)"
    if "reverse_stored E t request fin page db c rc" "table_ok candidate_check candidate_key mc_id (db_candidates db)"
    for db c rc now
  proof -
    from that(1) obtain row where row: "row \<in> set (db_candidates db)" "decode_reverse E row = Some rc"
      and ev: "same_evidence db t (pw_content_sha256 page) (reverse_row E 0 t request fin page c 0) row"
      and chk: "candidate_check (reverse_row E 0 t request fin page c 0)"
      by (auto simp: reverse_stored_def list_ex_iff)
    show ?thesis
      unfolding persist_reverse_candidate_def
    proof (rule candidate_upsert_again)
      show "same_evidence db t (pw_content_sha256 page) (reverse_row E now t request fin page c 0) row"
        using ev reverse_row_frame(3) by blast
      show "candidate_check (reverse_row E now t request fin page c i)" for i
        using chk reverse_row_frame(2) by blast
      show "candidate_key x = candidate_key (reverse_row E now t request fin page c i)"
        if "same_evidence db t (pw_content_sha256 page) (reverse_row E now t request fin page c 0) x" for x i
        using same_evidence_key [OF that] by (simp add: reverse_row_frame(1))
    qed (use row that(2) in simp_all)
  qed
  show "evidence_kept db (snd (persist_reverse_candidate E now t request fin page c db))" for db now c
    using persist_reverse_candidate_sound by (simp add: sound_step_def)
  show "revision_ready t page d" if "revision_ready t page db" "evidence_kept db d" for db d
    using that appended_set [of "db_page_revisions db" "db_page_revisions d"]
    by (auto simp: revision_ready_def evidence_kept_def list_ex_iff)
  show "reverse_stored E t request fin page d c rc"
    if "reverse_stored E t request fin page db c rc" "evidence_kept db d" for db d c rc
  proof -
    have "set (db_candidates db) \<subseteq> set (db_candidates d)"
      using that(2) by (simp add: evidence_kept_def appended_set)
    then show ?thesis
      using that(1) same_evidence_kept [OF _ that(2)] unfolding reverse_stored_def list_ex_iff by blast
  qed
qed

lemma alert_joins_same:
  assumes "same_alerts db db'"
  shows "alert_joins E t s request db' = alert_joins E t s request db"
proof -
  have "rule_visible db' = rule_visible db"
    using assms by (auto simp: same_alerts_def rule_visible_def fun_eq_iff)
  then have v: "rules_view db' = rules_view db"
    using assms by (simp add: rules_view_def same_alerts_def)
  then have "rule_revision_visible db' = rule_revision_visible db"
    "alert_embedding_visible db' = alert_embedding_visible db"
    using assms
    by (simp_all add: same_alerts_def rule_revision_visible_def alert_embedding_visible_def fun_eq_iff v
        split: option.split)
  then show ?thesis
    using assms v
    by (simp add: alert_joins_def rule_revisions_view_def alert_embeddings_view_def same_alerts_def)
qed

lemma find_alert_candidates_same:
  assumes "same_alerts db db'" and "find_alert_candidates E t s request db = (Inr cs, d)"
  shows "find_alert_candidates E t s request db' = (Inr cs, db')"
proof -
  have eq: "candidate_statement E t s request db' = map_option (\<lambda>(rows, _). (rows, db')) (candidate_statement E t s request db)"
    unfolding candidate_statement_def alert_joins_same [OF assms(1)]
    by (simp add: ensure_def split: Option.bind_splits)
  show ?thesis
    using assms(2)
    by (auto simp: find_alert_candidates_def seq_def statement_def of_result_def eq split: option.splits sum.splits)
qed

lemma persist_changed_irrelevant:
  "persist_reverse_candidate E now t request fin (page\<lparr>pw_changed := b\<rparr>) =
     persist_reverse_candidate E now t request fin page"
proof -
  have "reverse_row E now t request fin (page\<lparr>pw_changed := b\<rparr>) = reverse_row E now t request fin page"
    by (simp add: reverse_row_def reverse_identity_def reverse_explanation_def fun_eq_iff)
  then show ?thesis
    by (simp add: persist_reverse_candidate_def [abs_def])
qed


lemma set_latest_revision_kept:
  assumes "set_latest_revision E now t page seen db = Some (u, db')"
  shows "pages_only db db'" and "map page_identity (db_pages db') = map page_identity (db_pages db)"
  using assms by (auto simp: set_latest_revision_def Let_def pages_only_def page_identity_def split: if_splits)

lemma page_by_identity:
  assumes "p \<in> set ps" and "map page_identity ps = map page_identity qs"
  obtains q where "q \<in> set qs" and "page_key q = page_key p" and "pg_id q = pg_id p"
proof -
  have "page_identity p \<in> page_identity ` set qs"
    using assms by (metis image_eqI image_set)
  then show ?thesis
    using that by (auto simp: page_identity_def page_key_def)
qed

text \<open>After a page has been ingested, the same request finds it and its revision.\<close>

lemma upsert_page_revision_result:
  assumes "upsert_page_revision E now t s request orig fin db = (Inr page, db')" and "db_wf db"
  obtains p r where "page = \<lparr>pw_page_id = pg_id p, pw_page_revision_id = pr_id r,
      pw_content_sha256 = content_digest E request, pw_changed = pw_changed page\<rparr>"
    and "p \<in> set (db_pages db')" and "page_key p = (t, s, fin)" and "r \<in> set (db_page_revisions db')"
    and "page_revision_key r = (t, pg_id p, content_digest E request)" and "texts_ok request orig fin"
    and "page_revision_check (page_revision_row_of E 0 0 0 0 None orig fin (page_of_request request))"
    and "pw_changed page \<longleftrightarrow> (t, pg_id p, content_digest E request) \<notin> page_revision_key ` set (db_page_revisions db)"
proof -
  from assms(1) obtain rest d where st: "page_revision_statement E now t s request orig fin db = Some (page # rest, d)"
    and l: "set_latest_revision E now t page (rp_fetched_at request) d = Some ((), db')"
    unfolding upsert_page_revision_Inr by blast
  show ?thesis
  proof (rule page_revision_statement_result [OF st assms(2)])
    fix q r changed
    assume rows: "page # rest = [\<lparr>pw_page_id = pg_id q, pw_page_revision_id = pr_id r,
        pw_content_sha256 = content_digest E request, pw_changed = changed\<rparr>]"
      and q: "q \<in> set (db_pages d)" "page_key q = (t, s, fin)"
      and r: "r \<in> set (db_page_revisions d)" "page_revision_key r = (t, pg_id q, content_digest E request)"
      and rest: "texts_ok request orig fin"
        "page_revision_check (page_revision_row_of E 0 0 0 0 None orig fin (page_of_request request))"
        "changed \<longleftrightarrow> (t, pg_id q, content_digest E request) \<notin> page_revision_key ` set (db_page_revisions db)"
    obtain p where "p \<in> set (db_pages db')" "page_key p = page_key q" "pg_id p = pg_id q"
      using page_by_identity [OF q(1) set_latest_revision_kept(2) [OF l, symmetric]] .
    moreover have "r \<in> set (db_page_revisions db')"
      using set_latest_revision_kept(1) [OF l] r(1) by (simp add: pages_only_def)
    ultimately show ?thesis
      using that [of p r] rows q r rest by simp
  qed
qed

lemma ingest_and_reverse_match_Inr:
  "ingest_and_reverse_match E V now t s request orig fin db = (Inr resp, db') \<longleftrightarrow>
     validate_reverse V request = Inr () \<and>
     (\<exists>page d1 cs cands d2.
        upsert_page_revision E now t s request orig fin (db\<lparr>db_settings := None\<rparr>) = (Inr page, d1) \<and>
        find_alert_candidates E t s request d1 = (Inr cs, d1) \<and>
        map_stmt (persist_reverse_candidate E now t request fin page) (filter accepted_candidate cs) d1 = (Inr cands, d2) \<and>
        resp = \<lparr>rm_page_id = pw_page_id page, rm_page_revision_id = pw_page_revision_id page,
             rm_content_sha256 = pw_content_sha256 page, rm_changed = pw_changed page,
             rm_page_vector_persisted = False, rm_candidates = cands\<rparr> \<and>
        db' = d2\<lparr>db_settings := db_settings db\<rparr>)"
proof -
  have "find_alert_candidates E t s request d = (Inr cs, d') \<longleftrightarrow> find_alert_candidates E t s request d = (Inr cs, d) \<and> d' = d"
    for d cs d'
    using find_alert_candidates_read_only [of E t s request d] by auto
  note eq = this
  have val: "of_result (validated (validate_reverse V request)) db = (Inr u, d) \<longleftrightarrow>
      validate_reverse V request = Inr () \<and> d = db" for u d
    by (cases "validate_reverse V request") (auto simp: of_result_def validated_def)
  show ?thesis
    unfolding ingest_and_reverse_match_def seq_Inr transaction_Inr ret_eq val
    by (subst eq) auto
qed

lemma upsert_page_total:
  assumes "text_ok fin" and "has_source db s" and "gen_uuid E (db_seed db) \<notin> pg_id ` set (db_pages db)"
  shows "upsert_page E now t s fin seen db \<noteq> None"
  using assms by (auto simp: upsert_page_def Let_def page_check_def split: option.split)

lemma upsert_page_latest:
  assumes "upsert_page E now t s fin seen db = Some (p, db')" and "db_wf db"
  shows "null_or (has_page_revision db') (pg_latest_revision_id p)" and "has_page db' (pg_id p)"
proof -
  have "db_wf db'"
    using upsert_page_sound [OF assms(1)] assms(2) by (simp add: sound_step_def wf_kept_def)
  moreover have "p \<in> set (db_pages db')"
    using upsert_page_row(1) [OF assms(1)] .
  ultimately show "null_or (has_page_revision db') (pg_latest_revision_id p)" "has_page db' (pg_id p)"
    by (auto simp: db_wf_def references_ok_def list_all_iff page_fk_def has_page_def list_ex_iff)
qed

lemma page_revision_statement_total:
  assumes "db_wf db" and "has_source db s" and "texts_ok request orig fin"
    and "page_revision_check (page_revision_row_of E 0 0 0 0 None orig fin (page_of_request request))"
    and "gen_uuid E (db_seed db) \<notin> pg_id ` set (db_pages db)"
    and "gen_uuid E (Suc (db_seed db)) \<notin> pr_id ` set (db_page_revisions db)"
  obtains rows db2 where "page_revision_statement E now t s request orig fin db = Some (rows, db2)"
proof -
  have "text_ok fin"
    using assms(3) by (simp add: texts_ok_def)
  with upsert_page_total [OF _ assms(2,5)] obtain p db1
    where page: "upsert_page E now t s fin (timestamptz E (rp_fetched_at request)) db = Some (p, db1)"
    by fastforce
  let ?row = "page_revision_row_of E now (gen_uuid E (db_seed db1)) t (pg_id p) (pg_latest_revision_id p)
      orig fin (page_of_request request)"
  have chk: "page_revision_check ?row"
    using assms(4) revision_row_frame(2) by blast
  have seed: "db_seed db1 = Suc (db_seed db)"
    using page by (auto simp: upsert_page_def Let_def split: if_splits option.splits)
  have revs: "db_page_revisions db1 = db_page_revisions db"
    using upsert_page_row(4) [OF page] .
  have "page_revision_fk db1 ?row"
    using upsert_page_latest [OF page assms(1)] by (simp add: page_revision_fk_def page_revision_row_of_def Let_def)
  moreover have "pr_id ?row = gen_uuid E (Suc (db_seed db))"
    by (simp add: page_revision_row_of_def Let_def seed)
  then have "\<exists>ts b. insert_on_conflict page_revision_check page_revision_key pr_id ?row (db_page_revisions db1) = Some (ts, b)"
    using chk assms(6) by (simp add: insert_on_conflict_def revs ex_bool_eq)
  ultimately obtain u db2 where rev: "insert_revision E (\<lambda>i. page_revision_row_of E now i t (pg_id p)
      (pg_latest_revision_id p) orig fin (page_of_request request)) db1 = Some (u, db2)"
    unfolding insert_revision_Some by blast
  show ?thesis
    using that page rev assms(3) by (simp add: page_revision_statement_def texts_ok_def ensure_def Let_def)
qed

lemma upsert_page_revision_total:
  assumes "db_wf db" and "has_source db s" and "texts_ok request orig fin"
    and "page_revision_check (page_revision_row_of E 0 0 0 0 None orig fin (page_of_request request))"
    and "gen_uuid E (db_seed db) \<notin> pg_id ` set (db_pages db)"
    and "gen_uuid E (Suc (db_seed db)) \<notin> pr_id ` set (db_page_revisions db)"
  obtains page db' where "upsert_page_revision E now t s request orig fin db = (Inr page, db')"
    and "db_candidates db' = db_candidates db" and "has_page_revision db' (pw_page_revision_id page)"
proof -
  obtain rows d where st: "page_revision_statement E now t s request orig fin db = Some (rows, d)"
    using page_revision_statement_total [OF assms] .
  have cand: "db_candidates d = db_candidates db"
    using st by (auto simp: page_revision_statement_def bind_eq_Some_conv Let_def upsert_page_def insert_revision_Some
        split: prod.splits if_splits option.splits)
  show ?thesis
  proof (rule page_revision_statement_result [OF st assms(1)])
    fix p r changed
    assume rows: "rows = [\<lparr>pw_page_id = pg_id p, pw_page_revision_id = pr_id r,
        pw_content_sha256 = content_digest E request, pw_changed = changed\<rparr>]"
      and r: "r \<in> set (db_page_revisions d)"
    have "has_page_revision d (pr_id r)"
      using r by (auto simp: has_page_revision_def list_ex_iff)
    then show ?thesis
      using that st rows cand unfolding upsert_page_revision_Inr
      by (simp add: set_latest_revision_def Let_def has_page_revision_def)
  qed
qed

lemma list_all2_right: "list_all2 P xs ys \<Longrightarrow> y \<in> set ys \<Longrightarrow> \<exists>x \<in> set xs. P x y"
  by (induction rule: list_all2_induct) auto

lemma reverse_ready:
  assumes "upsert_page_revision E now t s request orig fin db = (Inr page, d1)" and "db_wf db"
  shows "db_wf d1" and "revision_ready t page d1"
proof -
  show "db_wf d1"
    using upsert_page_revision_sound [of t db E now s request orig fin] assms by (simp add: sound_step_def wf_kept_def)
  show "revision_ready t page d1"
  proof (rule upsert_page_revision_result [OF assms])
    fix p r
    assume page: "page = \<lparr>pw_page_id = pg_id p, pw_page_revision_id = pr_id r,
        pw_content_sha256 = content_digest E request, pw_changed = pw_changed page\<rparr>"
      and r: "r \<in> set (db_page_revisions d1)" "page_revision_key r = (t, pg_id p, content_digest E request)"
    show ?thesis
      using r by (subst page) (auto simp: revision_ready_def list_ex_iff page_revision_key_def)
  qed
qed

lemma loop_stored:
  assumes "upsert_page_revision E now t s request orig fin db = (Inr page, d1)" and "db_wf db"
    and m: "map_stmt (persist_reverse_candidate E now t request fin page) cs d1 = (Inr cands, d2)"
  shows "list_all2 (reverse_stored E t request fin page d2) cs cands"
proof -
  note rr = reverse_ready [OF assms(1,2)]
  have "sound_step t d1 (snd (map_stmt (persist_reverse_candidate E now t request fin page) cs d1))"
    by (intro sound.R_map_stmt persist_reverse_candidate_sound)
  then have "table_ok candidate_check candidate_key mc_id (db_candidates d2)"
    using m rr(1) by (simp add: sound_step_def wf_kept_def db_wf_def tables_ok_def)
  then show ?thesis
    using reverse.loop_again [OF m rr(2) evidence.R_refl] by blast
qed

lemma rank_alerts_row:
  "rank_alerts E vec xs = Some rows \<Longrightarrow> a \<in> set rows \<Longrightarrow>
     (al_embedding a, al_revision a) \<in> set xs \<and> cosine_distance E (ae_embedding (al_embedding a)) vec = Some (al_distance a)"
  by (induction xs arbitrary: rows) (auto simp: bind_eq_Some_conv split: prod.splits)

lemma find_alert_candidates_rows:
  assumes "find_alert_candidates E t s request db = (Inr cs, d)"
  obtains vec where "parse_vector E (vector_literal E (ep_values (rp_embedding request))) = Some vec"
    and "length cs \<le> unat (rp_max_candidates request)"
    and "\<forall>c \<in> set cs. \<exists>a. decode_alert E a = Some c \<and>
       (al_embedding a, al_revision a) \<in> set (alert_joins E t s request db) \<and>
       cosine_distance E (ae_embedding (al_embedding a)) vec = Some (al_distance a) \<and>
       pg_le (alert_threshold a) (alert_similarity a)"
proof -
  from assms obtain rows where st: "candidate_statement E t s request db = Some (rows, d)"
    and tr: "traverse (\<lambda>row. decode_json_row (decode_alert E row)) rows = Inr cs"
    by (auto simp: find_alert_candidates_def seq_Inr statement_Inr of_result_eq Inr_eq_traverse)
  from st obtain vec ranked where vec: "parse_vector E (vector_literal E (ep_values (rp_embedding request))) = Some vec"
    and rk: "rank_alerts E vec (alert_joins E t s request db) = Some ranked"
    and rows: "rows = take (unat (rp_max_candidates request))
         (sort_key (\<lambda>a. (pg_key (al_distance a), ae_id (al_embedding a)))
           (filter (\<lambda>a. pg_le (alert_threshold a) (alert_similarity a)) ranked))"
    by (auto simp: candidate_statement_def bind_eq_Some_conv)
  have mem: "a \<in> set ranked \<and> pg_le (alert_threshold a) (alert_similarity a)" if "a \<in> set rows" for a
    using that unfolding rows by (auto dest: in_set_takeD)
  have len: "length cs = length rows" and nth: "k < length rows \<Longrightarrow> decode_alert E (rows ! k) = Some (cs ! k)" for k
    using tr by (auto simp: traverse_eq_Inr decode_json_row_def)
  have "\<exists>a. decode_alert E a = Some c \<and> (al_embedding a, al_revision a) \<in> set (alert_joins E t s request db) \<and>
       cosine_distance E (ae_embedding (al_embedding a)) vec = Some (al_distance a) \<and>
       pg_le (alert_threshold a) (alert_similarity a)" if "c \<in> set cs" for c
  proof -
    from that obtain k where k: "k < length rows" "c = cs ! k"
      by (auto simp: in_set_conv_nth len)
    then have "rows ! k \<in> set rows"
      by simp
    then show ?thesis
      using mem [of "rows ! k"] rank_alerts_row [OF rk, of "rows ! k"] nth [OF k(1)] k(2) by auto
  qed
  moreover have "length cs \<le> unat (rp_max_candidates request)"
    by (simp add: len rows)
  ultimately show ?thesis
    using that vec by blast
qed

lemma alert_joins_row:
  assumes "(e, v) \<in> set (alert_joins E t s request db)"
  obtains rule where "rule \<in> set (db_rules db)" and "e \<in> set (db_alert_embeddings db)" and "v \<in> set (db_rule_revisions db)"
    and "is_active_revision rule v" and "rl_tenant_id rule = t" and "rl_id rule = ae_alert_rule_id e"
    and "rv_id v = ae_alert_rule_revision_id e" and "ae_tenant_id e = t" and "rv_enabled v"
    and "ae_model e = ep_model (rp_embedding request)" and "rv_embedding_model v = ep_model (rp_embedding request)"
    and "rv_source_filters v = [] \<or> lit ''source:'' @ uuid_to_string E s \<in> set (rv_source_filters v)"
proof -
  from assms obtain rule where "rule \<in> set (rules_view db)" "e \<in> set (alert_embeddings_view db)"
      "v \<in> set (rule_revisions_view db)" and
    *: "rl_tenant_id rule = ae_tenant_id e" "rl_id rule = ae_alert_rule_id e"
      "rl_active_revision_id rule = Some (ae_alert_rule_revision_id e)" "rv_tenant_id v = ae_tenant_id e"
      "rv_id v = ae_alert_rule_revision_id e" "rv_alert_rule_id v = ae_alert_rule_id e" "ae_tenant_id e = t" "rv_enabled v"
      "ae_model e = ep_model (rp_embedding request)" "rv_embedding_model v = ep_model (rp_embedding request)"
      "length (rv_source_filters v) = 0 \<or> lit ''source:'' @ uuid_to_string E s \<in> set (rv_source_filters v)"
    unfolding alert_joins_def by auto
  then have "rule \<in> set (db_rules db)" "e \<in> set (db_alert_embeddings db)" "v \<in> set (db_rule_revisions db)"
    by (simp_all add: rules_view_def alert_embeddings_view_def rule_revisions_view_def)
  then show ?thesis
    using that [of rule] * by (simp add: is_active_revision_def)
qed

lemma reverse_stored_row:
  assumes "reverse_stored E t request fin page db c rc"
  obtains row where "row \<in> set (db_candidates db)" and "mc_id row = rd_id rc" and "mc_tenant_id row = t"
    and "mc_match_mode row = lit ''reverse_alert_stream''"
    and "rd_page_revision_id rc = pw_page_revision_id page" and "rd_alert_rule_id rc = cw_alert_rule_id c"
    and "rd_alert_rule_revision_id rc = cw_alert_rule_revision_id c"
    and "rd_alert_embedding_id rc = cw_alert_embedding_id c"
  using assms
  by (auto simp: reverse_stored_def list_ex_iff same_evidence_def reverse_row_def decode_reverse_def bind_eq_Some_conv)

text \<open>The steps of a successful reverse match, on states that satisfy the constraints.\<close>

lemma reverse_match_parts:
  assumes "ingest_and_reverse_match E V now t s request orig fin db = (Inr resp, db1)" and "db_wf db"
  obtains page d1 cs cands d2 where "validate_reverse V request = Inr ()"
    and "upsert_page_revision E now t s request orig fin (db\<lparr>db_settings := None\<rparr>) = (Inr page, d1)"
    and "find_alert_candidates E t s request d1 = (Inr cs, d1)"
    and "map_stmt (persist_reverse_candidate E now t request fin page) (filter accepted_candidate cs) d1 = (Inr cands, d2)"
    and "resp = \<lparr>rm_page_id = pw_page_id page, rm_page_revision_id = pw_page_revision_id page,
         rm_content_sha256 = pw_content_sha256 page, rm_changed = pw_changed page,
         rm_page_vector_persisted = False, rm_candidates = cands\<rparr>"
    and "db1 = d2\<lparr>db_settings := db_settings db\<rparr>" and "db_wf (db\<lparr>db_settings := None\<rparr>)"
    and "candidates_only d1 d2" and "db_wf (d2\<lparr>db_settings := None\<rparr>)"
proof -
  from assms(1) obtain page d1 cs cands d2 where val: "validate_reverse V request = Inr ()"
    and u: "upsert_page_revision E now t s request orig fin (db\<lparr>db_settings := None\<rparr>) = (Inr page, d1)"
    and f: "find_alert_candidates E t s request d1 = (Inr cs, d1)"
    and m: "map_stmt (persist_reverse_candidate E now t request fin page) (filter accepted_candidate cs) d1 = (Inr cands, d2)"
    and resp: "resp = \<lparr>rm_page_id = pw_page_id page, rm_page_revision_id = pw_page_revision_id page,
         rm_content_sha256 = pw_content_sha256 page, rm_changed = pw_changed page,
         rm_page_vector_persisted = False, rm_candidates = cands\<rparr>"
    and db1: "db1 = d2\<lparr>db_settings := db_settings db\<rparr>"
    unfolding ingest_and_reverse_match_Inr by blast
  have wf0: "db_wf (db\<lparr>db_settings := None\<rparr>)"
    using assms(2) by simp
  then have wf1: "db_wf d1"
    using upsert_page_revision_sound [of t "db\<lparr>db_settings := None\<rparr>" E now s request orig fin] u
    by (simp add: sound_step_def wf_kept_def)
  have "candidates_only d1 (snd (map_stmt (persist_reverse_candidate E now t request fin page) (filter accepted_candidate cs) d1))"
    by (intro corpus.R_map_stmt persist_reverse_candidate_corpus)
  moreover have "sound_step t d1 (snd (map_stmt (persist_reverse_candidate E now t request fin page) (filter accepted_candidate cs) d1))"
    by (intro sound.R_map_stmt persist_reverse_candidate_sound)
  ultimately have "candidates_only d1 d2" "db_wf (d2\<lparr>db_settings := None\<rparr>)"
    using m wf1 by (simp_all add: sound_step_def wf_kept_def)
  with that val u f m resp db1 wf0 show ?thesis by blast
qed

text \<open>The page step of a repeated delivery finds the page and the revision of the first.\<close>

lemma page_step_again:
  assumes u: "upsert_page_revision E now t s request orig fin db = (Inr page, d1)" and "db_wf db"
    and only: "candidates_only d1 d2" and wf2: "db_wf (d2\<lparr>db_settings := None\<rparr>)" and none: "db_settings db = None"
  obtains e1 where "upsert_page_revision E now' t s request orig fin (d2\<lparr>db_settings := None\<rparr>) =
      (Inr (page\<lparr>pw_changed := False\<rparr>), e1)"
    and "pages_only (d2\<lparr>db_settings := None\<rparr>) e1" and "revision_ready t page d1" and "same_alerts d1 e1"
    and "evidence_kept d2 e1"
proof (rule upsert_page_revision_result [OF u assms(2)])
  let ?e = "d2\<lparr>db_settings := None\<rparr>"
  fix p r
  assume page: "page = \<lparr>pw_page_id = pg_id p, pw_page_revision_id = pr_id r,
      pw_content_sha256 = content_digest E request, pw_changed = pw_changed page\<rparr>"
    and p: "p \<in> set (db_pages d1)" "page_key p = (t, s, fin)"
    and r: "r \<in> set (db_page_revisions d1)" "page_revision_key r = (t, pg_id p, content_digest E request)"
    and rest: "texts_ok request orig fin"
      "page_revision_check (page_revision_row_of E 0 0 0 0 None orig fin (page_of_request request))"
  have pe: "p \<in> set (db_pages ?e)" and re: "r \<in> set (db_page_revisions ?e)"
    using p(1) r(1) only by (simp_all add: candidates_only_def)
  have w: "\<lparr>pw_page_id = pg_id p, pw_page_revision_id = pr_id r, pw_content_sha256 = content_digest E request,
      pw_changed = False\<rparr> = page\<lparr>pw_changed := False\<rparr>"
    by (subst page) simp
  obtain e1 where e1: "upsert_page_revision E now' t s request orig fin ?e = (Inr (page\<lparr>pw_changed := False\<rparr>), e1)"
    and po: "pages_only ?e e1"
    using upsert_page_revision_again [OF wf2 pe p(2) re r(2) rest] unfolding w by blast
  have "db_settings d1 = None"
    using upsert_page_revision_alerts [OF u] none by (simp add: same_alerts_def)
  then have "same_alerts d1 e1"
    using only po by (simp add: same_alerts_def candidates_only_def pages_only_def)
  moreover have "revision_ready t page d1"
    using r by (subst page) (auto simp: revision_ready_def list_ex_iff page_revision_key_def)
  moreover have "evidence_kept ?e e1"
    using upsert_page_revision_sound [of t ?e E now' s request orig fin] e1 by (simp add: sound_step_def)
  then have "evidence_kept d2 e1"
    using evidence.R_trans [OF evidence.R_settings] by blast
  ultimately show ?thesis
    using that e1 po by blast
qed

text \<open>
  A candidate that is due: its alert embedding is one of an enabled active rule revision of the tenant, of the
  model of the page, whose source filter admits the source and whose threshold the similarity reaches.
\<close>

definition due :: "ext \<Rightarrow> uuid \<Rightarrow> uuid \<Rightarrow> reverse_page_request \<Rightarrow> db \<Rightarrow> reverse_candidate \<Rightarrow> bool" where
  "due E t s request db c \<longleftrightarrow>
     (\<exists>e \<in> set (db_alert_embeddings db). \<exists>rule \<in> set (db_rules db). \<exists>v \<in> set (db_rule_revisions db). \<exists>vec d.
         ae_id e = rd_alert_embedding_id c \<and> ae_tenant_id e = t \<and> is_active_revision rule v \<and>
         rl_tenant_id rule = t \<and> rl_id rule = rd_alert_rule_id c \<and> rv_id v = rd_alert_rule_revision_id c \<and>
         rv_enabled v \<and> rv_embedding_model v = ep_model (rp_embedding request) \<and>
         (rv_source_filters v = [] \<or> lit ''source:'' @ uuid_to_string E s \<in> set (rv_source_filters v)) \<and>
         parse_vector E (vector_literal E (ep_values (rp_embedding request))) = Some vec \<and>
         cosine_distance E (ae_embedding e) vec = Some d \<and>
         pg_le (f64_from (rv_similarity_threshold v)) (sub64 one64 d))"

lemma candidate_due:
  assumes "decode_alert E a = Some c" and "(al_embedding a, al_revision a) \<in> set (alert_joins E t s request db)"
    and "parse_vector E (vector_literal E (ep_values (rp_embedding request))) = Some vec"
    and "cosine_distance E (ae_embedding (al_embedding a)) vec = Some (al_distance a)"
    and "pg_le (alert_threshold a) (alert_similarity a)"
    and "rd_alert_rule_id rc = cw_alert_rule_id c" and "rd_alert_rule_revision_id rc = cw_alert_rule_revision_id c"
    and "rd_alert_embedding_id rc = cw_alert_embedding_id c"
  shows "due E t s request db rc"
proof (rule alert_joins_row [OF assms(2)])
  fix rule
  assume j: "rule \<in> set (db_rules db)" "al_embedding a \<in> set (db_alert_embeddings db)"
    "al_revision a \<in> set (db_rule_revisions db)" "is_active_revision rule (al_revision a)" "rl_tenant_id rule = t"
    "rl_id rule = ae_alert_rule_id (al_embedding a)"
    "rv_id (al_revision a) = ae_alert_rule_revision_id (al_embedding a)" "ae_tenant_id (al_embedding a) = t"
    "rv_enabled (al_revision a)" "ae_model (al_embedding a) = ep_model (rp_embedding request)"
    "rv_embedding_model (al_revision a) = ep_model (rp_embedding request)"
    "rv_source_filters (al_revision a) = [] \<or> lit ''source:'' @ uuid_to_string E s \<in> set (rv_source_filters (al_revision a))"
  have cw: "cw_alert_rule_id c = ae_alert_rule_id (al_embedding a)"
    "cw_alert_rule_revision_id c = ae_alert_rule_revision_id (al_embedding a)"
    "cw_alert_embedding_id c = ae_id (al_embedding a)"
    using assms(1) by (auto simp: decode_alert_def bind_eq_Some_conv)
  show ?thesis
    using j assms(3-5) unfolding due_def
    by (intro bexI [of _ "al_embedding a"] bexI [of _ rule] bexI [of _ "al_revision a"] exI [of _ vec]
        exI [of _ "al_distance a"]) (simp_all add: assms(6-8) cw alert_threshold_def alert_similarity_def)
qed

section \<open>Properties\<close>

text \<open>
  C9. Delivering the same page twice is harmless: when a reverse match has succeeded, repeating
  the request at any later time returns the same page, the same revision and the same
  candidates, reports the content as unchanged, and adds neither a revision nor a candidate.
\<close>

theorem reverse_match_retry:
  assumes "db_wf db" and "ingest_and_reverse_match E V now t s request orig fin db = (Inr resp, db1)"
  shows "\<exists>db2. ingest_and_reverse_match E V now' t s request orig fin db1 = (Inr (resp\<lparr>rm_changed := False\<rparr>), db2) \<and>
    db_candidates db2 = db_candidates db1 \<and> db_page_revisions db2 = db_page_revisions db1"
proof (rule reverse_match_parts [OF assms(2,1)])
  fix page d1 cs cands d2
  assume val: "validate_reverse V request = Inr ()"
    and u: "upsert_page_revision E now t s request orig fin (db\<lparr>db_settings := None\<rparr>) = (Inr page, d1)"
    and f: "find_alert_candidates E t s request d1 = (Inr cs, d1)"
    and m: "map_stmt (persist_reverse_candidate E now t request fin page) (filter accepted_candidate cs) d1 = (Inr cands, d2)"
    and resp: "resp = \<lparr>rm_page_id = pw_page_id page, rm_page_revision_id = pw_page_revision_id page,
         rm_content_sha256 = pw_content_sha256 page, rm_changed = pw_changed page,
         rm_page_vector_persisted = False, rm_candidates = cands\<rparr>"
    and db1: "db1 = d2\<lparr>db_settings := db_settings db\<rparr>" and wf0: "db_wf (db\<lparr>db_settings := None\<rparr>)"
    and only: "candidates_only d1 d2" and wf2: "db_wf (d2\<lparr>db_settings := None\<rparr>)"
  let ?e = "d2\<lparr>db_settings := None\<rparr>"
  have start: "db1\<lparr>db_settings := None\<rparr> = ?e"
    by (simp add: db1)
  obtain e1 where e1: "upsert_page_revision E now' t s request orig fin ?e = (Inr (page\<lparr>pw_changed := False\<rparr>), e1)"
    and po: "pages_only ?e e1" and ready: "revision_ready t page d1" and same: "same_alerts d1 e1" and kept: "evidence_kept d2 e1"
    by (rule page_step_again [OF u wf0 only wf2]) simp
  have f': "find_alert_candidates E t s request e1 = (Inr cs, e1)"
    using same f by (rule find_alert_candidates_same)
  have "table_ok candidate_check candidate_key mc_id (db_candidates e1)"
    using wf2 po by (simp add: db_wf_def tables_ok_def pages_only_def)
  then have m': "map_stmt (persist_reverse_candidate E now' t request fin page) (filter accepted_candidate cs) e1 =
      (Inr cands, e1\<lparr>db_seed := db_seed e1 + length (filter accepted_candidate cs)\<rparr>)"
    using reverse.loop_again [OF m ready kept] by blast
  have "ingest_and_reverse_match E V now' t s request orig fin db1 =
      (Inr (resp\<lparr>rm_changed := False\<rparr>), e1\<lparr>db_seed := db_seed e1 + length (filter accepted_candidate cs),
         db_settings := db_settings db1\<rparr>)"
    unfolding ingest_and_reverse_match_Inr start
    using val e1 f' m' by (auto simp: persist_changed_irrelevant resp)
  then show ?thesis
    using po by (auto simp: pages_only_def db1)
qed



text \<open>
  C16. A reverse match alerts only rules that should be alerted, and boundedly many: it returns at
  most \<open>max_candidates\<close> candidates, never more than 500, and each of them belongs to an enabled
  active rule revision of the tenant, of the model of the page, whose source filter admits the
  source, and whose threshold the similarity of the page reaches; and each is stored, for the
  revision of the page that was matched.
\<close>

theorem reverse_candidates_sound:
  assumes "ingest_and_reverse_match E V now t s request orig fin db = (Inr resp, db')" and "db_wf db"
  shows "length (rm_candidates resp) \<le> unat (rp_max_candidates request) \<and> length (rm_candidates resp) \<le> 500 \<and>
    (\<forall>c \<in> set (rm_candidates resp). rd_page_revision_id c = rm_page_revision_id resp \<and>
      (\<exists>row \<in> set (db_candidates db'). mc_id row = rd_id c \<and> mc_tenant_id row = t \<and>
         mc_match_mode row = lit ''reverse_alert_stream'') \<and> due E t s request db c)"
proof (rule reverse_match_parts [OF assms])
  fix page d1 cs cands d2
  assume val: "validate_reverse V request = Inr ()"
    and u: "upsert_page_revision E now t s request orig fin (db\<lparr>db_settings := None\<rparr>) = (Inr page, d1)"
    and f: "find_alert_candidates E t s request d1 = (Inr cs, d1)"
    and m: "map_stmt (persist_reverse_candidate E now t request fin page) (filter accepted_candidate cs) d1 = (Inr cands, d2)"
    and resp: "resp = \<lparr>rm_page_id = pw_page_id page, rm_page_revision_id = pw_page_revision_id page,
         rm_content_sha256 = pw_content_sha256 page, rm_changed = pw_changed page,
         rm_page_vector_persisted = False, rm_candidates = cands\<rparr>"
    and db': "db' = d2\<lparr>db_settings := db_settings db\<rparr>" and wf0: "db_wf (db\<lparr>db_settings := None\<rparr>)"
  have tabs: "due E t s request d1 = due E t s request db"
    using upsert_page_revision_alerts [OF u] by (simp add: same_alerts_def due_def fun_eq_iff)
  have stored: "list_all2 (reverse_stored E t request fin page d2) (filter accepted_candidate cs) cands"
    using loop_stored [OF u wf0 m] .
  obtain vec where vec: "parse_vector E (vector_literal E (ep_values (rp_embedding request))) = Some vec"
    and len: "length cs \<le> unat (rp_max_candidates request)"
    and rows: "\<forall>c \<in> set cs. \<exists>a. decode_alert E a = Some c \<and>
       (al_embedding a, al_revision a) \<in> set (alert_joins E t s request d1) \<and>
       cosine_distance E (ae_embedding (al_embedding a)) vec = Some (al_distance a) \<and>
       pg_le (alert_threshold a) (alert_similarity a)"
    using find_alert_candidates_rows [OF f] .
  have bound: "length cands \<le> unat (rp_max_candidates request)"
    using list_all2_lengthD [OF stored] length_filter_le [of accepted_candidate cs] len by linarith
  have "rp_max_candidates request \<le> MAX_CANDIDATES"
    using val by (auto simp: validate_reverse_def bindr_def split: sum.splits if_splits)
  then have "unat (rp_max_candidates request) \<le> 500"
    by (simp add: word_le_nat_alt MAX_CANDIDATES_def)
  moreover have "rd_page_revision_id rc = pw_page_revision_id page \<and>
      (\<exists>row \<in> set (db_candidates d2). mc_id row = rd_id rc \<and> mc_tenant_id row = t \<and>
         mc_match_mode row = lit ''reverse_alert_stream'') \<and> due E t s request d1 rc"
    if "rc \<in> set cands" for rc
  proof -
    from list_all2_right [OF stored that] obtain c where c: "c \<in> set cs"
      and st: "reverse_stored E t request fin page d2 c rc"
      by auto
    show ?thesis
      using st by (rule reverse_stored_row) (use rows [rule_format, OF c] candidate_due vec in blast)
  qed
  ultimately show ?thesis
    using bound resp db' tabs by auto
qed

section \<open>Witnesses\<close>

definition example_interfaces :: interfaces where
  "example_interfaces = \<lparr>validate_embedding = (\<lambda>_. Inr ()), validate_page = (\<lambda>_. Inr ()),
     validate_search = (\<lambda>_. Inr ()), validate_source = (\<lambda>_. Inr ())\<rparr>"

definition example_alert_revision :: rule_revision_row where
  "example_alert_revision = \<lparr>rv_id = 2, rv_tenant_id = 7, rv_alert_rule_id = 1, rv_revision_number = 1,
     rv_created_by_subject = lit ''user-1'', rv_name = lit ''storms'', rv_query_text = lit ''storm warning'',
     rv_embedding_model = lit ''m'', rv_similarity_threshold = 0, rv_source_filters = [], rv_delivery_channels = [],
     rv_enabled = True, rv_created_at = 5\<rparr>"

definition example_alert_embedding :: alert_embedding_row where
  "example_alert_embedding = \<lparr>ae_id = 30, ae_tenant_id = 7, ae_alert_rule_id = 1, ae_alert_rule_revision_id = 2,
     ae_model = lit ''m'', ae_model_version = lit ''1'', ae_dimensions = 1, ae_normalization = lit ''l2'',
     ae_embedding = [1065353216], ae_embedding_sha256 = replicate 64 97, ae_generated_at = 6, ae_created_at = 6\<rparr>"

definition example_alerts :: "alert_embedding_row list \<Rightarrow> db" where
  "example_alerts es = example_corpus\<lparr>db_bypass_rls := True, db_rule_revisions := [example_alert_revision],
     db_alert_embeddings := es\<rparr>"

lemma example_alerts_wf:
  assumes "es = [] \<or> es = [example_alert_embedding]"
  shows "db_wf (example_alerts es)"
proof -
  have rules: "db_rules (example_alerts es) = [activate_revision 2 5 (new_rule 5 1 7 (lit ''user-1''))]"
    by (simp add: example_alerts_def example_corpus_def example_db_def)
  have "table_ok rule_revision_check rule_revision_key rv_id [example_alert_revision]"
    by (simp add: table_ok_def rule_revision_check_def char_length_between_def text_ok_def example_alert_revision_def lit_def
        le32_def is_nan32_def ord32_def mag32_def neg32_def zero32_def one32_def)
  moreover have "table_ok alert_embedding_check alert_embedding_key ae_id es"
    using assms
    by (auto simp: table_ok_def alert_embedding_check_def char_length_between_def text_ok_def example_alert_embedding_def
        lit_def normalization_check_def sha256_check_def list_all_iff)
  ultimately have "tables_ok (example_alerts es)"
    using example_corpus_wf by (simp add: db_wf_def tables_ok_def example_alerts_def)
  moreover have "references_ok (example_alerts es)"
    using assms
    by (auto simp: references_ok_def example_alerts_def example_corpus_def example_db_def empty_db_def fk_defs null_or_def
        activate_revision_def new_rule_def example_alert_revision_def example_alert_embedding_def
        example_source_def example_page_def example_revision_def example_embedding_def)
  moreover have "within_limit (example_alerts es)"
    unfolding within_limit_def enabled_active_def rules by (simp add: Let_def)
  ultimately show ?thesis
    by (simp add: db_wf_def)
qed

definition example_reverse :: reverse_page_request where
  "example_reverse = \<lparr>rp_source_id = 20, rp_url = lit ''https://a.org/x'', rp_final_url = lit ''https://a.org/x'',
     rp_title = None, rp_content_text = lit ''storm'', rp_content_type = lit ''text/html'', rp_http_status = 200,
     rp_published_at = None, rp_fetched_at = 3, rp_embedding = es_embedding example_search, rp_max_candidates = 10\<rparr>"

lemma example_reverse_ok:
  "texts_ok example_reverse (lit ''https://a.org/x'') (lit ''https://a.org/x'')"
  "page_revision_check (page_revision_row_of example_ext 0 0 0 0 None (lit ''https://a.org/x'') (lit ''https://a.org/x'')
     (page_of_request example_reverse))"
  by code_simp+

lemma example_alerts_fresh:
  "has_source (example_alerts es) 20"
  "gen_uuid example_ext (db_seed (example_alerts es)) \<notin> pg_id ` set (db_pages (example_alerts es))"
  "gen_uuid example_ext (Suc (db_seed (example_alerts es))) \<notin> pr_id ` set (db_page_revisions (example_alerts es))"
  by (simp_all add: has_source_def example_alerts_def example_corpus_def example_db_def example_ext_def example_source_def
      example_page_def example_revision_def)


abbreviation example_url :: rstr where "example_url \<equiv> lit ''https://a.org/x''"

lemma example_db_settings: "(example_alerts es)\<lparr>db_settings := None\<rparr> = example_alerts es"
  by (simp add: example_alerts_def example_corpus_def example_db_def empty_db_def)

lemma example_page_step:
  assumes "es = [] \<or> es = [example_alert_embedding]"
  obtains page d1 where "upsert_page_revision example_ext 9 7 20 example_reverse example_url example_url
      ((example_alerts es)\<lparr>db_bypass_rls := b\<rparr>) = (Inr page, d1)"
    and "db_candidates d1 = []" and "has_page_revision d1 (pw_page_revision_id page)"
proof -
  let ?db = "(example_alerts es)\<lparr>db_bypass_rls := b\<rparr>"
  have wf: "db_wf ?db"
    using example_alerts_wf [OF assms] by (simp add: wf_defs fk_defs [abs_def])
  have h: "has_source ?db 20" "gen_uuid example_ext (db_seed ?db) \<notin> pg_id ` set (db_pages ?db)"
    "gen_uuid example_ext (Suc (db_seed ?db)) \<notin> pr_id ` set (db_page_revisions ?db)" "db_candidates ?db = []"
    using example_alerts_fresh [of es] by (simp_all add: has_source_def example_alerts_def example_corpus_def example_db_def empty_db_def)
  show ?thesis
    by (rule upsert_page_revision_total [OF wf h(1) example_reverse_ok h(2,3), of 9 7]) (use that h(4) in simp)
qed

lemma example_reverse_valid: "validate_reverse example_interfaces example_reverse = Inr ()"
  by (simp add: validate_reverse_def example_interfaces_def example_reverse_def MAX_CANDIDATES_def)

definition example_wire :: candidate_wire where
  "example_wire = \<lparr>cw_alert_rule_id = 1, cw_alert_rule_revision_id = 2, cw_alert_embedding_id = 30,
     cw_similarity = one64, cw_threshold = 0\<rparr>"

lemma example_find:
  assumes "same_alerts (example_alerts [example_alert_embedding]) d"
  shows "find_alert_candidates example_ext 7 20 example_reverse d = (Inr [example_wire], d)"
proof -
  let ?rank = "\<lparr>al_embedding = example_alert_embedding, al_revision = example_alert_revision, al_distance = 0\<rparr>"
  have "alert_joins example_ext 7 20 example_reverse (example_alerts [example_alert_embedding]) =
      [(example_alert_embedding, example_alert_revision)]"
    by (simp add: alert_joins_def rules_view_def rule_revisions_view_def alert_embeddings_view_def rule_visible_def
        rule_revision_visible_def alert_embedding_visible_def example_alerts_def example_corpus_def example_db_def
        example_alert_embedding_def example_alert_revision_def example_reverse_def example_search_def as_i32_def
        activate_revision_def new_rule_def)
  then have joins: "alert_joins example_ext 7 20 example_reverse d = [(example_alert_embedding, example_alert_revision)]"
    using alert_joins_same [OF assms] by simp
  have "text_ok (ep_model (rp_embedding example_reverse))" "text_ok (ep_model_version (rp_embedding example_reverse))"
    by (simp_all add: example_reverse_def example_search_def text_ok_def lit_def)
  moreover have "alert_threshold ?rank = 0" "alert_similarity ?rank = one64"
    by (simp_all add: alert_threshold_def alert_similarity_def example_alert_revision_def f64_from_0 sub64_one_zero)
  moreover have "parse_vector example_ext v = Some [1065353216]" "cosine_distance example_ext x y = Some 0" for v x y
    by (simp_all add: example_ext_def zero64_def)
  moreover have "rp_max_candidates example_reverse = 10"
    by (simp add: example_reverse_def)
  ultimately have "candidate_statement example_ext 7 20 example_reverse d = Some ([?rank], d)"
    by (simp add: candidate_statement_def ensure_def joins pg_le_def pg_key_0_1)
  moreover have "decode_alert example_ext ?rank = Some example_wire"
    using \<open>alert_threshold ?rank = 0\<close> \<open>alert_similarity ?rank = one64\<close>
    by (simp add: decode_alert_def example_fields example_wire_def example_alert_embedding_def)
  ultimately show ?thesis
    by (simp add: find_alert_candidates_def seq_def statement_def of_result_def decode_json_row_def)
qed

lemma example_reverse_run:
  obtains resp db' where "ingest_and_reverse_match example_ext example_interfaces 9 7 20 example_reverse example_url
      example_url (example_alerts [example_alert_embedding]) = (Inr resp, db')" and "length (rm_candidates resp) = 1"
proof -
  let ?db = "example_alerts [example_alert_embedding]"
  have b: "?db\<lparr>db_bypass_rls := True\<rparr> = ?db"
    by (simp add: example_alerts_def)
  obtain page d1 where u: "upsert_page_revision example_ext 9 7 20 example_reverse example_url example_url ?db = (Inr page, d1)"
    and c: "db_candidates d1 = []" and rev: "has_page_revision d1 (pw_page_revision_id page)"
    using example_page_step [of "[example_alert_embedding]" True] unfolding b by blast
  note f = example_find [OF upsert_page_revision_alerts [OF u]]
  let ?row = "reverse_row example_ext 9 7 example_reverse example_url page example_wire (gen_uuid example_ext (db_seed d1))"
  have "sha256_check (replicate 64 97)"
    by (simp add: sha256_check_def list_all_iff)
  then have "candidate_check ?row"
    by (simp add: candidate_check_def reverse_row_def example_wire_def pg_le_def pg_key_0_1 zero64_def pg_key_minus_one
        embedding_sha256_def example_ext_def example_reverse_def example_search_def char_length_between_def lit_def
        as_i32_def normalization_check_def)
  moreover have "candidate_fk d1 ?row"
    using upsert_page_revision_alerts [OF u] rev
    by (simp add: candidate_fk_def has_rule_def has_rule_revision_def has_alert_embedding_def null_or_def same_alerts_def
        reverse_row_def example_wire_def example_alerts_def example_corpus_def example_db_def activate_revision_def new_rule_def
        example_alert_revision_def example_alert_embedding_def)
  moreover have "decode_reverse example_ext ?row \<noteq> None"
    by (simp add: decode_reverse_def reverse_row_def example_fields)
  ultimately have "\<exists>rc d2. persist_reverse_candidate example_ext 9 7 example_reverse example_url page example_wire d1 = (Inr rc, d2)"
    unfolding persist_reverse_candidate_def candidate_upsert_ins
    by (auto simp: insert_on_conflict_def c decode_row_def decode_json_row_def ex_bool_eq)
  then obtain rc d2 where p: "persist_reverse_candidate example_ext 9 7 example_reverse example_url page example_wire d1 = (Inr rc, d2)"
    by blast
  have "accepted_candidate example_wire"
    by (simp add: accepted_candidate_def example_wire_def is_finite64_def lt64_def ord64_def one64_fields)
  with p have m: "map_stmt (persist_reverse_candidate example_ext 9 7 example_reverse example_url page)
      (filter accepted_candidate [example_wire]) d1 = (Inr [rc], d2)"
    by (simp add: seq_def ret_def)
  show ?thesis
  proof (rule that)
    show "ingest_and_reverse_match example_ext example_interfaces 9 7 20 example_reverse example_url example_url ?db =
        (Inr \<lparr>rm_page_id = pw_page_id page, rm_page_revision_id = pw_page_revision_id page,
             rm_content_sha256 = pw_content_sha256 page, rm_changed = pw_changed page,
             rm_page_vector_persisted = False, rm_candidates = [rc]\<rparr>, d2\<lparr>db_settings := db_settings ?db\<rparr>)"
      unfolding ingest_and_reverse_match_Inr example_db_settings
      using example_reverse_valid u f m by blast
  qed simp
qed

theorem reverse_match_retry_witness:
  "\<exists>resp db1 db2. ingest_and_reverse_match example_ext example_interfaces 9 7 20 example_reverse example_url example_url
      (example_alerts [example_alert_embedding]) = (Inr resp, db1) \<and> length (rm_candidates resp) = 1 \<and>
    ingest_and_reverse_match example_ext example_interfaces 10 7 20 example_reverse example_url example_url db1 =
      (Inr (resp\<lparr>rm_changed := False\<rparr>), db2)"
proof (rule example_reverse_run)
  fix resp db'
  assume run: "ingest_and_reverse_match example_ext example_interfaces 9 7 20 example_reverse example_url
      example_url (example_alerts [example_alert_embedding]) = (Inr resp, db')" and len: "length (rm_candidates resp) = 1"
  have "db_wf (example_alerts [example_alert_embedding])"
    by (simp add: example_alerts_wf)
  from reverse_match_retry [OF this run, of 10] run len show ?thesis
    by blast
qed

theorem reverse_candidates_sound_witness:
  "\<exists>resp db'. ingest_and_reverse_match example_ext example_interfaces 9 7 20 example_reverse example_url example_url
      (example_alerts [example_alert_embedding]) = (Inr resp, db') \<and> rm_candidates resp \<noteq> [] \<and>
    length (rm_candidates resp) \<le> unat (rp_max_candidates example_reverse)"
proof (rule example_reverse_run)
  fix resp db'
  assume run: "ingest_and_reverse_match example_ext example_interfaces 9 7 20 example_reverse example_url
      example_url (example_alerts [example_alert_embedding]) = (Inr resp, db')" and len: "length (rm_candidates resp) = 1"
  have "db_wf (example_alerts [example_alert_embedding])"
    by (simp add: example_alerts_wf)
  from reverse_candidates_sound [OF run this] run len show ?thesis
    by (intro exI [of _ resp] exI [of _ db']) auto
qed


end
