(* ===== verification/Alert_Embeddings.thy ===== *)
theory Alert_Embeddings
  imports Reverse_Stream
begin

text \<open>
  Alert-rule embeddings: their immutability, the fingerprint of a vector, and the clash between
  the two kinds of match.
\<close>

section \<open>Alert embeddings\<close>

definition same_space :: "embedding_payload \<Rightarrow> embedding_payload \<Rightarrow> bool" where
  "same_space e e' \<longleftrightarrow> ep_model e' = ep_model e \<and> ep_model_version e' = ep_model_version e \<and>
     ep_dimensions e' = ep_dimensions e \<and> ep_normalization e' = ep_normalization e"

definition space_key :: "uuid \<Rightarrow> alert_embedding_request \<Rightarrow> uuid \<times> uuid \<times> rstr \<times> rstr \<times> int \<times> rstr" where
  "space_key t request = (t, au_alert_rule_revision_id request, ep_model (au_embedding request),
     ep_model_version (au_embedding request), as_i32 (ep_dimensions (au_embedding request)),
     normalization_name (ep_normalization (au_embedding request)))"

lemma embedding_target_row:
  assumes "target \<in> set (embedding_target t a request db)"
  shows "rl_id (fst target) = a" and "rv_id (snd target) = au_alert_rule_revision_id request"
    and "rl_tenant_id (fst target) = t"
  using assms by (auto simp: embedding_target_def)

lemma alert_embedding_of_frame:
  assumes "target \<in> set (embedding_target t a request db)"
  shows "alert_embedding_key (alert_embedding_of E now t (au_embedding request) vec g target i) = space_key t request"
    and "ae_alert_rule_id (alert_embedding_of E now t (au_embedding request) vec g target i) = a"
    and "ae_tenant_id (alert_embedding_of E now t (au_embedding request) vec g target i) = t"
    and "ae_embedding_sha256 (alert_embedding_of E now t (au_embedding request) vec g target i) =
      embedding_sha256 E (ep_values (au_embedding request))"
  using embedding_target_row [OF assms]
  by (simp_all add: alert_embedding_key_def alert_embedding_of_def space_key_def)

lemma alert_embedding_visible_cong:
  "ae_tenant_id e = ae_tenant_id e' \<Longrightarrow> ae_alert_rule_id e = ae_alert_rule_id e' \<Longrightarrow>
     alert_embedding_visible db e = alert_embedding_visible db e'"
  by (simp add: alert_embedding_visible_def split: option.split)

lemma insert_alert_embedding_Some:
  "insert_alert_embedding E row_of db = Some (r, db') \<longleftrightarrow>
     alert_embedding_visible db (row_of (gen_uuid E (db_seed db))) \<and>
     (\<exists>ts b. insert_on_conflict alert_embedding_check alert_embedding_key ae_id (row_of (gen_uuid E (db_seed db)))
         (db_alert_embeddings db) = Some (ts, b) \<and>
        (b \<longrightarrow> alert_embedding_fk db (row_of (gen_uuid E (db_seed db)))) \<and>
        r = (if b then Some (row_of (gen_uuid E (db_seed db))) else None) \<and>
        db' = db\<lparr>db_seed := Suc (db_seed db), db_alert_embeddings := ts\<rparr>)"
  by (auto simp: insert_alert_embedding_def Let_def split: option.splits)

text \<open>A successful statement has a target, and the row it returns is stored and visible.\<close>

lemma upsert_embedding_statement_row:
  assumes "upsert_embedding_statement E now t a request db = Some ((row, created) # rest, db')"
  obtains target targets ts where "embedding_target t a request db = target # targets"
    and "row \<in> set ts" and "alert_embedding_key row = space_key t request" and "ae_alert_rule_id row = a"
    and "ae_tenant_id row = t" and "alert_embedding_visible db row"
    and "db' = db\<lparr>db_seed := Suc (db_seed db), db_alert_embeddings := ts\<rparr>"
proof -
  let ?e = "au_embedding request"
  from assms obtain vec inserted where
      ins: "(case embedding_target t a request db of [] \<Rightarrow> Some (None, db)
         | target # _ \<Rightarrow> insert_alert_embedding E (alert_embedding_of E now t ?e vec (timestamptz E now) target) db)
         = Some (inserted, db')"
    and sel: "select_alert_embedding db t ?e (embedding_target t a request db) inserted = (row, created) # rest"
    by (auto simp: upsert_embedding_statement_def bind_eq_Some_conv Let_def)
  show ?thesis
  proof (cases "embedding_target t a request db")
    case Nil
    then show ?thesis
      using ins sel by (simp add: select_alert_embedding_def)
  next
    case (Cons target targets)
    let ?row = "alert_embedding_of E now t ?e vec (timestamptz E now) target (gen_uuid E (db_seed db))"
    have tg: "target \<in> set (embedding_target t a request db)"
      by (simp add: Cons)
    note fr = alert_embedding_of_frame [OF tg]
    from ins Cons obtain ts b where vis: "alert_embedding_visible db ?row"
      and io: "insert_on_conflict alert_embedding_check alert_embedding_key ae_id ?row (db_alert_embeddings db) = Some (ts, b)"
      and i: "inserted = (if b then Some ?row else None)"
      and db': "db' = db\<lparr>db_seed := Suc (db_seed db), db_alert_embeddings := ts\<rparr>"
      by (auto simp: insert_alert_embedding_Some)
    show ?thesis
    proof (cases rule: alert_embeddings.ins_cases [OF io])
      case 1
      then have "row = ?row"
        using sel i by (simp add: select_alert_embedding_def)
      then show ?thesis
        using that [OF Cons, of ts] 1(5) vis fr db' by simp
    next
      case 2
      then have "(row, created) \<in> set (select_alert_embedding db t ?e (embedding_target t a request db) None)"
        using sel i by simp
      then have r: "row \<in> set (alert_embeddings_view db)" "ae_tenant_id row = t" "ae_model row = ep_model ?e"
        "ae_model_version row = ep_model_version ?e" "ae_dimensions row = as_i32 (ep_dimensions ?e)"
        "ae_normalization row = normalization_name (ep_normalization ?e)"
        and ex: "list_ex (\<lambda>(rule, revision). rv_id revision = ae_alert_rule_revision_id row \<and>
            rl_id rule = ae_alert_rule_id row) (embedding_target t a request db)"
        by (auto simp: select_alert_embedding_def dest!: in_set_takeD)
      from ex obtain tgt where "tgt \<in> set (embedding_target t a request db)"
        "rv_id (snd tgt) = ae_alert_rule_revision_id row" "rl_id (fst tgt) = ae_alert_rule_id row"
        by (auto simp: list_ex_iff)
      then have "ae_alert_rule_id row = a" "ae_alert_rule_revision_id row = au_alert_rule_revision_id request"
        using embedding_target_row by metis+
      then show ?thesis
        using that [OF Cons, of ts] 2(4) r db'
        by (simp add: alert_embedding_key_def space_key_def alert_embeddings_view_def)
    qed
  qed
qed

lemma embedding_target_same:
  assumes "db_bypass_rls db' = db_bypass_rls db" "db_settings db' = db_settings db" "db_rules db' = db_rules db"
    "db_rule_revisions db' = db_rule_revisions db"
  shows "embedding_target t a request db' = embedding_target t a request db"
    and "alert_embedding_visible db' = alert_embedding_visible db"
proof -
  have "rule_visible db' = rule_visible db"
    using assms by (simp add: rule_visible_def fun_eq_iff)
  then have v: "rules_view db' = rules_view db"
    using assms by (simp add: rules_view_def)
  then have "rule_revision_visible db' = rule_revision_visible db"
    and w: "alert_embedding_visible db' = alert_embedding_visible db"
    using assms
    by (simp_all add: rule_revision_visible_def alert_embedding_visible_def fun_eq_iff split: option.split)
  then show "embedding_target t a request db' = embedding_target t a request db"
    using assms v by (simp add: embedding_target_def rule_revisions_view_def)
  show "alert_embedding_visible db' = alert_embedding_visible db"
    by (fact w)
qed

lemma embedding_target_space:
  assumes "au_alert_rule_revision_id request' = au_alert_rule_revision_id request"
    and "same_space (au_embedding request) (au_embedding request')"
  shows "embedding_target t a request' db = embedding_target t a request db" and "space_key t request' = space_key t request"
  using assms by (simp_all add: embedding_target_def space_key_def same_space_def)

lemma upsert_embedding_statement_again:
  assumes wf: "db_wf db" and tg: "embedding_target t a request db = target # targets"
    and row: "row \<in> set (db_alert_embeddings db)" "alert_embedding_key row = space_key t request"
      "ae_alert_rule_id row = a" "ae_tenant_id row = t" "alert_embedding_visible db row"
    and chk: "alert_embedding_check (alert_embedding_of E now t (au_embedding request) vec (timestamptz E now) target 0)"
    and vec: "parse_vector E (vector_literal E (ep_values (au_embedding request))) = Some vec"
  shows "upsert_embedding_statement E now t a request db = Some ([(row, False)], db\<lparr>db_seed := Suc (db_seed db)\<rparr>)"
proof -
  let ?e = "au_embedding request"
  let ?row = "alert_embedding_of E now t ?e vec (timestamptz E now) target (gen_uuid E (db_seed db))"
  have mem: "target \<in> set (embedding_target t a request db)"
    by (simp add: tg)
  note fr = alert_embedding_of_frame [OF mem, of E now vec "timestamptz E now" "gen_uuid E (db_seed db)"]
  have chk': "alert_embedding_check ?row"
    using chk by (simp add: alert_embedding_check_def alert_embedding_of_def)
  have "alert_embedding_key ?row \<in> alert_embedding_key ` set (db_alert_embeddings db)"
    unfolding fr(1) row(2) [symmetric] using row(1) by (rule imageI)
  then have "insert_on_conflict alert_embedding_check alert_embedding_key ae_id ?row (db_alert_embeddings db) =
      Some (db_alert_embeddings db, False)"
    using chk' by (simp add: alert_embeddings.ins_conflict)
  moreover have "alert_embedding_visible db ?row"
    using alert_embedding_visible_cong [of ?row row db] row(3,4,5) fr(2,3) by simp
  ultimately have ins: "insert_alert_embedding E (alert_embedding_of E now t ?e vec (timestamptz E now) target) db =
      Some (None, db\<lparr>db_seed := Suc (db_seed db)\<rparr>)"
    by (simp add: insert_alert_embedding_def Let_def)
  have ok: "table_ok alert_embedding_check alert_embedding_key ae_id (db_alert_embeddings db)"
    using wf by (simp add: db_wf_def tables_ok_def)
  let ?P = "\<lambda>r. list_ex (\<lambda>(rule, revision). rv_id revision = ae_alert_rule_revision_id r \<and>
            rl_id rule = ae_alert_rule_id r) (embedding_target t a request db) \<and>
          ae_tenant_id r = t \<and> ae_model r = ep_model ?e \<and> ae_model_version r = ep_model_version ?e \<and>
          ae_dimensions r = as_i32 (ep_dimensions ?e) \<and> ae_normalization r = normalization_name (ep_normalization ?e)"
  have Pk: "alert_embedding_key r = space_key t request" if P: "?P r" for r
  proof -
    from P obtain tgt where "tgt \<in> set (embedding_target t a request db)" "rv_id (snd tgt) = ae_alert_rule_revision_id r"
      by (auto simp: list_ex_iff)
    then have "ae_alert_rule_revision_id r = au_alert_rule_revision_id request"
      using embedding_target_row(2) by metis
    then show ?thesis
      using P by (simp add: alert_embedding_key_def space_key_def)
  qed
  have Pr: "?P row"
    using row(2,3,4) embedding_target_row [OF mem]
    by (cases target) (auto simp: alert_embedding_key_def space_key_def tg)
  have "filter (\<lambda>r. ?P r \<and> alert_embedding_visible db r) (db_alert_embeddings db) = [row]"
    using ok row(1) by (rule alert_embeddings.filter_key) (use Pr Pk row(2,5) in auto)
  then have "filter ?P (alert_embeddings_view db) = [row]"
    by (simp add: alert_embeddings_view_def conj_commute)
  then have "select_alert_embedding db t ?e (embedding_target t a request db) None = [(row, False)]"
    by (simp add: select_alert_embedding_def)
  moreover have "text_ok (ep_model ?e)" "text_ok (ep_model_version ?e)"
    using chk by (simp_all add: alert_embedding_check_def alert_embedding_of_def)
  ultimately show ?thesis
    using vec ins tg by (simp add: upsert_embedding_statement_def ensure_def)
qed


lemma upsert_alert_rule_embedding_Inr:
  assumes "upsert_alert_rule_embedding E V now t a request db = (Inr receipt, db')"
  obtains row created rest where "upsert_embedding_statement E now t a request db = Some ((row, created) # rest, db')"
    and "ae_embedding_sha256 row = embedding_sha256 E (ep_values (au_embedding request))"
    and "receipt = \<lparr>rc_id = ae_id row, rc_alert_rule_id = ae_alert_rule_id row,
       rc_alert_rule_revision_id = ae_alert_rule_revision_id row,
       rc_embedding_sha256 = ae_embedding_sha256 row, rc_created = created\<rparr>"
proof -
  from assms obtain rows d where st: "upsert_embedding_statement E now t a request db = Some (rows, d)"
    and k: "(case rows of [] \<Rightarrow> fail (HttpError_validation
           (lit ''alert embedding must target the enabled active rule revision and its configured model''))
     | (row, created) # _ \<Rightarrow>
         if ae_embedding_sha256 row \<noteq> embedding_sha256 E (ep_values (au_embedding request))
         then fail (HttpError_conflict
           (lit ''an immutable embedding already exists for this alert revision and model space''))
         else ret \<lparr>rc_id = ae_id row, rc_alert_rule_id = ae_alert_rule_id row,
                   rc_alert_rule_revision_id = ae_alert_rule_revision_id row,
                   rc_embedding_sha256 = ae_embedding_sha256 row, rc_created = created\<rparr>) d = (Inr receipt, db')"
    by (auto simp: upsert_alert_rule_embedding_def seq_Inr statement_Inr of_result_eq)
  show ?thesis
  proof (cases rows)
    case Nil
    then show ?thesis
      using k by simp
  next
    case (Cons x rest)
    obtain row created where x: "x = (row, created)" by (cases x)
    show ?thesis
      using that [of row created rest] st k by (simp add: Cons x ret_eq split: if_splits)
  qed
qed

section \<open>The fingerprint of a vector\<close>

lemma to_be_bytes_inject: "to_be_bytes x = to_be_bytes y \<longleftrightarrow> x = y"
proof
  assume eq: "to_be_bytes x = to_be_bytes y"
  have "bit x n = bit y n" if "n < 32" for n
  proof -
    have b: "bit (drop_bit (8 * k) x) m = bit (drop_bit (8 * k) y) m" if "m < 8" "k < 4" for k m
    proof -
      have "(ucast (drop_bit (8 * k) x) :: 8 word) = ucast (drop_bit (8 * k) y)"
        using eq that(2) by (auto simp: to_be_bytes_def less_Suc_eq numeral_eq_Suc)
      then have "bit (ucast (drop_bit (8 * k) x) :: 8 word) m = bit (ucast (drop_bit (8 * k) y) :: 8 word) m"
        by simp
      then show ?thesis
        using that(1) by (simp add: bit_ucast_iff)
    qed
    have "n = 8 * (n div 8) + n mod 8" "n mod 8 < 8" "n div 8 < 4"
      using that by auto
    then show ?thesis
      using b [of "n mod 8" "n div 8"] by (simp add: bit_drop_bit_eq)
  qed
  then show "x = y"
    by (auto intro: bit_word_eqI)
qed simp

lemma concat_blocks_inject:
  assumes "\<And>x. length (f x) = n" and "0 < n" and "\<And>x y. f x = f y \<longleftrightarrow> x = y"
  shows "concat (map f xs) = concat (map f ys) \<longleftrightarrow> xs = ys"
proof (induction xs arbitrary: ys)
  case Nil
  then show ?case
    using assms(1,2) by (cases ys) (auto simp flip: length_0_conv)
next
  case (Cons x xs)
  then show ?case
    using assms by (cases ys) (auto simp flip: length_0_conv)
qed

section \<open>Properties\<close>

text \<open>
  C17. The embedding of an alert revision is immutable: once a model space of a revision has an
  embedding, a later request for the same space either carries the same vector, and then gets
  the same receipt and is told that nothing was created, or carries another vector, and then
  is refused with a conflict; neither changes a table.
\<close>

theorem alert_embedding_immutable:
  assumes "db_wf db" and "upsert_alert_rule_embedding E V now t a request db = (Inr receipt, db')"
    and "au_alert_rule_revision_id request' = au_alert_rule_revision_id request"
    and "same_space (au_embedding request) (au_embedding request')"
    and "validate_upsert V request' = Inr ()"
    and "parse_vector E (vector_literal E (ep_values (au_embedding request'))) = Some vec"
    and "sha256_check (embedding_sha256 E (ep_values (au_embedding request')))"
  shows "(\<exists>row \<in> set (db_alert_embeddings db'). ae_id row = rc_id receipt \<and> ae_alert_rule_id row = a \<and>
      ae_tenant_id row = t \<and> ae_embedding_sha256 row = embedding_sha256 E (ep_values (au_embedding request))) \<and>
    upsert_alert_rule_embedding E V now' t a request' db' =
      (if embedding_sha256 E (ep_values (au_embedding request')) = embedding_sha256 E (ep_values (au_embedding request))
       then Inr (receipt\<lparr>rc_created := False\<rparr>)
       else Inl (HttpError_conflict (lit ''an immutable embedding already exists for this alert revision and model space'')),
       db'\<lparr>db_seed := Suc (db_seed db')\<rparr>)"
proof (rule upsert_alert_rule_embedding_Inr [OF assms(2)])
  fix row created rest
  assume st: "upsert_embedding_statement E now t a request db = Some ((row, created) # rest, db')"
    and sha: "ae_embedding_sha256 row = embedding_sha256 E (ep_values (au_embedding request))"
    and receipt: "receipt = \<lparr>rc_id = ae_id row, rc_alert_rule_id = ae_alert_rule_id row,
       rc_alert_rule_revision_id = ae_alert_rule_revision_id row,
       rc_embedding_sha256 = ae_embedding_sha256 row, rc_created = created\<rparr>"
  have wf': "db_wf db'"
    using upsert_embedding_statement_sound [OF st] assms(1) by (simp add: sound_step_def wf_kept_def)
  show ?thesis
  proof (rule upsert_embedding_statement_row [OF st])
    fix target targets ts
    assume tg: "embedding_target t a request db = target # targets"
      and row: "row \<in> set ts" "alert_embedding_key row = space_key t request" "ae_alert_rule_id row = a" "ae_tenant_id row = t"
        "alert_embedding_visible db row"
      and db': "db' = db\<lparr>db_seed := Suc (db_seed db), db_alert_embeddings := ts\<rparr>"
    have mem: "row \<in> set (db_alert_embeddings db')"
      using row(1) by (simp add: db')
    note same = embedding_target_same [of db' db, unfolded db', simplified, folded db']
    have tg': "embedding_target t a request' db' = target # targets"
      using same(1) tg embedding_target_space(1) [OF assms(3,4)] by simp
    have key': "alert_embedding_key row = space_key t request'"
      using row(2) embedding_target_space(2) [OF assms(3,4)] by simp
    have vis': "alert_embedding_visible db' row"
      using row(5) same(2) by simp
    have "alert_embedding_check row"
      using wf' mem by (auto simp: db_wf_def tables_ok_def table_ok_def list_all_iff)
    then have chk: "alert_embedding_check (alert_embedding_of E now' t (au_embedding request') vec (timestamptz E now') target 0)"
      using key' assms(7) by (simp add: alert_embedding_check_def alert_embedding_of_def alert_embedding_key_def space_key_def)
    note again = upsert_embedding_statement_again [OF wf' tg' mem key' row(3,4) vis' chk assms(6)]
    have "upsert_alert_rule_embedding E V now' t a request' db' =
      (if embedding_sha256 E (ep_values (au_embedding request')) = embedding_sha256 E (ep_values (au_embedding request))
       then Inr (receipt\<lparr>rc_created := False\<rparr>)
       else Inl (HttpError_conflict (lit ''an immutable embedding already exists for this alert revision and model space'')),
       db'\<lparr>db_seed := Suc (db_seed db')\<rparr>)"
      using again assms(5) sha
      by (simp add: upsert_alert_rule_embedding_def seq_def of_result_def validated_def statement_def ret_def fail_def receipt)
    then show ?thesis
      using mem row(3,4) sha by (auto simp: receipt)
  qed
qed



section \<open>Witnesses\<close>

definition example_upsert :: alert_embedding_request where
  "example_upsert = \<lparr>au_alert_rule_revision_id = 2, au_embedding = es_embedding example_search\<rparr>"

theorem alert_embedding_immutable_witness:
  "\<exists>receipt db' d. upsert_alert_rule_embedding example_ext example_interfaces 9 7 1 example_upsert (example_alerts []) =
      (Inr receipt, db') \<and>
    upsert_alert_rule_embedding example_ext example_interfaces 10 7 1 example_upsert db' =
      (Inr (receipt\<lparr>rc_created := False\<rparr>), d)"
proof -
  let ?target = "(activate_revision 2 5 (new_rule 5 1 7 (lit ''user-1'')), example_alert_revision)"
  let ?row = "alert_embedding_of example_ext 9 7 (au_embedding example_upsert) [1065353216] (timestamptz example_ext 9) ?target
      (gen_uuid example_ext (db_seed (example_alerts [])))"
  have tg: "embedding_target 7 1 example_upsert (example_alerts []) = [?target]"
    by (simp add: embedding_target_def rules_view_def rule_revisions_view_def rule_visible_def rule_revision_visible_def
        example_alerts_def example_corpus_def example_db_def example_alert_revision_def example_upsert_def example_search_def
        is_active_revision_def activate_revision_def new_rule_def)
  have "alert_embedding_check ?row"
    by (simp add: alert_embedding_check_def alert_embedding_of_def char_length_between_def text_ok_def example_upsert_def
        example_search_def lit_def as_i32_def normalization_check_def sha256_check_def embedding_sha256_def example_ext_def
        list_all_iff)
  moreover have "alert_embedding_fk (example_alerts []) ?row" "alert_embedding_visible (example_alerts []) ?row"
    "db_alert_embeddings (example_alerts []) = []"
    by (simp_all add: fk_defs alert_embedding_visible_def alert_embedding_of_def example_alerts_def example_corpus_def
        example_db_def activate_revision_def new_rule_def example_alert_revision_def)
  moreover have "text_ok (ep_model (au_embedding example_upsert))" "text_ok (ep_model_version (au_embedding example_upsert))"
    by (simp_all add: example_upsert_def example_search_def text_ok_def lit_def)
  moreover have "parse_vector example_ext v = Some [1065353216]" for v
    by (simp add: example_ext_def)
  ultimately have "upsert_embedding_statement example_ext 9 7 1 example_upsert (example_alerts []) =
      Some ([(?row, True)], (example_alerts [])\<lparr>db_seed := Suc (db_seed (example_alerts [])), db_alert_embeddings := [?row]\<rparr>)"
    by (simp add: upsert_embedding_statement_def ensure_def tg insert_alert_embedding_def insert_on_conflict_def
        select_alert_embedding_def Let_def)
  moreover have "ae_embedding_sha256 ?row = embedding_sha256 example_ext (ep_values (au_embedding example_upsert))"
    by (simp add: alert_embedding_of_def)
  moreover have "validate_upsert example_interfaces example_upsert = Inr ()"
    by (simp add: validate_upsert_def example_interfaces_def)
  ultimately have "\<exists>r db'. upsert_alert_rule_embedding example_ext example_interfaces 9 7 1 example_upsert (example_alerts []) =
      (Inr r, db')"
    by (simp add: upsert_alert_rule_embedding_def seq_def of_result_def validated_def statement_def ret_def)
  then obtain r db' where run: "upsert_alert_rule_embedding example_ext example_interfaces 9 7 1 example_upsert
      (example_alerts []) = (Inr r, db')"
    by blast
  have "db_wf (example_alerts [])"
    by (simp add: example_alerts_wf)
  note th = alert_embedding_immutable [OF this run refl, of "[1065353216]" 10]
  have "same_space (au_embedding example_upsert) (au_embedding example_upsert)"
    "validate_upsert example_interfaces example_upsert = Inr ()"
    "parse_vector example_ext v = Some [1065353216]"
    "sha256_check (embedding_sha256 example_ext vs)" for v vs
    by (simp_all add: same_space_def validate_upsert_def example_interfaces_def example_ext_def embedding_sha256_def
        sha256_check_def list_all_iff)
  with th run show ?thesis
    by auto
qed


text \<open>A candidate of the reverse stream for the first record of the example search.\<close>

definition example_reverse_candidate :: candidate_row where
  "example_reverse_candidate =
     (reverse_row example_ext 9 7 example_reverse example_url
        \<lparr>pw_page_id = 21, pw_page_revision_id = 21, pw_content_sha256 = replicate 64 97, pw_changed = False\<rparr>
        example_wire 40)"



end
