(* ===== verification/Query.thy ===== *)
theory Query
  imports Rust_Text Floats
begin

text \<open>
  Query analysis (\<^verbatim>\<open>crates/query/src/lib.rs\<close>) and the embedding-space configuration
  (\<^verbatim>\<open>crates/interfaces-compat/src/lib.rs\<close>). A query text is collapsed, and its keywords and
  entities become companion embedding inputs. Two things are parameters: the Unicode character
  tables behind \<^verbatim>\<open>is_alphanumeric\<close>, \<^verbatim>\<open>is_uppercase\<close>, \<^verbatim>\<open>is_lowercase\<close> and the escapes of
  \<^verbatim>\<open>{:?}\<close> (record \<open>unicode\<close>), and
  the constants and validators of the contract crate (record \<open>query_contract\<close>).
  The loops are also given by a reference definition without loop state: the keywords
  are the first 24 distinct significant words, the entities the first 12 distinct maximal runs
  of capitalised words.
\<close>

record unicode =
  is_alphanumeric :: "uchar \<Rightarrow> bool"
  is_uppercase :: "uchar \<Rightarrow> bool"
  is_lowercase :: "uchar \<Rightarrow> bool"
  debug_str :: "rstr \<Rightarrow> rstr"

datatype embedding_input_kind = Query_Input | Keyword_Input | Entity_Input

record embedding_input =
  in_kind :: embedding_input_kind
  in_ordinal :: u16
  in_text :: rstr
  in_weight :: f32

record query_text_views =
  query_text :: rstr
  keywords_of :: "rstr list"
  entities_of :: "rstr list"
  embedding_inputs :: "embedding_input list"

record query_error =
  qe_code :: string
  qe_message :: rstr

record query_contract =
  max_input_chars :: nat
  max_inputs :: nat
  validate_views :: "query_text_views \<Rightarrow> query_error + unit"
  validate_input :: "embedding_input \<Rightarrow> query_error + unit"

definition MAX_KEYWORDS :: nat where "MAX_KEYWORDS = 24"
definition MAX_ENTITIES :: nat where "MAX_ENTITIES = 12"

definition QueryAnalysisError_new :: "string \<Rightarrow> rstr \<Rightarrow> query_error" where
  "QueryAnalysisError_new code message = \<lparr>qe_code = code, qe_message = message\<rparr>"

text \<open>The \<^verbatim>\<open>Display\<close> text of an analysis error.\<close>

definition show_query_error :: "query_error \<Rightarrow> rstr" where
  "show_query_error e = lit (qe_code e) @ lit '': '' @ qe_message e"

definition push_input ::
  "query_contract \<Rightarrow> embedding_input list \<Rightarrow> embedding_input_kind \<Rightarrow> rstr \<Rightarrow> f32
    \<Rightarrow> query_error + embedding_input list" where
  "push_input Q inputs kind text0 weight =
     (if max_inputs Q \<le> length inputs then
        Inl (QueryAnalysisError_new ''too_many_embedding_inputs''
          (lit ''query analysis exceeded '' @ show_nat (max_inputs Q) @ lit '' embedding inputs''))
      else if 2 ^ 16 \<le> length inputs then
        Inl (QueryAnalysisError_new ''too_many_embedding_inputs''
          (lit ''query analysis produced an unsupported number of inputs''))
      else Inr (inputs @ [\<lparr>in_kind = kind, in_ordinal = of_nat (length inputs),
                           in_text = text0, in_weight = weight\<rparr>]))"

definition query_collapse_whitespace :: "rstr \<Rightarrow> rstr" where
  "query_collapse_whitespace v = join (lit '' '') (split_whitespace v)"

definition clean_token :: "unicode \<Rightarrow> rstr \<Rightarrow> rstr" where
  "clean_token U v = trim_matches (\<lambda>c. \<not> is_alphanumeric U c \<and> c \<noteq> 45 \<and> c \<noteq> 95) v"

definition tokens :: "unicode \<Rightarrow> rstr \<Rightarrow> rstr list" where
  "tokens U v = filter (\<lambda>t. t \<noteq> []) (map (clean_token U) (split_whitespace v))"

definition raw_tokens :: "unicode \<Rightarrow> rstr \<Rightarrow> rstr list" where
  "raw_tokens U v = filter (\<lambda>t. t \<noteq> []) (map (clean_token U) (split_whitespace v))"

definition is_probable_entity_word :: "unicode \<Rightarrow> rstr \<Rightarrow> bool" where
  "is_probable_entity_word U v =
     (case v of
        [] \<Rightarrow> False
      | first # rest \<Rightarrow>
          is_uppercase U first \<and> list_ex (is_lowercase U) rest \<and> \<not> list_all (is_uppercase U) v)"

definition is_instruction_word :: "rstr \<Rightarrow> bool" where
  "is_instruction_word v \<longleftrightarrow> v \<in> set (map lit
     [''alert'', ''email'', ''find'', ''let'', ''notify'', ''show'', ''tell'', ''track'', ''watch''])"

definition is_stopword :: "rstr \<Rightarrow> bool" where
  "is_stopword v \<longleftrightarrow> v \<in> set (map lit
     [''about'', ''after'', ''again'', ''against'', ''alert'', ''also'', ''among'', ''and'',
      ''are'', ''because'', ''been'', ''before'', ''being'', ''between'', ''could'', ''email'',
      ''find'', ''for'', ''from'', ''have'', ''into'', ''just'', ''more'', ''notify'', ''should'',
      ''that'', ''the'', ''their'', ''them'', ''then'', ''there'', ''these'', ''they'', ''this'',
      ''those'', ''through'', ''tools'', ''when'', ''where'', ''which'', ''while'', ''with'',
      ''would''])"

fun keyword_loop :: "rstr list \<Rightarrow> rstr list \<Rightarrow> rstr list \<Rightarrow> rstr list" where
  "keyword_loop [] seen output = output"
| "keyword_loop (token # ts) seen output =
     (let normalized = to_ascii_lowercase token in
      if length normalized < 3 \<or> is_stopword normalized \<or> btree_contains seen normalized
      then keyword_loop ts seen output
      else let output' = output @ [normalized] in
        if MAX_KEYWORDS \<le> length output' then output'
        else keyword_loop ts (btree_insert normalized seen) output')"

definition extract_keywords :: "unicode \<Rightarrow> rstr \<Rightarrow> rstr list" where
  "extract_keywords U query = keyword_loop (tokens U query) [] []"

text \<open>\<^verbatim>\<open>flush_entity\<close> always clears the current words; it returns the seen set and the output.\<close>

definition flush_entity :: "rstr list \<Rightarrow> rstr list \<Rightarrow> rstr list \<Rightarrow> rstr list \<times> rstr list" where
  "flush_entity current seen output =
     (if current = [] \<or> MAX_ENTITIES \<le> length output then (seen, output)
      else let entity = join (lit '' '') current; identity = to_ascii_lowercase entity in
        if btree_contains seen identity then (seen, output)
        else (btree_insert identity seen, output @ [entity]))"

definition entity_candidate :: "unicode \<Rightarrow> nat \<Rightarrow> rstr \<Rightarrow> bool" where
  "entity_candidate U index word =
     (is_probable_entity_word U word \<and>
      \<not> (index = 0 \<and> is_instruction_word (to_ascii_lowercase word)))"

fun entity_loop ::
  "unicode \<Rightarrow> nat \<Rightarrow> rstr list \<Rightarrow> rstr list \<Rightarrow> rstr list \<Rightarrow> rstr list
    \<Rightarrow> rstr list \<times> rstr list \<times> rstr list" where
  "entity_loop U index [] current seen output = (current, seen, output)"
| "entity_loop U index (word # ws) current seen output =
     (let (current', seen', output') =
        (if entity_candidate U index word then (current @ [word], seen, output)
         else (let (seen', output') = flush_entity current seen output in ([], seen', output')))
      in if MAX_ENTITIES \<le> length output' then (current', seen', output')
         else entity_loop U (Suc index) ws current' seen' output')"

definition extract_entities :: "unicode \<Rightarrow> rstr \<Rightarrow> rstr list" where
  "extract_entities U query =
     (let (current, seen, output) = entity_loop U 0 (raw_tokens U query) [] [] [];
          (_, output') = flush_entity current seen output
      in take MAX_ENTITIES output')"

definition weight_query :: f32 where "weight_query = 1067030938" \<comment> \<open>1.2\<close>
definition weight_keyword :: f32 where "weight_keyword = 1058642330" \<comment> \<open>0.6\<close>
definition weight_entity :: f32 where "weight_entity = 1063675494" \<comment> \<open>0.9\<close>

definition analyze_query :: "unicode \<Rightarrow> query_contract \<Rightarrow> rstr \<Rightarrow> query_error + query_text_views" where
  "analyze_query U Q v =
     (let query_text = query_collapse_whitespace v; character_count = length query_text in
      if \<not> (3 \<le> character_count \<and> character_count \<le> max_input_chars Q) then
        Inl (QueryAnalysisError_new ''invalid_query_text''
          (lit ''query text must contain 3 to '' @ show_nat (max_input_chars Q) @
           lit '' characters so the complete query remains one auditable embedding input''))
      else let keywords = extract_keywords U query_text; entities = extract_entities U query_text in
        bindr (push_input Q [] Query_Input query_text weight_query) (\<lambda>inputs.
        bindr (fold_res (\<lambda>k inputs. push_input Q inputs Keyword_Input k weight_keyword) keywords inputs) (\<lambda>inputs.
        bindr (fold_res (\<lambda>e inputs. push_input Q inputs Entity_Input e weight_entity) entities inputs) (\<lambda>inputs.
        let views = \<lparr>query_text = query_text, keywords_of = keywords, entities_of = entities,
                     embedding_inputs = inputs\<rparr> in
        bindr (map_err (\<lambda>e. QueryAnalysisError_new (qe_code e) (qe_message e)) (validate_views Q views)) (\<lambda>_.
        Inr views)))))"

section \<open>The reference definitions\<close>

text \<open>Keep the first element of every class of elements with the same key.\<close>

fun first_by :: "('a \<Rightarrow> 'k) \<Rightarrow> 'k set \<Rightarrow> 'a list \<Rightarrow> 'a list" where
  "first_by f seen [] = []"
| "first_by f seen (x # xs) =
     (if f x \<in> seen then first_by f seen xs else x # first_by f (insert (f x) seen) xs)"

text \<open>The maximal runs of consecutive elements that satisfy a predicate.\<close>

function runs :: "('a \<Rightarrow> bool) \<Rightarrow> 'a list \<Rightarrow> 'a list list" where
  "runs p [] = []"
| "runs p (x # xs) =
     (if p x then (x # takeWhile p xs) # runs p (dropWhile p xs) else runs p xs)"
  by pat_completeness auto
termination
  by (relation "measure (\<lambda>(p, xs). length xs)") (auto simp: less_Suc_eq_le length_dropWhile_le)

text \<open>All inputs of a query in order, each with its position as ordinal.\<close>

definition inputs_spec :: "rstr \<Rightarrow> rstr list \<Rightarrow> rstr list \<Rightarrow> embedding_input list" where
  "inputs_spec q ks es =
     map (\<lambda>(i, kind, t, w). \<lparr>in_kind = kind, in_ordinal = of_nat i, in_text = t, in_weight = w\<rparr>)
       (enumerate 0 ((Query_Input, q, weight_query)
          # map (\<lambda>k. (Keyword_Input, k, weight_keyword)) ks
          @ map (\<lambda>e. (Entity_Input, e, weight_entity)) es))"

definition significant :: "rstr \<Rightarrow> bool" where
  "significant w \<longleftrightarrow> 3 \<le> length w \<and> \<not> is_stopword w"

definition keywords_spec :: "unicode \<Rightarrow> rstr \<Rightarrow> rstr list" where
  "keywords_spec U query =
     take 24 (first_by id {} (filter significant (map to_ascii_lowercase (tokens U query))))"

definition entities_spec :: "unicode \<Rightarrow> rstr \<Rightarrow> rstr list" where
  "entities_spec U query =
     take 12 (first_by to_ascii_lowercase {}
       (map (\<lambda>ws. join [32] (map snd ws))
         (runs (\<lambda>(i, w). entity_candidate U i w) (enumerate 0 (tokens U query)))))"


definition views_spec :: "unicode \<Rightarrow> rstr \<Rightarrow> query_text_views" where
  "views_spec U q =
     \<lparr>query_text = q, keywords_of = keywords_spec U q, entities_of = entities_spec U q,
      embedding_inputs = inputs_spec q (keywords_spec U q) (entities_spec U q)\<rparr>"

section \<open>The loops compute the reference definitions\<close>

lemma first_by_append:
  "first_by f S (xs @ ys) = first_by f S xs @ first_by f (S \<union> f ` set xs) ys"
  by (induction xs arbitrary: S) (auto simp: insert_absorb)

lemma first_by_distinct: "distinct (map f (first_by f S xs)) \<and> f ` set (first_by f S xs) \<inter> S = {}"
  proof (induction xs arbitrary: S)
  case (Cons x xs)
  then show ?case
    using Cons.IH [of S] Cons.IH [of "insert (f x) S"] by auto
qed simp

lemma set_first_by: "set (first_by f S xs) \<subseteq> set xs"
  by (induction xs arbitrary: S) auto

lemma keyword_loop_spec:
  assumes "length out < 24"
  shows "keyword_loop ts seen out =
    out @ take (24 - length out) (first_by id (set seen) (filter significant (map to_ascii_lowercase ts)))"
  using assms
proof (induction ts seen out rule: keyword_loop.induct)
  case (2 token ts seen out)
  show ?case
  proof (cases "length out = 23")
    case True
    then show ?thesis
      using 2 by (auto simp: Let_def MAX_KEYWORDS_def significant_def btree_contains_def)
  next
    case False
    with 2 show ?thesis
      by (auto simp: Let_def MAX_KEYWORDS_def significant_def btree_contains_def Suc_diff_Suc
          take_Cons' simp del: take_append)
  qed
qed simp

lemma extract_keywords_spec: "extract_keywords U q = keywords_spec U q"
  by (simp add: extract_keywords_def keywords_spec_def keyword_loop_spec)

text \<open>The runs, computed with the current run as an accumulator.\<close>

fun groups :: "('a \<Rightarrow> bool) \<Rightarrow> 'a list \<Rightarrow> 'a list \<Rightarrow> 'a list list" where
  "groups p cur [] = (if cur = [] then [] else [cur])"
| "groups p cur (x # xs) =
     (if p x then groups p (cur @ [x]) xs
      else (if cur = [] then [] else [cur]) @ groups p [] xs)"

lemma groups_runs:
  "groups p cur xs = (if cur = [] then runs p xs else (cur @ takeWhile p xs) # runs p (dropWhile p xs))"
  by (induction p cur xs rule: groups.induct) auto

lemma flush_entity_spec:
  assumes "length out < 12"
  shows "snd (flush_entity cur seen out) =
      out @ first_by to_ascii_lowercase (set seen) (if cur = [] then [] else [join [32] cur])"
    and "set (fst (flush_entity cur seen out)) =
      set seen \<union> to_ascii_lowercase ` set (if cur = [] then [] else [join [32] cur])"
  using assms
  by (auto simp: flush_entity_def MAX_ENTITIES_def btree_contains_def Let_def lit_def)

lemma flush_entity_full: "12 \<le> length out \<Longrightarrow> flush_entity cur seen out = (seen, out)"
  by (simp add: flush_entity_def MAX_ENTITIES_def)

definition entity_finish :: "rstr list \<times> rstr list \<times> rstr list \<Rightarrow> rstr list" where
  "entity_finish = (\<lambda>(current, seen, out). take 12 (snd (flush_entity current seen out)))"

lemma entity_loop_spec:
  assumes "length out < 12"
  shows "entity_finish (entity_loop U i ws (map snd cur) seen out) =
    take 12 (out @ first_by to_ascii_lowercase (set seen)
      (map (\<lambda>ws. join [32] (map snd ws))
        (groups (\<lambda>(i, w). entity_candidate U i w) cur (enumerate i ws))))"
  using assms
proof (induction ws arbitrary: i cur seen out)
  case Nil
  then show ?case
    by (simp add: entity_finish_def flush_entity_spec)
next
  case (Cons w ws)
  show ?case
  proof (cases "entity_candidate U i w")
    case True
    with Cons.prems show ?thesis
      using Cons.IH [of out "Suc i" "cur @ [(i, w)]" seen] by (simp add: MAX_ENTITIES_def)
  next
    case False
    obtain seen' out' where fl: "flush_entity (map snd cur) seen out = (seen', out')"
      by fastforce
    let ?run = "if cur = [] then [] else [join [32] (map snd cur)]"
    have out: "out' = out @ first_by to_ascii_lowercase (set seen) ?run"
      and seen: "set seen' = set seen \<union> to_ascii_lowercase ` set ?run"
      using flush_entity_spec [OF Cons.prems, of "map snd cur" seen] fl by (auto split: if_splits)
    show ?thesis
    proof (cases "length out' < 12")
      case True
      with False fl show ?thesis
        using Cons.IH [of out' "Suc i" "[]" seen'] out seen
        by (simp add: MAX_ENTITIES_def first_by_append)
    next
      case full: False
      with False fl out show ?thesis
        by (auto simp: MAX_ENTITIES_def entity_finish_def flush_entity_full first_by_append
            split: if_splits)
    qed
  qed
qed

lemma tokens_raw: "raw_tokens U q = tokens U q"
  by (simp add: tokens_def raw_tokens_def)

lemma extract_entities_spec: "extract_entities U q = entities_spec U q"
proof -
  have "extract_entities U q = entity_finish (entity_loop U 0 (tokens U q) [] [] [])"
    by (simp add: extract_entities_def entity_finish_def MAX_ENTITIES_def split_def Let_def tokens_raw)
  then show ?thesis
    using entity_loop_spec [of "[]" U 0 "tokens U q" "[]" "[]"]
    by (simp add: entities_spec_def groups_runs)
qed

section \<open>The inputs\<close>

lemma fold_push:
  assumes "length inputs + length xs \<le> 2 ^ 16"
  shows "fold_res (\<lambda>t inputs. push_input Q inputs kind t weight) xs inputs = Inr ys \<longleftrightarrow>
    (xs = [] \<or> length inputs + length xs \<le> max_inputs Q) \<and>
    ys = inputs @ map (\<lambda>(i, t). \<lparr>in_kind = kind, in_ordinal = of_nat i, in_text = t, in_weight = weight\<rparr>)
      (enumerate (length inputs) xs)"
  using assms
proof (induction xs arbitrary: inputs)
  case (Cons x xs)
  then show ?case
    using Cons.IH [of "inputs @ [\<lparr>in_kind = kind, in_ordinal = of_nat (length inputs),
      in_text = x, in_weight = weight\<rparr>]"]
    by (auto simp: push_input_def)
qed auto

lemma spec_lengths: "length (keywords_spec U q) \<le> 24" "length (entities_spec U q) \<le> 12"
  by (simp_all add: keywords_spec_def entities_spec_def)

lemma inputs_spec_eq:
  "inputs_spec q ks es =
     [\<lparr>in_kind = Query_Input, in_ordinal = 0, in_text = q, in_weight = weight_query\<rparr>]
     @ map (\<lambda>(i, t). \<lparr>in_kind = Keyword_Input, in_ordinal = of_nat i, in_text = t, in_weight = weight_keyword\<rparr>)
         (enumerate 1 ks)
     @ map (\<lambda>(i, t). \<lparr>in_kind = Entity_Input, in_ordinal = of_nat i, in_text = t, in_weight = weight_entity\<rparr>)
         (enumerate (1 + length ks) es)"
  by (rule nth_equalityI) (auto simp: inputs_spec_def nth_append nth_enumerate_eq nth_Cons split: nat.splits)

lemma query_collapse_whitespace_idem: "query_collapse_whitespace (query_collapse_whitespace v) = query_collapse_whitespace v"
  using collapse_idem [of v] by (simp add: query_collapse_whitespace_def collapse_def lit_def)

lemma inputs_spec_nth:
  assumes "i < length (inputs_spec q ks es)" and "length ks + length es < 2 ^ 16"
  shows "unat (in_ordinal (inputs_spec q ks es ! i)) = i"
proof -
  have "i < 2 ^ 16"
    using assms by (simp add: inputs_spec_def)
  then have "unat (of_nat i :: u16) = i"
    by (simp add: unat_of_nat)
  with assms(1) show ?thesis
    by (simp add: inputs_spec_def nth_enumerate_eq split_def del: enumerate_simps)
qed

lemma analyze_query_iff:
  "analyze_query U Q v = Inr w \<longleftrightarrow>
     3 \<le> length (query_collapse_whitespace v) \<and> length (query_collapse_whitespace v) \<le> max_input_chars Q \<and>
     length (embedding_inputs w) \<le> max_inputs Q \<and>
     w = views_spec U (query_collapse_whitespace v) \<and> validate_views Q w = Inr ()"
proof -
  let ?q = "query_collapse_whitespace v" and ?ks = "keywords_spec U (query_collapse_whitespace v)"
  let ?es = "entities_spec U (query_collapse_whitespace v)"
  let ?first = "\<lparr>in_kind = Query_Input, in_ordinal = 0, in_text = ?q, in_weight = weight_query\<rparr>"
  note len = spec_lengths [of U ?q]
  have step1: "push_input Q [] Query_Input ?q weight_query = Inr is \<longleftrightarrow> 1 \<le> max_inputs Q \<and> is = [?first]" for "is"
    by (auto simp: push_input_def)
  have all: "bindr (push_input Q [] Query_Input ?q weight_query) (\<lambda>inputs.
      bindr (fold_res (\<lambda>k inputs. push_input Q inputs Keyword_Input k weight_keyword) ?ks inputs) (\<lambda>inputs.
      bindr (fold_res (\<lambda>e inputs. push_input Q inputs Entity_Input e weight_entity) ?es inputs) k)) = Inr w \<longleftrightarrow>
      1 + length ?ks + length ?es \<le> max_inputs Q \<and> k (inputs_spec ?q ?ks ?es) = Inr w" for k
    using len by (auto simp: step1 fold_push inputs_spec_eq)
  have "length (embedding_inputs (views_spec U ?q)) = 1 + length ?ks + length ?es"
    by (simp add: views_spec_def inputs_spec_def)
  moreover have "analyze_query U Q v = Inr w \<longleftrightarrow>
      (3 \<le> length ?q \<and> length ?q \<le> max_input_chars Q) \<and>
      1 + length ?ks + length ?es \<le> max_inputs Q \<and>
      validate_views Q (views_spec U ?q) = Inr () \<and> w = views_spec U ?q"
    by (simp only: analyze_query_def Let_def extract_keywords_spec extract_entities_spec guard_eq_Inr all)
      (auto simp: views_spec_def)
  ultimately show ?thesis
    by auto
qed

lemma analyze_query_result:
  assumes "analyze_query U Q v = Inr w"
  shows "query_text w = query_collapse_whitespace v" "w = views_spec U (query_text w)"
    "analyze_query U Q (query_text w) = Inr w"
proof -
  have "query_text (views_spec U q) = q" for q
    by (simp add: views_spec_def)
  with assms show "query_text w = query_collapse_whitespace v" "w = views_spec U (query_text w)"
    "analyze_query U Q (query_text w) = Inr w"
    by (auto simp: analyze_query_iff query_collapse_whitespace_idem)
qed

lemma keywords_spec_word:
  "k \<in> set (keywords_spec U q) \<Longrightarrow> significant k \<and> to_ascii_lowercase k = k"
  using set_first_by [of id "{}" "filter significant (map to_ascii_lowercase (tokens U q))"]
  by (fastforce simp: keywords_spec_def dest: in_set_takeD)

lemma distinct_spec:
  "distinct (keywords_spec U q)" "distinct (map to_ascii_lowercase (entities_spec U q))"
  using first_by_distinct [of "id :: rstr \<Rightarrow> rstr" "{}"] first_by_distinct [of to_ascii_lowercase "{}"]
  by (simp_all add: keywords_spec_def entities_spec_def flip: take_map)

section \<open>Properties\<close>

text \<open>
  C18. A query is analysed exactly when its collapsed text has 3 to the contract's maximum of
  characters, all its inputs fit the contract's maximum number, and the contract's validator
  accepts the views. The views are then those of the reference definition: the collapsed text, the first 24
  distinct significant words, the first 12 maximal runs of capitalised words that differ in more
  than case, and one input for each in that order.
\<close>
theorem analyze_query_exact:
  "analyze_query U Q v = Inr w \<longleftrightarrow>
     3 \<le> length (query_collapse_whitespace v) \<and> length (query_collapse_whitespace v) \<le> max_input_chars Q \<and>
     length (embedding_inputs w) \<le> max_inputs Q \<and>
     w = views_spec U (query_collapse_whitespace v) \<and> validate_views Q w = Inr ()"
  by (rule analyze_query_iff)

text \<open>
  The views of an analysed query are bounded and unambiguous: at most 24 keywords, all
  significant, in lower case and different; at most 12 entities that differ in more than case; and
  every input carries its own position as ordinal, so the 16-bit ordinal never wraps. Analysing
  the recorded query text again gives the same views.
\<close>
theorem analyze_query_stable:
  assumes "analyze_query U Q v = Inr w"
  shows "length (keywords_of w) \<le> 24 \<and> distinct (keywords_of w) \<and>
    (\<forall>k \<in> set (keywords_of w). significant k \<and> to_ascii_lowercase k = k) \<and>
    length (entities_of w) \<le> 12 \<and> distinct (map to_ascii_lowercase (entities_of w)) \<and>
    length (embedding_inputs w) = 1 + length (keywords_of w) + length (entities_of w) \<and>
    (\<forall>i < length (embedding_inputs w). unat (in_ordinal (embedding_inputs w ! i)) = i) \<and>
    analyze_query U Q (query_text w) = Inr w"
proof -
  let ?q = "query_text w"
  note w = analyze_query_result [OF assms]
  have fields: "keywords_of w = keywords_spec U ?q" "entities_of w = entities_spec U ?q"
    "embedding_inputs w = inputs_spec ?q (keywords_spec U ?q) (entities_spec U ?q)"
    by (subst w(2), simp add: views_spec_def)+
  have "length (keywords_spec U ?q) + length (entities_spec U ?q) < 2 ^ 16"
    using spec_lengths [of U ?q] by simp
  with w(3) show ?thesis
    unfolding fields
    using spec_lengths [of U ?q] distinct_spec [of U ?q] keywords_spec_word [of _ U ?q]
      inputs_spec_nth [of _ ?q "keywords_spec U ?q" "entities_spec U ?q"]
    by (auto simp: inputs_spec_def simp del: enumerate_simps)
qed

text \<open>The ASCII part of the character tables, and a contract with generous limits.\<close>

definition ascii_tables :: unicode where
  "ascii_tables = \<lparr>is_alphanumeric = is_ascii_alphanumeric,
     is_uppercase = (\<lambda>c. 65 \<le> c \<and> c \<le> 90), is_lowercase = (\<lambda>c. 97 \<le> c \<and> c \<le> 122),
     debug_str = (\<lambda>s. [34] @ s @ [34])\<rparr>"

definition example_contract :: query_contract where
  "example_contract = \<lparr>max_input_chars = 4000, max_inputs = 64, validate_views = (\<lambda>_. Inr ()),
     validate_input = (\<lambda>_. Inr ())\<rparr>"

definition example_query :: rstr where
  "example_query = lit ''Track  Rust rust from Acme Labs''"

lemma example_views:
  "analyze_query ascii_tables example_contract example_query = Inr (views_spec ascii_tables (lit ''Track Rust rust from Acme Labs''))"
  "keywords_spec ascii_tables (lit ''Track Rust rust from Acme Labs'') = map lit [''track'', ''rust'', ''acme'', ''labs'']"
  "entities_spec ascii_tables (lit ''Track Rust rust from Acme Labs'') = map lit [''Rust'', ''Acme Labs'']"
  by code_simp+

theorem analyze_query_stable_witness:
  "analyze_query ascii_tables example_contract (lit ''Track Rust rust from Acme Labs'') =
     Inr (views_spec ascii_tables (lit ''Track Rust rust from Acme Labs'')) \<and>
   keywords_of (views_spec ascii_tables (lit ''Track Rust rust from Acme Labs'')) =
     map lit [''track'', ''rust'', ''acme'', ''labs'']"
  using analyze_query_stable [OF example_views(1)] example_views(2)
  by (simp add: views_spec_def)

end
