(* ===== verification/Float_Arith.thy ===== *)
theory Float_Arith
  imports Floats
begin

text \<open>
  Double-precision arithmetic: addition, multiplication, division and square root, each the exact result
  rounded to nearest, ties to even. Quotients and roots are rounded from two guard bits and a
  sticky bit. The Euclidean norm is the one the program computes
  (\<^verbatim>\<open>map(|x| x.powi(2)).sum().sqrt()\<close>; squaring is one multiplication and the sum starts at zero). The lemmas bound
  results by monotonicity of rounding: no component exceeds its computed norm, and a number
  divided by a norm at least as large stays within one.
\<close>

definition nan64 :: f64 where "nan64 = mk64 False (inf64 + 2 ^ 51)"

definition add64 :: "f64 \<Rightarrow> f64 \<Rightarrow> f64" where
  "add64 x y =
     (if is_nan64 x \<or> is_nan64 y then nan64
      else if mag64 x = inf64 then (if mag64 y = inf64 \<and> neg64 x \<noteq> neg64 y then nan64 else x)
      else if mag64 y = inf64 then y
      else let s = val64 x + val64 y
        in mk64 (s < 0 \<or> s = 0 \<and> neg64 x \<and> neg64 y) (min inf64 (enc 53 0 (nat \<bar>s\<bar>))))"

definition mul64 :: "f64 \<Rightarrow> f64 \<Rightarrow> f64" where
  "mul64 x y =
     (if is_nan64 x \<or> is_nan64 y then nan64
      else if mag64 x = inf64 \<or> mag64 y = inf64 then
        (if mag64 x = 0 \<or> mag64 y = 0 then nan64 else mk64 (neg64 x \<noteq> neg64 y) inf64)
      else mk64 (neg64 x \<noteq> neg64 y) (min inf64 (enc 53 1074 (dec 53 (mag64 x) * dec 53 (mag64 y)))))"

text \<open>Twice the integer part, with a final bit that says whether anything was cut off.\<close>

definition sticky :: "nat \<Rightarrow> bool \<Rightarrow> nat" where
  "sticky q exact = 2 * q + (if exact then 0 else 1)"

definition quotient64 :: "nat \<Rightarrow> nat \<Rightarrow> nat" where
  "quotient64 m m' =
     (let n = dec 53 m * 2 ^ 1076; d = dec 53 m'
      in min inf64 (enc 53 3 (sticky (n div d) (n mod d = 0))))"

definition div64 :: "f64 \<Rightarrow> f64 \<Rightarrow> f64" where
  "div64 x y =
     (if is_nan64 x \<or> is_nan64 y then nan64
      else if mag64 x = inf64 then
        (if mag64 y = inf64 then nan64 else mk64 (neg64 x \<noteq> neg64 y) inf64)
      else if mag64 y = inf64 then mk64 (neg64 x \<noteq> neg64 y) 0
      else if mag64 y = 0 then
        (if mag64 x = 0 then nan64 else mk64 (neg64 x \<noteq> neg64 y) inf64)
      else mk64 (neg64 x \<noteq> neg64 y) (quotient64 (mag64 x) (mag64 y)))"

fun isqrt :: "nat \<Rightarrow> nat" where
  "isqrt n = (if n = 0 then 0
     else let r = 2 * isqrt (n div 4) in if (r + 1) * (r + 1) \<le> n then r + 1 else r)"

declare isqrt.simps [simp del]

definition round_root :: "nat \<Rightarrow> nat" where
  "round_root n = (let r = isqrt n in enc 53 3 (sticky r (r * r = n)))"

definition root64 :: "nat \<Rightarrow> nat" where
  "root64 m = min inf64 (round_root (dec 53 m * 2 ^ 1078))"

definition sqrt64 :: "f64 \<Rightarrow> f64" where
  "sqrt64 x =
     (if is_nan64 x then nan64
      else if mag64 x = 0 then x
      else if neg64 x then nan64
      else if mag64 x = inf64 then x
      else mk64 False (root64 (mag64 x)))"

definition sum64 :: "f64 list \<Rightarrow> f64" where
  "sum64 xs = fold (\<lambda>x s. add64 s x) xs zero64"

definition norm64 :: "f64 list \<Rightarrow> f64" where
  "norm64 xs = sqrt64 (sum64 (map (\<lambda>x. mul64 x x) xs))"

definition EPSILON64 :: f64 where "EPSILON64 = 4372995238176751616" \<comment> \<open>\<open>2 ^ - 52\<close>\<close>

section \<open>Integer square root\<close>

lemma isqrt_bounds: "isqrt n * isqrt n \<le> n \<and> n < (isqrt n + 1) * (isqrt n + 1)"
proof (induction n rule: isqrt.induct)
  case (1 n)
  show ?case
  proof (cases "n = 0")
    case True
    then show ?thesis by (simp add: isqrt.simps)
  next
    case False
    let ?r = "isqrt (n div 4)"
    from 1 [OF False] have "?r * ?r \<le> n div 4" and "n div 4 < (?r + 1) * (?r + 1)"
      by auto
    then have "4 * (?r * ?r) \<le> n" and "n < 4 * ((?r + 1) * (?r + 1))"
      by linarith+
    then show ?thesis
      using False by (subst (1 2 3 4) isqrt.simps) (auto simp: Let_def algebra_simps)
  qed
qed

lemma isqrt_ge: "r * r \<le> n \<Longrightarrow> r \<le> isqrt n"
proof (rule ccontr)
  assume le: "r * r \<le> n" and "\<not> r \<le> isqrt n"
  then have "isqrt n + 1 \<le> r" by simp
  then have "(isqrt n + 1) * (isqrt n + 1) \<le> r * r" by (intro mult_mono) auto
  with le isqrt_bounds [of n] show False by linarith
qed

lemma sticky_root_mono:
  assumes "m \<le> n"
  shows "sticky (isqrt m) (isqrt m * isqrt m = m) \<le> sticky (isqrt n) (isqrt n * isqrt n = n)"
proof -
  have le: "isqrt m \<le> isqrt n"
    using isqrt_bounds [of m] assms by (intro isqrt_ge) simp
  show ?thesis
  proof (cases "isqrt m = isqrt n \<and> isqrt n * isqrt n = n")
    case True
    then have "isqrt m * isqrt m = m" using isqrt_bounds [of m] assms by auto
    with True show ?thesis by (simp add: sticky_def)
  next
    case False
    with le show ?thesis by (auto simp: sticky_def)
  qed
qed

section \<open>Results of finite operands\<close>

lemma finite64_cases: "is_finite64 x \<Longrightarrow> \<not> is_nan64 x \<and> mag64 x \<noteq> inf64"
  by (simp add: is_finite64_def is_nan64_def)

lemma mk64_root: "mag64 (mk64 s (root64 m)) = root64 m" "neg64 (mk64 s (root64 m)) = s"
  by (rule mk64_fields, simp add: root64_def)+

lemma mk64_quotient: "mag64 (mk64 s (quotient64 m m')) = quotient64 m m'"
  by (rule mk64_fields, simp add: quotient64_def Let_def)

lemma mk64_min: "mag64 (mk64 s (min inf64 m)) = min inf64 m" "neg64 (mk64 s (min inf64 m)) = s"
  by (rule mk64_fields, simp)+

lemma mul64_finite:
  assumes "is_finite64 x" and "is_finite64 y"
  shows "mag64 (mul64 x y) = min inf64 (enc 53 1074 (dec 53 (mag64 x) * dec 53 (mag64 y)))"
    and "neg64 (mul64 x y) \<longleftrightarrow> neg64 x \<noteq> neg64 y"
  using assms by (simp_all add: mul64_def finite64_cases mk64_min)

text \<open>The numbers that are neither NaN nor negative, where rounding is monotone in the magnitude.\<close>

definition nonneg64 :: "f64 \<Rightarrow> bool" where
  "nonneg64 x \<longleftrightarrow> \<not> is_nan64 x \<and> (\<not> neg64 x \<or> mag64 x = 0)"

lemma dec_pos: "0 < p \<Longrightarrow> 0 < m \<Longrightarrow> 0 < dec p m"
  using enc_dec [of p 0 m] enc_0 [of p 0] by (cases "dec p m") auto

lemma dec_0 [simp]: "dec p 0 = 0"
  by (simp add: dec_def)

lemma val64_nonneg: "nonneg64 x \<Longrightarrow> val64 x = int (dec 53 (mag64 x))"
  by (auto simp: nonneg64_def val64_def)

lemma abs_val64: "\<bar>val64 x\<bar> = int (dec 53 (mag64 x))"
  by (simp add: val64_def)

text \<open>The larger the magnitudes added, the larger the sum of their magnitudes.\<close>

lemma add64_bound:
  assumes "nonneg64 a" and "nonneg64 b" and "mag64 x \<le> mag64 a" and "mag64 y \<le> mag64 b"
    and "is_finite64 a" and "is_finite64 b"
  shows "mag64 (add64 x y) \<le> mag64 (add64 a b)"
proof -
  have fin: "is_finite64 x" "is_finite64 y"
    using assms(3-6) by (auto simp: is_finite64_def)
  have "dec 53 (mag64 x) \<le> dec 53 (mag64 a)" and "dec 53 (mag64 y) \<le> dec 53 (mag64 b)"
    using assms(3,4) by (auto intro: dec_mono)
  then have "\<bar>val64 x + val64 y\<bar> \<le> val64 a + val64 b"
    using abs_val64 [of x] abs_val64 [of y] val64_nonneg [OF assms(1)] val64_nonneg [OF assms(2)]
    by linarith
  then have "enc 53 0 (nat \<bar>val64 x + val64 y\<bar>) \<le> enc 53 0 (nat \<bar>val64 a + val64 b\<bar>)"
    by (intro enc_mono) auto
  then show ?thesis
    using fin assms(5,6) by (simp add: add64_def finite64_cases mk64_min Let_def)
qed

lemma add64_nonneg:
  assumes "nonneg64 a" and "nonneg64 b"
  shows "nonneg64 (add64 a b)" "mag64 a \<le> mag64 (add64 a b)" "mag64 b \<le> mag64 (add64 a b)"
proof -
  have inf: "nonneg64 a \<and> nonneg64 b \<Longrightarrow> mag64 a \<le> inf64 \<and> mag64 b \<le> inf64"
    by (auto simp: nonneg64_def is_nan64_def)
  show "nonneg64 (add64 a b)" "mag64 a \<le> mag64 (add64 a b)" "mag64 b \<le> mag64 (add64 a b)"
  proof (atomize (full), cases "is_finite64 a \<and> is_finite64 b")
    case True
    have v: "val64 a + val64 b = int (dec 53 (mag64 a) + dec 53 (mag64 b))"
      using val64_nonneg assms by simp
    let ?m = "enc 53 0 (dec 53 (mag64 a) + dec 53 (mag64 b))"
    have "enc 53 0 (dec 53 (mag64 a)) \<le> ?m" and "enc 53 0 (dec 53 (mag64 b)) \<le> ?m"
      by (intro enc_mono; simp)+
    then have "mag64 a \<le> ?m" and "mag64 b \<le> ?m"
      using enc_dec [of 53 0] by simp_all
    moreover have "add64 a b = mk64 (val64 a + val64 b = 0 \<and> neg64 a \<and> neg64 b) (min inf64 ?m)"
      using True unfolding add64_def v by (auto simp: finite64_cases Let_def nat_int_add)
    moreover have "val64 a + val64 b = 0 \<Longrightarrow> ?m = 0"
      using enc_0 [of 53 0] v by (simp flip: of_nat_add)
    ultimately show "nonneg64 (add64 a b) \<and> mag64 a \<le> mag64 (add64 a b) \<and> mag64 b \<le> mag64 (add64 a b)"
      using True by (auto simp: nonneg64_def mk64_min is_nan64_def is_finite64_def)
  next
    case False
    with assms inf show "nonneg64 (add64 a b) \<and> mag64 a \<le> mag64 (add64 a b) \<and> mag64 b \<le> mag64 (add64 a b)"
      by (auto simp: add64_def nonneg64_def is_nan64_def is_finite64_def)
  qed
qed

lemma fold_add64:
  assumes "nonneg64 s" and "\<forall>x \<in> set xs. nonneg64 x"
  shows "nonneg64 (fold (\<lambda>x s. add64 s x) xs s) \<and>
    mag64 s \<le> mag64 (fold (\<lambda>x s. add64 s x) xs s) \<and>
    (\<forall>x \<in> set xs. mag64 x \<le> mag64 (fold (\<lambda>x s. add64 s x) xs s))"
  using assms
proof (induction xs arbitrary: s)
  case (Cons x xs)
  have n: "nonneg64 (add64 s x)" "mag64 s \<le> mag64 (add64 s x)" "mag64 x \<le> mag64 (add64 s x)"
    using Cons.prems by (auto intro: add64_nonneg)
  with Cons.IH [OF n(1)] Cons.prems show ?case by fastforce
qed simp

lemma zero64_nonneg [simp]: "nonneg64 zero64"
  by (simp add: nonneg64_def zero64_def one64_fields)

lemma sum64_bounds:
  assumes "\<forall>x \<in> set xs. nonneg64 x"
  shows "nonneg64 (sum64 xs)" and "x \<in> set xs \<Longrightarrow> mag64 x \<le> mag64 (sum64 xs)"
  using fold_add64 [OF zero64_nonneg assms] by (simp_all add: sum64_def)

lemma square_nonneg: "is_finite64 x \<Longrightarrow> nonneg64 (mul64 x x)"
  by (simp add: nonneg64_def is_nan64_def mul64_finite)

section \<open>The computed norm bounds every component\<close>

lemma rne_error: "2 * v \<le> 2 * (rne v k * 2 ^ k) + 2 ^ k"
proof -
  define q r where "q = v div 2 ^ k" and "r = v mod 2 ^ k"
  have v: "v = q * 2 ^ k + r" by (simp only: q_def r_def div_mult_mod_eq)
  have "r < 2 ^ k" by (simp add: r_def)
  have "rne v k = (if 2 * r > 2 ^ k \<or> 2 * r = 2 ^ k \<and> odd q then Suc q else q)"
    by (simp add: rne_def q_def r_def Let_def)
  then consider "rne v k = Suc q" | "rne v k = q" "2 * r \<le> 2 ^ k"
    by (metis not_le)
  then show ?thesis
    using \<open>r < 2 ^ k\<close> by cases (auto simp: v)
qed

lemma dec_enc_round:
  assumes "k = ilog2 v + 1 - (p + s)" and "0 < k" and "0 < p"
  shows "dec p (enc p s v) = rne v (k + s) * 2 ^ k"
proof -
  let ?q = "rne v (k + s)"
  have e: "enc p s v = ?q + k * 2 ^ (p - 1)" by (simp add: enc_def assms(1) Let_def)
  have two: "(2::nat) ^ p = 2 * 2 ^ (p - 1)" using assms(3) by (cases p) auto
  have lo: "2 ^ (p - 1) \<le> ?q" and hi: "?q \<le> 2 ^ p"
    using enc_lower [OF assms] enc_upper [OF assms(1,3)] by (simp_all add: e two algebra_simps)
  show ?thesis
  proof (cases "?q < 2 ^ p")
    case True
    then show ?thesis unfolding e by (rule dec_enc_scaled [OF lo _ assms(3)])
  next
    case False
    with hi two have q: "?q = 2 * 2 ^ (p - 1)" by simp
    have "dec p (2 ^ (p - 1) + Suc k * 2 ^ (p - 1)) = 2 ^ (p - 1) * 2 ^ Suc k"
      by (rule dec_enc_scaled) (use two assms(3) in auto)
    moreover have "2 ^ (p - 1) + Suc k * 2 ^ (p - 1) = 2 * 2 ^ (p - 1) + k * (2::nat) ^ (p - 1)"
      by simp
    ultimately show ?thesis unfolding e q by (simp only: power_Suc mult.assoc mult.left_commute mult.commute)
  qed
qed

text \<open>The upper half of the interval below a magnitude that is no power of two rounds up to it.\<close>

lemma enc_round_up:
  assumes "2 ^ 52 < q" and "q < 2 ^ 53" and "2 ^ (e + 2) * (2 * q - 1) < v"
  shows "q + e * 2 ^ 52 \<le> enc 53 3 v"
proof -
  let ?v = "2 ^ (e + 2) * (2 * q - 1) + 1"
  have v: "?v = (q - 1) * 2 ^ (e + 3) + (2 ^ (e + 2) + 1)"
  proof -
    have "2 * q - 1 = 2 * (q - 1) + 1" using assms(1) by simp
    then show ?thesis by (simp add: algebra_simps power_add)
  qed
  have "ilog2 ?v = 52 + (e + 3)"
  proof (rule ilog2_unique)
    have "2 ^ 52 * 2 ^ (e + 3) \<le> (q - 1) * 2 ^ (e + 3)" using assms(1) by (intro mult_right_mono) auto
    then show "2 ^ (52 + (e + 3)) \<le> ?v" unfolding v power_add [of 2 52] by linarith
    have "?v < q * 2 ^ (e + 3)"
    proof -
      have "q * 2 ^ (e + 3) = (q - 1) * 2 ^ (e + 3) + 2 * 2 ^ (e + 2)"
        using assms(1) by (cases q) (auto simp: power_add)
      moreover have "(2::nat) ^ (e + 2) > 1"
        by (rule one_less_power) simp_all
      ultimately show ?thesis unfolding v by linarith
    qed
    also have "\<dots> \<le> 2 ^ 53 * 2 ^ (e + 3)" using assms(2) by (intro mult_right_mono) auto
    also have "\<dots> = 2 ^ Suc (52 + (e + 3))" by (simp add: power_add)
    finally show "?v < 2 ^ Suc (52 + (e + 3))" .
  qed
  then have k: "ilog2 ?v + 1 - (53 + 3) = e" by simp
  have rem: "2 ^ (e + 2) + 1 < (2::nat) ^ (e + 3)"
  proof -
    have "(2::nat) ^ (e + 3) = 2 ^ (e + 2) + 2 ^ (e + 2)" by (simp add: power_add)
    moreover have "1 < (2::nat) ^ (e + 2)" by (rule one_less_power) simp_all
    ultimately show ?thesis by linarith
  qed
  have split_at: "(a * m + r) div m = a \<and> (a * m + r) mod m = r" if "r < m" for a m r :: nat
    using that by simp
  have "?v div 2 ^ (e + 3) = q - 1" and "?v mod 2 ^ (e + 3) = 2 ^ (e + 2) + 1"
    using split_at [OF rem, of "q - 1"] by (simp_all only: v)
  then have "rne ?v (e + 3) = q"
    using assms(1) by (simp add: rne_def power_add)
  then have "enc 53 3 ?v = q + e * 2 ^ (53 - 1)" by (simp only: enc_def k Let_def)
  moreover have "enc 53 3 ?v \<le> enc 53 3 v" using assms(3) by (intro enc_mono) auto
  ultimately show ?thesis by simp
qed

text \<open>
  For a magnitude at least \<open>2 ^ - 52\<close> the rounded root of the rounded square is not smaller.
  The square loses at most half a unit in its last place, which is less than what the root needs to fall
  below the upper half interval; for a power of two both steps are exact.
\<close>

lemma root_above:
  assumes "T * T < n"
  shows "2 * T < sticky (isqrt n) (isqrt n * isqrt n = n)"
proof -
  have "T \<le> isqrt n" using assms by (intro isqrt_ge) simp
  with assms show ?thesis by (cases "T = isqrt n") (auto simp: sticky_def)
qed

lemma pow_double: "(2::nat) ^ (2 * e) = 2 ^ e * 2 ^ e"
  by (simp only: mult_2 power_add)

lemma square_enc:
  assumes "2 ^ 52 \<le> q" and "q < 2 ^ 53" and "512 \<le> e"
  shows "16 * (q * q * 2 ^ (2 * e)) \<le> dec 53 (enc 53 1074 (q * 2 ^ e * (q * 2 ^ e))) * 2 ^ 1078 + 16 * 2 ^ (2 * e + 52)"
proof -
  let ?v = "q * 2 ^ e * (q * 2 ^ e)"
  have v: "?v = q * q * 2 ^ (2 * e)" unfolding pow_double by (simp only: ac_simps)
  have q2: "2 ^ 104 \<le> q * q" "q * q < 2 ^ 106"
    using mult_mono [OF assms(1,1)] mult_strict_mono [OF assms(2,2)] by simp_all
  define k where "k = ilog2 ?v + 1 - (53 + 1074)"
  have lo: "2 * e + 104 \<le> ilog2 ?v" and hi: "ilog2 ?v < 2 * e + 106"
  proof -
    have "2 ^ (2 * e + 104) \<le> ?v"
      unfolding v power_add [of 2 "2 * e"] using q2(1) by simp
    then have "ilog2 (2 ^ (2 * e + 104)) \<le> ilog2 ?v" by (rule ilog2_mono)
    moreover have "ilog2 (2 ^ (2 * e + 104)) = 2 * e + 104" by (rule ilog2_unique) simp_all
    ultimately show "2 * e + 104 \<le> ilog2 ?v" by simp
    have "?v < 2 ^ 106 * 2 ^ (2 * e)" unfolding v using q2(2) by simp
    then have "?v < 2 ^ (2 * e + 106)" by (simp only: power_add mult.commute [of "2 ^ 106"])
    moreover have "0 < ?v" using assms(1) by simp
    ultimately show "ilog2 ?v < 2 * e + 106" by (rule ilog2_less)
  qed
  have k: "0 < k" "k + 1074 \<le> 2 * e + 53" using lo hi assms(3) by (simp_all add: k_def)
  have "dec 53 (enc 53 1074 ?v) = rne ?v (k + 1074) * 2 ^ k"
    using k_def k(1) by (rule dec_enc_round) simp
  then have "dec 53 (enc 53 1074 ?v) * 2 ^ 1074 = rne ?v (k + 1074) * 2 ^ (k + 1074)"
    by (simp only: power_add mult.assoc)
  moreover have "2 * ?v \<le> 2 * (rne ?v (k + 1074) * 2 ^ (k + 1074)) + 2 ^ (k + 1074)"
    by (rule rne_error)
  moreover have "(2::nat) ^ (k + 1074) \<le> 2 ^ (2 * e + 53)"
    using k(2) by (intro power_increasing) simp_all
  moreover have "(2::nat) ^ (2 * e + 53) = 2 * 2 ^ (2 * e + 52)" by (simp add: power_add)
  ultimately have "?v \<le> dec 53 (enc 53 1074 ?v) * 2 ^ 1074 + 2 ^ (2 * e + 52)"
    by linarith
  moreover have "(2::nat) ^ 1078 = 16 * 2 ^ 1074" by (simp flip: power_Suc)
  ultimately show ?thesis unfolding v by simp
qed

lemma sqrt_square_round:
  assumes "2 ^ 52 < q" and "q < 2 ^ 53" and "512 \<le> e"
    and n: "n = dec 53 (enc 53 1074 (q * 2 ^ e * (q * 2 ^ e))) * 2 ^ 1078"
  shows "q + e * 2 ^ 52 \<le> round_root n"
proof -
  let ?T = "2 ^ (e + 1) * (2 * q - 1)"
  have "?T * ?T < n"
  proof -
    define P :: nat where "P = 2 ^ (2 * e)"
    have "0 < P" by (simp add: P_def)
    have T: "?T * ?T = 4 * P * ((2 * q - 1) * (2 * q - 1))"
      by (simp add: P_def pow_double)
    obtain c where c: "q = 2 ^ 52 + Suc c" using assms(1) by (auto dest: less_imp_Suc_add)
    have "(2 * q - 1) * (2 * q - 1) + 4 * q = 4 * (q * q) + 1"
    proof -
      obtain d where "q = Suc d" using assms(1) by (cases q) auto
      then show ?thesis by (simp add: algebra_simps)
    qed
    then have "4 * ((2 * q - 1) * (2 * q - 1)) + 16 * 2 ^ 52 < 16 * (q * q)"
      using c by linarith
    then have "P * (4 * ((2 * q - 1) * (2 * q - 1)) + 16 * 2 ^ 52) < P * (16 * (q * q))"
      using \<open>0 < P\<close> by simp
    moreover have "16 * (q * q * P) \<le> n + 16 * (P * 2 ^ 52)"
      using square_enc [of q e] assms(1-3) unfolding n P_def power_add [of 2 "2 * e" 52] by simp
    ultimately show ?thesis unfolding T by (simp add: algebra_simps)
  qed
  then have "2 * ?T < sticky (isqrt n) (isqrt n * isqrt n = n)" by (rule root_above)
  moreover have "2 * ?T = 2 ^ (e + 2) * (2 * q - 1)" by simp
  ultimately show ?thesis
    unfolding round_root_def Let_def using assms(1,2) by (intro enc_round_up) simp_all
qed

lemma sqrt_square_power:
  assumes "512 \<le> e"
    and n: "n = dec 53 (enc 53 1074 (2 ^ 52 * 2 ^ e * (2 ^ 52 * 2 ^ e))) * 2 ^ 1078"
  shows "round_root n = 2 ^ 52 + e * 2 ^ 52"
proof -
  let ?k = "2 * e + 52 - 1074" and ?r = "2 ^ (e + 54) :: nat"
  have "(2::nat) ^ 52 * 2 ^ e * (2 ^ 52 * 2 ^ e) = 2 ^ (52 + e + (52 + e))" by (simp only: power_add)
  also have "52 + e + (52 + e) = 52 + (?k + 1074)" using assms(1) by simp
  also have "(2::nat) ^ (52 + (?k + 1074)) = 2 ^ 52 * 2 ^ (?k + 1074)" by (simp only: power_add)
  finally have sq: "(2::nat) ^ 52 * 2 ^ e * (2 ^ 52 * 2 ^ e) = 2 ^ 52 * 2 ^ (?k + 1074)" .
  have "enc 53 1074 (2 ^ 52 * 2 ^ (?k + 1074)) = 2 ^ 52 + ?k * 2 ^ (53 - 1)"
    by (rule enc_scaled) simp_all
  moreover have "dec 53 (2 ^ 52 + ?k * 2 ^ (53 - 1)) = 2 ^ 52 * 2 ^ ?k"
    by (rule dec_enc_scaled) simp_all
  ultimately have "n = 2 ^ 52 * 2 ^ ?k * 2 ^ 1078" unfolding n sq by (simp only:)
  also have "\<dots> = 2 ^ (52 + ?k + 1078)" by (simp only: power_add)
  also have "52 + ?k + 1078 = (e + 54) + (e + 54)" using assms(1) by simp
  also have "(2::nat) ^ (e + 54 + (e + 54)) = ?r * ?r" by (simp only: power_add)
  finally have nr: "n = ?r * ?r" .
  have "?r \<le> isqrt n" unfolding nr by (rule isqrt_ge) simp
  moreover have "isqrt n \<le> ?r"
    using isqrt_bounds [of n] unfolding nr by (meson linorder_not_less mult_strict_mono' zero_le leD less_imp_le_nat mult_less_le_imp_less)
  ultimately have "isqrt n = ?r" by simp
  then have "sticky (isqrt n) (isqrt n * isqrt n = n) = 2 ^ 52 * 2 ^ (e + 3)"
    unfolding nr by (simp add: sticky_def power_add)
  moreover have "enc 53 3 (2 ^ 52 * 2 ^ (e + 3)) = 2 ^ 52 + e * 2 ^ (53 - 1)"
    by (rule enc_scaled) simp_all
  ultimately show ?thesis by (simp add: round_root_def Let_def)
qed

text \<open>The magnitude of \<open>2 ^ - 52\<close>, and the decoding of magnitudes at or above it.\<close>

lemma EPSILON64_fields: "mag64 EPSILON64 = 4372995238176751616" "\<not> neg64 EPSILON64" "\<not> is_nan64 EPSILON64"
  by (simp_all add: EPSILON64_def mag64_def neg64_def is_nan64_def)

lemma sqrt64_finite:
  assumes "is_finite64 x" and "nonneg64 x"
  shows "mag64 (sqrt64 x) = (if mag64 x = 0 then 0 else root64 (mag64 x))"
  using assms by (auto simp: sqrt64_def finite64_cases nonneg64_def mk64_root)

lemma root64_le: "root64 m \<le> inf64"
  by (simp only: root64_def min.cobounded1)

lemma root64_mono: "m \<le> m' \<Longrightarrow> root64 m \<le> root64 m'"
proof -
  assume "m \<le> m'"
  then have "dec 53 m * 2 ^ 1078 \<le> dec 53 m' * 2 ^ 1078" by (intro mult_right_mono dec_mono) simp_all
  from enc_mono [OF sticky_root_mono [OF this], of 53 3] show ?thesis
    unfolding root64_def round_root_def Let_def by (intro min.mono) simp_all
qed

lemma sqrt64_nonneg: "nonneg64 x \<Longrightarrow> nonneg64 (sqrt64 x)"
  using root64_le [of "mag64 x"] by (auto simp: sqrt64_def nonneg64_def mk64_root is_nan64_def)

lemma sqrt64_mono:
  assumes "nonneg64 x" and "nonneg64 y" and "mag64 x \<le> mag64 y"
  shows "mag64 (sqrt64 x) \<le> mag64 (sqrt64 y)"
proof (cases "is_finite64 y")
  case True
  then have fx: "is_finite64 x" using assms(3) by (simp add: is_finite64_def)
  show ?thesis
    using assms(3) root64_mono [OF assms(3)]
    by (simp add: sqrt64_finite [OF True assms(2)] sqrt64_finite [OF fx assms(1)])
next
  case False
  with assms(2) have y: "mag64 y = inf64" by (auto simp: is_finite64_def nonneg64_def is_nan64_def)
  then have "sqrt64 y = y" using assms(2) by (auto simp: sqrt64_def nonneg64_def)
  moreover have "mag64 (sqrt64 x) \<le> inf64"
    using sqrt64_nonneg [OF assms(1)] by (auto simp: nonneg64_def is_nan64_def)
  ultimately show ?thesis using y by simp
qed

lemma sqrt_square_ge:
  assumes "4372995238176751616 \<le> m" and "n = dec 53 (enc 53 1074 (dec 53 m * dec 53 m)) * 2 ^ 1078"
  shows "m \<le> round_root n"
proof -
  have p: "0 < (53::nat)" by simp
  show ?thesis
  proof (cases rule: dec_cases [OF p, of m])
    case 1
    then show ?thesis using assms(1) by simp
  next
    case (2 e q)
    have e: "512 \<le> e"
    proof (rule ccontr)
      assume "\<not> 512 \<le> e"
      then have "e * 2 ^ (53 - 1) \<le> 511 * 2 ^ (53 - 1)" by (intro mult_right_mono) simp_all
      with 2 assms(1) show False by simp
    qed
    show ?thesis
    proof (cases "q = 2 ^ 52")
      case True
      then show ?thesis using sqrt_square_power [OF e, of n] assms(2) 2 by simp
    next
      case False
      then show ?thesis using sqrt_square_round [of q e n] e assms(2) 2 by simp
    qed
  qed
qed

lemma sqrt64_square:
  assumes "is_finite64 x" and "4372995238176751616 \<le> mag64 x"
  shows "mag64 x \<le> mag64 (sqrt64 (mul64 x x))"
proof -
  let ?w = "enc 53 1074 (dec 53 (mag64 x) * dec 53 (mag64 x))"
  have m: "mag64 x < inf64" using assms(1) by (simp add: is_finite64_def)
  note w = mul64_finite [OF assms(1,1)]
  have nn: "nonneg64 (mul64 x x)" using assms(1) by (rule square_nonneg)
  show ?thesis
  proof (cases "?w < inf64")
    case True
    then have fin: "is_finite64 (mul64 x x)" and mag: "mag64 (mul64 x x) = ?w"
      by (simp_all add: is_finite64_def w)
    have ge: "mag64 x \<le> root64 ?w"
      using sqrt_square_ge [OF assms(2) refl] m by (simp only: root64_def min.bounded_iff less_imp_le)
    moreover have "root64 0 = 0"
      by (simp add: root64_def round_root_def isqrt.simps sticky_def enc_0)
    ultimately show ?thesis
      using assms(2) by (cases "?w = 0") (auto simp: sqrt64_finite [OF fin nn] mag)
  next
    case False
    then have "mag64 (mul64 x x) = inf64" using w by simp
    then have "sqrt64 (mul64 x x) = mul64 x x" using nn by (auto simp: sqrt64_def nonneg64_def)
    with m \<open>mag64 (mul64 x x) = inf64\<close> show ?thesis by simp
  qed
qed

lemma norm64_bounds:
  assumes "\<forall>x \<in> set xs. is_finite64 x"
  shows "nonneg64 (norm64 xs)"
    and "\<not> le64 (norm64 xs) EPSILON64 \<Longrightarrow> x \<in> set xs \<Longrightarrow> mag64 x \<le> mag64 (norm64 xs)"
    and "\<not> le64 (norm64 xs) EPSILON64 \<Longrightarrow> 0 < mag64 (norm64 xs)"
proof -
  let ?ss = "map (\<lambda>x. mul64 x x) xs"
  have nn: "\<forall>s \<in> set ?ss. nonneg64 s" using assms by (simp add: square_nonneg)
  note sum = sum64_bounds [OF nn]
  show norm: "nonneg64 (norm64 xs)" unfolding norm64_def by (rule sqrt64_nonneg [OF sum(1)])
  have big: "4372995238176751616 < mag64 (norm64 xs)" if "\<not> le64 (norm64 xs) EPSILON64"
    using that norm by (auto simp: le64_def EPSILON64_fields nonneg64_def ord64_def split: if_splits)
  show "0 < mag64 (norm64 xs)" if "\<not> le64 (norm64 xs) EPSILON64"
    using big [OF that] by simp
  show "mag64 x \<le> mag64 (norm64 xs)" if "\<not> le64 (norm64 xs) EPSILON64" and x: "x \<in> set xs"
  proof (cases "4372995238176751616 \<le> mag64 x")
    case True
    then have "mag64 x \<le> mag64 (sqrt64 (mul64 x x))" using assms x by (intro sqrt64_square) auto
    also have "\<dots> \<le> mag64 (norm64 xs)"
      unfolding norm64_def using nn sum x by (intro sqrt64_mono) auto
    finally show ?thesis .
  next
    case False
    with big [OF that(1)] show ?thesis by simp
  qed
qed

section \<open>Quotients and products within one\<close>

lemma sticky_div_le:
  assumes "n \<le> d * c" and "0 < d"
  shows "sticky (n div d) (n mod d = 0) \<le> 2 * c"
proof -
  have n: "n = n div d * d + n mod d" by (simp only: div_mult_mod_eq)
  have "n div d \<le> c" using assms div_le_mono [OF assms(1), of d] by simp
  moreover have "n mod d = 0" if "n div d = c" using n assms(1) that by (simp add: mult.commute)
  ultimately show ?thesis by (cases "n div d = c") (auto simp: sticky_def)
qed

text \<open>A finite number divided by a non-negative one that is not smaller lies within one.\<close>

lemma div64_le_one:
  assumes "is_finite64 x" and "nonneg64 y" and "mag64 x \<le> mag64 y" and "0 < mag64 y"
  shows "mag64 (div64 x y) \<le> 4607182418800017408"
proof (cases "is_finite64 y")
  case True
  let ?n = "dec 53 (mag64 x) * 2 ^ 1076" and ?d = "dec 53 (mag64 y)"
  have "?n \<le> ?d * 2 ^ 1076" using assms(3) by (intro mult_right_mono dec_mono) simp_all
  then have "sticky (?n div ?d) (?n mod ?d = 0) \<le> 2 * 2 ^ 1076"
    using dec_pos [OF _ assms(4), of 53] by (intro sticky_div_le) simp_all
  also have "(2::nat) * 2 ^ 1076 = 2 ^ 52 * 2 ^ (1022 + 3)"
    by (simp only: power_add [symmetric] power_Suc [symmetric]) simp
  finally have "enc 53 3 (sticky (?n div ?d) (?n mod ?d = 0)) \<le> enc 53 3 (2 ^ 52 * 2 ^ (1022 + 3))"
    by (intro enc_mono) simp_all
  also have "\<dots> = 2 ^ 52 + 1022 * 2 ^ (53 - 1)" by (rule enc_scaled) simp_all
  finally have "min inf64 (enc 53 3 (sticky (?n div ?d) (?n mod ?d = 0))) \<le> 2 ^ 52 + 1022 * 2 ^ (53 - 1)"
    by (rule min.coboundedI2)
  then have "quotient64 (mag64 x) (mag64 y) \<le> 2 ^ 52 + 1022 * 2 ^ (53 - 1)"
    by (simp only: quotient64_def Let_def)
  then show ?thesis
    using assms True by (simp add: div64_def finite64_cases mk64_quotient)
next
  case False
  with assms(2) have "mag64 y = inf64" "\<not> is_nan64 y" by (auto simp: nonneg64_def is_finite64_def is_nan64_def)
  with assms(1) have "div64 x y = mk64 (neg64 x \<noteq> neg64 y) 0" by (simp add: div64_def finite64_cases)
  then show ?thesis by (simp add: mk64_fields)
qed

lemma mul64_le:
  assumes "mag64 x \<le> 4607182418800017408" and "is_finite64 w"
  shows "mag64 (mul64 x w) \<le> mag64 w"
proof -
  have fx: "is_finite64 x" using assms(1) by (simp add: is_finite64_def)
  have one_scale: "(2::nat) ^ 52 * 2 ^ 1022 = 2 ^ 1074"
    by (simp only: power_add [symmetric]) simp
  have "dec 53 (mag64 x) \<le> 2 ^ 52 * 2 ^ 1022"
    unfolding dec53_one [symmetric] using assms(1) by (intro dec_mono) simp_all
  then have "dec 53 (mag64 x) * dec 53 (mag64 w) \<le> dec 53 (mag64 w) * 2 ^ 1074"
    by (simp only: one_scale mult.commute [of "dec 53 (mag64 w)"] mult_right_mono zero_le)
  then have "enc 53 1074 (dec 53 (mag64 x) * dec 53 (mag64 w)) \<le> enc 53 1074 (dec 53 (mag64 w) * 2 ^ 1074)"
    by (intro enc_mono) simp_all
  also have "\<dots> = mag64 w" by (rule enc_dec) simp
  finally show ?thesis by (simp add: mul64_finite [OF fx assms(2)])
qed

section \<open>Sums of bounded numbers\<close>

text \<open>The sum of a number of at most \<open>k\<close> units of \<open>2 ^ 128\<close> and one of at most one unit has at most \<open>k + 1\<close>.\<close>

definition units :: "nat \<Rightarrow> nat" where
  "units k = k * (2 ^ 128 * 2 ^ 1074)"

lemma units_exact:
  assumes "k < 2 ^ 53"
  shows "dec 53 (enc 53 0 (units k)) = units k" and "enc 53 0 (units k) < inf64"
proof -
  have u: "units k = k * 2 ^ 1202" by (simp add: units_def flip: power_add)
  show "dec 53 (enc 53 0 (units k)) = units k"
    unfolding u using assms by (intro dec_enc_exact) simp_all
  have "k * 2 ^ 1202 \<le> 2 ^ 53 * 2 ^ 1202" using assms by (intro mult_right_mono) simp_all
  also have "(2::nat) ^ 53 * 2 ^ 1202 = 2 ^ 52 * 2 ^ (1203 + 0)" by (simp only: power_add [symmetric]) simp
  finally have "enc 53 0 (units k) \<le> enc 53 0 (2 ^ 52 * 2 ^ (1203 + 0))"
    unfolding u by (intro enc_mono) simp_all
  also have "\<dots> = 2 ^ 52 + 1203 * 2 ^ (53 - 1)" by (rule enc_scaled) simp_all
  finally show "enc 53 0 (units k) < inf64" by simp
qed

lemma add64_units:
  assumes "nonneg64 a" and "nonneg64 b" and "dec 53 (mag64 a) \<le> units k"
    and "dec 53 (mag64 b) \<le> units 1" and "Suc k < 2 ^ 53" and "is_finite64 a" and "is_finite64 b"
  shows "dec 53 (mag64 (add64 a b)) \<le> units (Suc k)" and "is_finite64 (add64 a b)"
proof -
  have v: "val64 a + val64 b = int (dec 53 (mag64 a) + dec 53 (mag64 b))"
    using val64_nonneg assms(1,2) by simp
  have "dec 53 (mag64 a) + dec 53 (mag64 b) \<le> units (Suc k)"
    using assms(3,4) by (simp add: units_def)
  then have le: "enc 53 0 (dec 53 (mag64 a) + dec 53 (mag64 b)) \<le> enc 53 0 (units (Suc k))"
    by (intro enc_mono) simp_all
  have mag: "mag64 (add64 a b) = min inf64 (enc 53 0 (dec 53 (mag64 a) + dec 53 (mag64 b)))"
    using assms(6,7) unfolding add64_def v by (simp add: finite64_cases Let_def mk64_min nat_int_add)
  show "is_finite64 (add64 a b)"
    using le units_exact(2) [OF assms(5)] by (simp add: is_finite64_def mag)
  have "mag64 (add64 a b) \<le> enc 53 0 (units (Suc k))" using le by (simp add: mag)
  then have "dec 53 (mag64 (add64 a b)) \<le> dec 53 (enc 53 0 (units (Suc k)))" by (intro dec_mono) simp_all
  then show "dec 53 (mag64 (add64 a b)) \<le> units (Suc k)" by (simp only: units_exact(1) [OF assms(5)])
qed

lemma f64_from_units:
  assumes "is_finite32 w"
  shows "dec 53 (mag64 (f64_from w)) \<le> units 1"
proof -
  have m: "mag32 w < inf32" using assms by (simp add: is_finite32_def)
  obtain a j where aj: "a < 2 ^ 53" "dec 24 (mag32 w) * 2 ^ 925 = a * 2 ^ j"
    using dec24_less [OF m] by blast
  have "dec 53 (mag64 (f64_from w)) = dec 24 (mag32 w) * 2 ^ 925"
    unfolding f64_from_finite(1) [OF assms] aj(2) by (rule dec_enc_exact [OF aj(1)]) simp
  also have "dec 24 (mag32 w) \<le> dec 24 inf32" using m by (intro dec_mono) simp_all
  also have "dec 24 inf32 = 2 ^ 23 * 2 ^ 254" by (simp add: dec_def)
  also have "(2::nat) ^ 23 * 2 ^ 254 * 2 ^ 925 = units 1"
    unfolding units_def mult_1_left by (simp only: power_add [symmetric]) simp
  finally show ?thesis by simp
qed

lemma f64_from_nonneg: "is_finite32 w \<Longrightarrow> \<not> neg32 w \<Longrightarrow> nonneg64 (f64_from w)"
  using f64_from_finite [of w] by (simp add: nonneg64_def finite64_cases)

text \<open>Narrowing keeps a number within one.\<close>

lemma f32_from_le_one:
  assumes "mag64 x \<le> 4607182418800017408"
  shows "mag32 (f32_from x) \<le> 1065353216"
proof -
  have "dec 53 (mag64 x) \<le> 2 ^ 52 * 2 ^ 1022"
    unfolding dec53_one [symmetric] using assms by (intro dec_mono) simp_all
  then have "enc 24 925 (dec 53 (mag64 x)) \<le> enc 24 925 (2 ^ 52 * 2 ^ 1022)"
    by (intro enc_mono) simp_all
  then have le: "enc 24 925 (dec 53 (mag64 x)) \<le> 1065353216" by (simp only: enc24_one)
  have "f32_from x = mk32 (neg64 x) (enc 24 925 (dec 53 (mag64 x)))"
    using assms le by (simp add: f32_from_def is_nan64_def min_def)
  then show ?thesis using le by (simp add: mk32_fields)
qed

section \<open>Exact cases\<close>

lemma mk64_collapse: "mk64 (neg64 x) (mag64 x) = x"
proof -
  have "unat x < 2 ^ 64" using unsigned_less [where 'a = nat, of x] by simp
  then have "mag64 x + (if neg64 x then 2 ^ 63 else 0) = unat x"
    by (auto simp: mag64_def neg64_def mod_if)
  then show ?thesis by (simp add: mk64_def)
qed

lemma one64_finite: "is_finite64 one64" "nonneg64 one64"
  by (simp_all add: is_finite64_def nonneg64_def one64_fields)

lemma dec53_one': "dec 53 (mag64 one64) = 2 ^ 1074"
proof -
  have "(2::nat) ^ 52 * 2 ^ 1022 = 2 ^ 1074" by (simp only: power_add [symmetric]) simp
  then show ?thesis by (simp only: one64_fields dec53_one)
qed

lemma mul64_one:
  assumes "is_finite64 x"
  shows "mul64 one64 x = x"
proof -
  have "enc 53 1074 (dec 53 (mag64 one64) * dec 53 (mag64 x)) = mag64 x"
    unfolding dec53_one' using enc_dec [of 53 1074 "mag64 x"] by (simp only: mult.commute)
  moreover have "mag64 x < inf64" using assms by (simp add: is_finite64_def)
  ultimately have "mul64 one64 x = mk64 (neg64 x) (mag64 x)"
    unfolding mul64_def using assms by (simp add: finite64_cases one64_finite one64_fields(1,5))
  then show ?thesis by (simp only: mk64_collapse)
qed

lemma div64_self:
  assumes "is_finite64 x" and "0 < mag64 x"
  shows "div64 x x = one64"
proof -
  have "0 < dec 53 (mag64 x)" using assms(2) by (intro dec_pos) simp_all
  then have "sticky (dec 53 (mag64 x) * 2 ^ 1076 div dec 53 (mag64 x)) (dec 53 (mag64 x) * 2 ^ 1076 mod dec 53 (mag64 x) = 0)
      = 2 * 2 ^ 1076"
    by (simp only: sticky_def nonzero_mult_div_cancel_left mod_mult_self1_is_0 neq0_conv) simp
  also have "(2::nat) * 2 ^ 1076 = 2 ^ 52 * 2 ^ (1022 + 3)"
    by (simp only: power_add [symmetric] power_Suc [symmetric]) simp
  finally have "quotient64 (mag64 x) (mag64 x) = min inf64 (enc 53 3 (2 ^ 52 * 2 ^ (1022 + 3)))"
    by (simp only: quotient64_def Let_def)
  also have "enc 53 3 (2 ^ 52 * 2 ^ (1022 + 3)) = 2 ^ 52 + 1022 * 2 ^ (53 - 1)" by (rule enc_scaled) simp_all
  finally have "quotient64 (mag64 x) (mag64 x) = 4607182418800017408" by simp
  then have "div64 x x = mk64 False 4607182418800017408"
    unfolding div64_def using assms by (simp add: finite64_cases)
  then show ?thesis by (simp add: mk64_def one64_def)
qed

lemma add64_zero:
  assumes "is_finite64 x" and "nonneg64 x" and "0 < mag64 x"
  shows "add64 zero64 x = x"
proof -
  have v: "val64 zero64 + val64 x = int (dec 53 (mag64 x))"
    using val64_nonneg [OF assms(2)] by (simp add: val64_def zero64_def one64_fields)
  have "mag64 x < inf64" using assms(1) by (simp add: is_finite64_def)
  moreover have "\<not> neg64 x" using assms(2,3) by (auto simp: nonneg64_def)
  moreover have "enc 53 0 (dec 53 (mag64 x)) = mag64 x" using enc_dec [of 53 0 "mag64 x"] by simp
  moreover have "is_finite64 zero64" by (simp add: zero64_def is_finite64_def one64_fields)
  ultimately have "add64 zero64 x = mk64 (neg64 x) (mag64 x)"
    unfolding add64_def v using assms(1) by (simp add: finite64_cases Let_def zero64_def one64_fields)
  then show ?thesis by (simp only: mk64_collapse)
qed

lemma norm64_one: "norm64 [one64] = one64"
proof -
  have s: "sum64 (map (\<lambda>x. mul64 x x) [one64]) = one64"
    by (simp add: sum64_def mul64_one add64_zero one64_finite one64_fields)
  have e: "512 \<le> (1022::nat)" by simp
  have "enc 53 1074 (2 ^ 52 * 2 ^ 1022 * (2 ^ 52 * 2 ^ 1022)) = mag64 one64"
  proof -
    have "(2::nat) ^ 52 * 2 ^ 1022 = 2 ^ 1074" by (simp only: power_add [symmetric]) simp
    then show ?thesis using enc_dec [of 53 1074 "mag64 one64"] by (simp only: dec53_one')
  qed
  then have "round_root (dec 53 (mag64 one64) * 2 ^ 1078) = 2 ^ 52 + 1022 * 2 ^ 52"
    using sqrt_square_power [OF e refl] by (simp only:)
  then have "root64 (mag64 one64) = 4607182418800017408" unfolding root64_def by simp
  then have "sqrt64 one64 = mk64 False 4607182418800017408"
    using one64_fields(1,2,5) by (simp add: sqrt64_def)
  then show ?thesis unfolding norm64_def s by (simp add: mk64_def one64_def)
qed

lemma f64_from_one: "f64_from one32 = one64"
proof -
  have "enc 53 0 (dec 24 1065353216 * 2 ^ 925) = 4607182418800017408" by (simp only: dec24_one enc53_one)
  then show ?thesis
    by (simp add: f64_from_def one32_def is_nan32_def mag32_def neg32_def mk64_def one64_def)
qed

lemma f32_from_one: "f32_from one64 = one32"
proof -
  have "enc 24 925 (dec 53 4607182418800017408) = 1065353216" by (simp only: dec53_one enc24_one)
  then show ?thesis
    by (simp add: f32_from_def one64_fields mk32_def one32_def)
qed

lemma one_not_small: "\<not> le64 one64 EPSILON64"
  by (simp add: le64_def EPSILON64_fields ord64_def one64_fields)

end
