(* ===== verification/Query_Embedding.thy ===== *)
theory Query_Embedding
  imports Query Float_Arith Indexing Auth Database
begin

text \<open>
  Embedding of query inputs (\<^verbatim>\<open>src/query_embedding.rs\<close>), the embedding-space configuration
  (\<^verbatim>\<open>crates/interfaces-compat/src/lib.rs\<close>) and the operator's probe
  (\<^verbatim>\<open>src/bin/semantic_query_probe.rs\<close>). The HTTP client is the parameter \<open>provider\<close>: what building it
  and sending one request give, and \<^verbatim>\<open>Url::host_str\<close>. A reply is its status, its body as text and
  its body decoded as JSON. A \<^verbatim>\<open>usize\<close> is a natural number.
\<close>

section \<open>The embedding space\<close>

record embedding_space =
  es_provider :: rstr
  es_model :: rstr
  es_model_version :: rstr
  es_dimensions :: u32
  es_normalization :: vector_normalization

definition EmbeddingSpaceConfig_validate :: "embedding_space \<Rightarrow> rstr + unit" where
  "EmbeddingSpaceConfig_validate c =
     (if trim (es_provider c) = [] \<or> byte_len (es_provider c) > 128 then
        Inl (lit ''embedding provider must contain between 1 and 128 bytes'')
      else if trim (es_model c) = [] \<or> byte_len (es_model c) > 256 then
        Inl (lit ''embedding model must contain between 1 and 256 bytes'')
      else if trim (es_model_version c) = [] \<or> byte_len (es_model_version c) > 256 then
        Inl (lit ''embedding model_version must contain between 1 and 256 bytes'')
      else if \<not> (1 \<le> es_dimensions c \<and> es_dimensions c \<le> 32768) then
        Inl (lit ''embedding dimensions must be between 1 and 32768'')
      else if es_normalization c = NormNone then
        Inl (lit ''query embedding spaces must use l2 or unit_length normalization'')
      else Inr ())"

text \<open>\<^verbatim>\<open>raw_deserialize\<close> stands for the derived deserializer of \<^verbatim>\<open>RawEmbeddingSpaceConfig\<close>.\<close>

definition EmbeddingSpaceConfig_deserialize ::
  "('d \<Rightarrow> rstr + embedding_space) \<Rightarrow> 'd \<Rightarrow> rstr + embedding_space" where
  "EmbeddingSpaceConfig_deserialize raw_deserialize d =
     bindr (raw_deserialize d) (\<lambda>raw.
     let config = \<lparr>es_provider = es_provider raw, es_model = es_model raw,
                   es_model_version = es_model_version raw, es_dimensions = es_dimensions raw,
                   es_normalization = es_normalization raw\<rparr> in
     bindr (EmbeddingSpaceConfig_validate config) (\<lambda>_. Inr config))"

section \<open>Types of the service\<close>

record query_embedding_error =
  qx_code :: string
  qx_message :: rstr
  qx_retryable :: bool

record provider_request =
  rq_model :: rstr
  rq_input :: "rstr list"
  rq_dimensions :: nat
  rq_encoding_format :: rstr

record provider_embedding =
  pe_index :: nat
  pe_embedding :: "f32 list"

record provider_response =
  pr_data :: "provider_embedding list"
  pr_model :: "rstr option"

record embedding_service =
  sv_endpoint :: url
  sv_api_key :: "rstr option"
  sv_model :: rstr
  sv_dimensions :: nat

datatype exchange =
    Send_Failed rstr (send_timeout: bool) (send_connect: bool)
  | Replied (reply_status: nat) (reply_text: "rstr option") (reply_json: "rstr + provider_response")

record provider =
  host_str :: "url \<Rightarrow> rstr option"
  build_client :: "rstr + unit"
  post_json :: "url \<Rightarrow> rstr option \<Rightarrow> provider_request \<Rightarrow> exchange"

definition MAX_PROVIDER_ERROR_CHARS :: nat where "MAX_PROVIDER_ERROR_CHARS = 500"

definition QueryEmbeddingError_new :: "string \<Rightarrow> rstr \<Rightarrow> bool \<Rightarrow> query_embedding_error" where
  "QueryEmbeddingError_new code message retryable =
     \<lparr>qx_code = code, qx_message = message, qx_retryable = retryable\<rparr>"

definition is_success :: "nat \<Rightarrow> bool" where "is_success status \<longleftrightarrow> 200 \<le> status \<and> status < 300"
definition is_server_error :: "nat \<Rightarrow> bool" where "is_server_error status \<longleftrightarrow> 500 \<le> status \<and> status < 600"

section \<open>Configuration\<close>

definition nonempty_env :: "environment \<Rightarrow> string \<Rightarrow> rstr option" where
  "nonempty_env env name =
     (case env name of
        None \<Rightarrow> None
      | Some v \<Rightarrow> if trim v = [] then None else Some (trim v))"

definition validate_endpoint :: "provider \<Rightarrow> url \<Rightarrow> rstr \<Rightarrow> query_embedding_error + unit" where
  "validate_endpoint P endpoint app_env =
     (if url_username endpoint \<noteq> [] \<or> url_password endpoint \<noteq> None \<or> url_query endpoint \<noteq> None
         \<or> url_fragment endpoint \<noteq> None then
        Inl (QueryEmbeddingError_new ''invalid_embedding_endpoint''
          (lit ''embedding endpoint must not contain credentials, a query string, or a fragment'') False)
      else
        let secure = url_scheme endpoint = lit ''https'';
            development_loopback = app_env \<noteq> lit ''production'' \<and> url_scheme endpoint = lit ''http'' \<and>
              host_str P endpoint \<in> set (map (Some \<circ> lit) [''localhost'', ''127.0.0.1'', ''::1''])
        in if \<not> secure \<and> \<not> development_loopback then
             Inl (QueryEmbeddingError_new ''insecure_embedding_endpoint''
               (lit ''embedding endpoint must use HTTPS; development may use HTTP loopback only'') False)
           else Inr ())"

definition QueryEmbeddingService_from_env ::
  "url_crate \<Rightarrow> provider \<Rightarrow> environment \<Rightarrow> embedding_space \<Rightarrow> rstr
    \<Rightarrow> query_embedding_error + embedding_service option" where
  "QueryEmbeddingService_from_env U P env embedding_space app_env =
     (case nonempty_env env ''EAL_EMBEDDING_ENDPOINT'' of
        None \<Rightarrow> Inr None
      | Some endpoint_value \<Rightarrow>
          bindr (map_err (\<lambda>error. QueryEmbeddingError_new ''invalid_embedding_endpoint''
            (lit ''EAL_EMBEDDING_ENDPOINT is invalid: '' @ error) False) (parse_url U endpoint_value)) (\<lambda>endpoint.
          bindr (validate_endpoint P endpoint app_env) (\<lambda>_.
          bindr (map_err (\<lambda>error. QueryEmbeddingError_new ''embedding_client_build_failed''
            (lit ''could not build embedding HTTP client: '' @ error) False) (build_client P)) (\<lambda>_.
          Inr (Some \<lparr>sv_endpoint = endpoint, sv_api_key = nonempty_env env ''EAL_EMBEDDING_API_KEY'',
                     sv_model = es_model embedding_space,
                     sv_dimensions = unat (es_dimensions embedding_space)\<rparr>)))))"

section \<open>Checking a reply\<close>

definition validate_provider_model :: "unicode \<Rightarrow> rstr option \<Rightarrow> rstr \<Rightarrow> query_embedding_error + unit" where
  "validate_provider_model T returned_model configured_model =
     (case returned_model of
        Some m \<Rightarrow>
          if m \<noteq> configured_model then
            Inl (QueryEmbeddingError_new ''embedding_model_mismatch''
              (lit ''embedding provider returned model '' @ debug_str T m @ lit ''; expected '' @
               debug_str T configured_model) False)
          else Inr ()
      | None \<Rightarrow> Inr ())"

definition validate_vector :: "f32 list \<Rightarrow> nat \<Rightarrow> query_embedding_error + f32 list" where
  "validate_vector vector expected_dimensions =
     (if length vector \<noteq> expected_dimensions then
        Inl (QueryEmbeddingError_new ''embedding_dimension_mismatch''
          (lit ''embedding provider returned '' @ show_nat (length vector) @ lit '' dimensions; expected '' @
           show_nat expected_dimensions) False)
      else if list_ex (\<lambda>x. \<not> is_finite32 x) vector then
        Inl (QueryEmbeddingError_new ''invalid_embedding_values''
          (lit ''embedding provider returned non-finite values'') False)
      else if le64 (norm64 (map f64_from vector)) EPSILON64 then
        Inl (QueryEmbeddingError_new ''zero_embedding_vector''
          (lit ''embedding provider returned a zero vector'') False)
      else Inr vector)"

text \<open>
  One iteration of the aggregation: the normalised vector, scaled by the weight, is added to the
  aggregate component by component. The index stays in range because the lengths are equal.
\<close>

definition centroid_step ::
  "nat \<Rightarrow> embedding_input \<times> f32 list \<Rightarrow> f64 list \<times> f64 \<Rightarrow> query_embedding_error + f64 list \<times> f64" where
  "centroid_step dimensions = (\<lambda>(input, vector) (aggregate, total_weight).
     if length vector \<noteq> dimensions then
       Inl (QueryEmbeddingError_new ''embedding_dimension_mismatch''
         (lit ''embedding vectors did not share one dimension'') False)
     else let magnitude = norm64 (map f64_from vector) in
       if le64 magnitude EPSILON64 then
         Inl (QueryEmbeddingError_new ''zero_embedding_vector''
           (lit ''embedding provider returned a zero vector'') False)
       else let weight = f64_from (in_weight input) in
         Inr (map2 (\<lambda>a v. add64 a (mul64 (div64 (f64_from v) magnitude) weight)) aggregate vector,
              add64 total_weight weight))"

definition weighted_centroid ::
  "embedding_input list \<Rightarrow> f32 list list \<Rightarrow> nat \<Rightarrow> query_embedding_error + f32 list" where
  "weighted_centroid inputs vectors dimensions =
     (if length inputs \<noteq> length vectors \<or> dimensions = 0 then
        Inl (QueryEmbeddingError_new ''invalid_embedding_aggregation''
          (lit ''embedding inputs and vectors must have matching non-zero dimensions'') False)
      else
        bindr (fold_res (centroid_step dimensions) (zip inputs vectors) (replicate dimensions zero64, zero64))
          (\<lambda>(aggregate, total_weight).
        if le64 total_weight EPSILON64 then
          Inl (QueryEmbeddingError_new ''invalid_embedding_weight''
            (lit ''query embedding weights must have a positive sum'') False)
        else let aggregate = map (\<lambda>v. div64 v total_weight) aggregate; magnitude = norm64 aggregate in
          if le64 magnitude EPSILON64 then
            Inl (QueryEmbeddingError_new ''zero_embedding_centroid''
              (lit ''weighted query embedding collapsed to a zero vector'') False)
          else Inr (map (\<lambda>v. f32_from (div64 v magnitude)) aggregate)))"

definition provider_error_code :: "nat \<Rightarrow> string" where
  "provider_error_code status =
     (if status = 401 \<or> status = 403 then ''embedding_provider_auth_failed''
      else if status = 429 then ''embedding_provider_throttled''
      else if is_server_error status then ''embedding_provider_unavailable''
      else ''embedding_provider_rejected_request'')"

definition truncate_text :: "rstr \<Rightarrow> nat \<Rightarrow> rstr" where
  "truncate_text v max_characters =
     take max_characters v @ (if drop max_characters v \<noteq> [] then [8230] else [])"

section \<open>Embedding the inputs\<close>

definition check_item :: "nat \<Rightarrow> nat \<times> provider_embedding \<Rightarrow> query_embedding_error + f32 list" where
  "check_item dimensions = (\<lambda>(expected_index, item).
     if pe_index item \<noteq> expected_index then
       Inl (QueryEmbeddingError_new ''embedding_index_mismatch''
         (lit ''embedding provider returned non-contiguous indices'') False)
     else validate_vector (pe_embedding item) dimensions)"

definition read_reply ::
  "unicode \<Rightarrow> embedding_service \<Rightarrow> embedding_input list \<Rightarrow> provider_response
    \<Rightarrow> query_embedding_error + f32 list" where
  "read_reply T self inputs provider_response =
     bindr (validate_provider_model T (pr_model provider_response) (sv_model self)) (\<lambda>_.
     let data = sort_key pe_index (pr_data provider_response) in
     if length data \<noteq> length inputs then
       Inl (QueryEmbeddingError_new ''embedding_count_mismatch''
         (lit ''embedding provider returned '' @ show_nat (length data) @ lit '' vectors for '' @
          show_nat (length inputs) @ lit '' inputs'') False)
     else
       bindr (traverse (check_item (sv_dimensions self)) (enumerate 0 data)) (\<lambda>vectors.
       weighted_centroid inputs vectors (sv_dimensions self)))"

definition payload_of :: "embedding_service \<Rightarrow> embedding_input list \<Rightarrow> provider_request" where
  "payload_of self inputs =
     \<lparr>rq_model = sv_model self, rq_input = map in_text inputs, rq_dimensions = sv_dimensions self,
      rq_encoding_format = lit ''float''\<rparr>"

definition embed_inputs ::
  "unicode \<Rightarrow> query_contract \<Rightarrow> provider \<Rightarrow> embedding_service \<Rightarrow> embedding_input list
    \<Rightarrow> query_embedding_error + f32 list" where
  "embed_inputs T Q P self inputs =
     (if inputs = [] then
        Inl (QueryEmbeddingError_new ''empty_embedding_inputs''
          (lit ''at least one query embedding input is required'') False)
      else
        bindr (traverse (\<lambda>input. map_err (\<lambda>error.
          QueryEmbeddingError_new (qe_code error) (qe_message error) False) (validate_input Q input)) inputs) (\<lambda>_.
        case post_json P (sv_endpoint self) (sv_api_key self) (payload_of self inputs) of
          Send_Failed error timeout connect \<Rightarrow>
            Inl (QueryEmbeddingError_new ''embedding_provider_unreachable''
              (lit ''embedding provider request failed: '' @ error) (timeout \<or> connect))
        | Replied status body_text body_json \<Rightarrow>
            if \<not> is_success status then
              let message = (case body_text of None \<Rightarrow> [] | Some t \<Rightarrow> t) in
              Inl (QueryEmbeddingError_new (provider_error_code status)
                (lit ''embedding provider returned HTTP '' @ show_nat status @ lit '': '' @
                 truncate_text message MAX_PROVIDER_ERROR_CHARS)
                (status = 429 \<or> is_server_error status))
            else
              bindr (map_err (\<lambda>error. QueryEmbeddingError_new ''invalid_embedding_provider_response''
                (lit ''embedding provider response was invalid JSON: '' @ error) False) body_json) (\<lambda>r.
              read_reply T self inputs r)))"

section \<open>The operator's probe\<close>

datatype probe_error =
    Missing_Variable rstr
  | Bad_Space rstr
  | Bad_Query query_error
  | Bad_Service query_embedding_error

record input_report =
  ir_kind :: embedding_input_kind
  ir_ordinal :: u16
  ir_characters :: nat
  ir_weight :: f32

record probe_report =
  pb_query :: rstr
  pb_keywords :: "rstr list"
  pb_entities :: "rstr list"
  pb_inputs :: "input_report list"
  pb_dimensions :: nat
  pb_l2_norm :: f64
  pb_values_exposed :: bool

definition probe_required_env :: "environment \<Rightarrow> string \<Rightarrow> probe_error + rstr" where
  "probe_required_env env name =
     (case env name of
        None \<Rightarrow> Inl (Missing_Variable (lit name @ lit '' is required''))
      | Some v \<Rightarrow> if trim v = [] then Inl (Missing_Variable (lit name @ lit '' is required'')) else Inr (trim v))"

definition semantic_query_probe ::
  "unicode \<Rightarrow> query_contract \<Rightarrow> url_crate \<Rightarrow> provider \<Rightarrow> (rstr \<Rightarrow> rstr + embedding_space) \<Rightarrow> environment
    \<Rightarrow> probe_error + probe_report" where
  "semantic_query_probe T Q U P raw_deserialize env =
     bindr (probe_required_env env ''EAL_QUERY_TEXT'') (\<lambda>query.
     bindr (probe_required_env env ''EAL_EMBEDDING_SPACE_JSON'') (\<lambda>embedding_space_json.
     bindr (map_err Bad_Space (EmbeddingSpaceConfig_deserialize raw_deserialize embedding_space_json)) (\<lambda>embedding_space.
     let app_env = (case env ''APP_ENV'' of None \<Rightarrow> lit ''development'' | Some v \<Rightarrow> v) in
     bindr (map_err Bad_Query (analyze_query T Q query)) (\<lambda>views.
     bindr (map_err Bad_Service (QueryEmbeddingService_from_env U P env embedding_space app_env)) (\<lambda>opt.
     bindr (ok_or (Missing_Variable (lit ''EAL_EMBEDDING_ENDPOINT is required for semantic_query_probe'')) opt) (\<lambda>service.
     bindr (map_err Bad_Service (embed_inputs T Q P service (embedding_inputs views))) (\<lambda>vector.
     Inr \<lparr>pb_query = query_text views, pb_keywords = keywords_of views, pb_entities = entities_of views,
          pb_inputs = map (\<lambda>i. \<lparr>ir_kind = in_kind i, ir_ordinal = in_ordinal i,
            ir_characters = length (in_text i), ir_weight = in_weight i\<rparr>) (embedding_inputs views),
          pb_dimensions = length vector, pb_l2_norm = norm64 (map f64_from vector),
          pb_values_exposed = False\<rparr>)))))))"

section \<open>The centroid stays within the unit box\<close>

definition weight_ok :: "f32 \<Rightarrow> bool" where
  "weight_ok w \<longleftrightarrow> is_finite32 w \<and> \<not> neg32 w"

text \<open>After \<open>k\<close> inputs every component is bounded by the total weight, which has not overflowed.\<close>

definition centroid_inv :: "nat \<Rightarrow> nat \<Rightarrow> f64 list \<times> f64 \<Rightarrow> bool" where
  "centroid_inv dimensions k = (\<lambda>(aggregate, total).
     length aggregate = dimensions \<and> nonneg64 total \<and> is_finite64 total \<and>
     dec 53 (mag64 total) \<le> units k \<and> (\<forall>a \<in> set aggregate. mag64 a \<le> mag64 total))"

lemma centroid_step_inv:
  assumes "centroid_step dimensions (input, vector) st = Inr st'" and "centroid_inv dimensions k st"
    and "weight_ok (in_weight input)" and "list_all is_finite32 vector" and "Suc k < 2 ^ 53"
  shows "centroid_inv dimensions (Suc k) st'"
proof -
  obtain aggregate total where st: "st = (aggregate, total)" by (cases st)
  let ?m = "norm64 (map f64_from vector)" and ?w = "f64_from (in_weight input)"
  have len: "length vector = dimensions" and big: "\<not> le64 ?m EPSILON64"
    and st': "st' = (map2 (\<lambda>a v. add64 a (mul64 (div64 (f64_from v) ?m) ?w)) aggregate vector, add64 total ?w)"
    using assms(1) by (auto simp: centroid_step_def st Let_def split: if_splits)
  have inv: "length aggregate = dimensions" "nonneg64 total" "is_finite64 total"
      "dec 53 (mag64 total) \<le> units k" "\<forall>a \<in> set aggregate. mag64 a \<le> mag64 total"
    using assms(2) by (auto simp: centroid_inv_def st)
  have w: "nonneg64 ?w" "is_finite64 ?w" "dec 53 (mag64 ?w) \<le> units 1"
    using assms(3) f64_from_nonneg f64_from_finite(3) f64_from_units by (auto simp: weight_ok_def)
  have fin: "\<forall>x \<in> set (map f64_from vector). is_finite64 x"
    using assms(4) f64_from_finite(3) by (auto simp: list_all_iff)
  note norm = norm64_bounds [OF fin]
  have "mag64 (add64 a (mul64 (div64 (f64_from v) ?m) ?w)) \<le> mag64 (add64 total ?w)"
    if "a \<in> set aggregate" and "v \<in> set vector" for a v
  proof -
    have v: "f64_from v \<in> set (map f64_from vector)" using that(2) by simp
    have "mag64 (div64 (f64_from v) ?m) \<le> 4607182418800017408"
      using fin v norm big by (intro div64_le_one) auto
    then have "mag64 (mul64 (div64 (f64_from v) ?m) ?w) \<le> mag64 ?w"
      using w(2) by (rule mul64_le)
    then show ?thesis using inv w that(1) by (intro add64_bound) auto
  qed
  then have "\<forall>a \<in> set (fst st'). mag64 a \<le> mag64 (add64 total ?w)"
    unfolding st' by (auto dest: set_zip_leftD set_zip_rightD)
  moreover have "nonneg64 (add64 total ?w)" using inv(2) w(1) by (rule add64_nonneg)
  moreover note add64_units [OF inv(2) w(1) inv(4) w(3) assms(5) inv(3) w(2)]
  ultimately show ?thesis
    using inv(1) len by (simp add: centroid_inv_def st')
qed

lemma centroid_fold_inv:
  assumes "fold_res (centroid_step dimensions) ps st = Inr st'" and "centroid_inv dimensions k st"
    and "\<forall>(input, vector) \<in> set ps. weight_ok (in_weight input) \<and> list_all is_finite32 vector"
    and "k + length ps < 2 ^ 53"
  shows "centroid_inv dimensions (k + length ps) st'"
  using assms
proof (induction ps arbitrary: k st)
  case (Cons p ps)
  obtain input vector where p: "p = (input, vector)" by (cases p)
  from Cons.prems(1) obtain st1 where s: "centroid_step dimensions (input, vector) st = Inr st1"
      and f: "fold_res (centroid_step dimensions) ps st1 = Inr st'"
    by (auto simp: p)
  have "centroid_inv dimensions (Suc k) st1"
    using Cons.prems(2-4) by (intro centroid_step_inv [OF s]) (auto simp: p)
  from Cons.IH [OF f this] Cons.prems(3,4) show ?case by simp
qed simp

lemma weighted_centroid_bounded:
  assumes "weighted_centroid inputs vectors dimensions = Inr r"
    and weights: "\<forall>i \<in> set inputs. weight_ok (in_weight i)"
    and vectors: "\<forall>v \<in> set vectors. list_all is_finite32 v" and few: "length inputs < 2 ^ 53"
  shows "length r = dimensions" and "x \<in> set r \<Longrightarrow> mag32 x \<le> mag32 one32"
proof -
  from assms(1) obtain agg total where
      f: "fold_res (centroid_step dimensions) (zip inputs vectors) (replicate dimensions zero64, zero64) = Inr (agg, total)"
      and len: "length inputs = length vectors"
      and tot: "\<not> le64 total EPSILON64"
      and mag: "\<not> le64 (norm64 (map (\<lambda>v. div64 v total) agg)) EPSILON64"
      and r: "r = map (\<lambda>v. f32_from (div64 v (norm64 (map (\<lambda>v. div64 v total) agg)))) (map (\<lambda>v. div64 v total) agg)"
    by (auto simp: weighted_centroid_def Let_def split: prod.splits if_splits)
  have "centroid_inv dimensions 0 (replicate dimensions zero64, zero64)"
    by (simp add: centroid_inv_def units_def is_finite64_def nonneg64_def zero64_def one64_fields)
  from centroid_fold_inv [OF f this] have inv: "centroid_inv dimensions (length inputs) (agg, total)"
    using weights vectors few len by (auto dest: set_zip_leftD set_zip_rightD)
  then have total: "nonneg64 total" "is_finite64 total" "\<forall>a \<in> set agg. mag64 a \<le> mag64 total"
    by (auto simp: centroid_inv_def)
  have pos: "0 < mag64 total"
    using tot total(1) by (auto simp: le64_def nonneg64_def ord64_def EPSILON64_fields split: if_splits)
  have fin: "is_finite64 y" if "y \<in> set (map (\<lambda>v. div64 v total) agg)" for y
  proof -
    from that obtain a where a: "a \<in> set agg" "y = div64 a total" by auto
    then have "mag64 y \<le> 4607182418800017408"
      using total pos by (auto intro!: div64_le_one simp: is_finite64_def)
    then show ?thesis by (simp add: is_finite64_def)
  qed
  note norm = norm64_bounds [of "map (\<lambda>v. div64 v total) agg"]
  show "length r = dimensions" using inv by (simp add: r centroid_inv_def)
  show "mag32 x \<le> mag32 one32" if "x \<in> set r"
  proof -
    from that obtain y where y: "y \<in> set (map (\<lambda>v. div64 v total) agg)"
        and x: "x = f32_from (div64 y (norm64 (map (\<lambda>v. div64 v total) agg)))"
      unfolding r by (auto simp only: set_map)
    have "mag64 (div64 y (norm64 (map (\<lambda>v. div64 v total) agg))) \<le> 4607182418800017408"
      using fin y norm mag by (intro div64_le_one) blast+
    then have "mag32 x \<le> 1065353216" unfolding x by (rule f32_from_le_one)
    then show ?thesis by (simp add: one32_def mag32_def)
  qed
qed

section \<open>Replies are matched to inputs by index\<close>

definition valid_vector :: "nat \<Rightarrow> f32 list \<Rightarrow> bool" where
  "valid_vector dimensions v \<longleftrightarrow>
     length v = dimensions \<and> list_all is_finite32 v \<and> \<not> le64 (norm64 (map f64_from v)) EPSILON64"

lemma validate_vector_iff: "validate_vector v d = Inr v' \<longleftrightarrow> v' = v \<and> valid_vector d v"
  by (auto simp: validate_vector_def valid_vector_def list_ex_iff list_all_iff)

text \<open>Vector \<open>i\<close> is the embedding of an item that carries the index \<open>i\<close>, in whatever order the items came.\<close>

definition indexed_by :: "provider_embedding list \<Rightarrow> f32 list list \<Rightarrow> bool" where
  "indexed_by data vectors \<longleftrightarrow>
     length data = length vectors \<and>
     (\<forall>i < length vectors. \<exists>item \<in> set data. pe_index item = i \<and> pe_embedding item = vectors ! i)"

lemma index_cover:
  assumes "length data = n" and "\<forall>i < n. \<exists>item \<in> set data. pe_index item = i"
  shows "map pe_index (sort_key pe_index data) = [0..<n]" and "inj_on pe_index (set data)"
proof -
  have sub: "{0..<n} \<subseteq> set (map pe_index data)" using assms(2) by force
  have "card (set (map pe_index data)) \<le> n" using card_length [of "map pe_index data"] assms(1) by simp
  then have set: "set (map pe_index data) = {0..<n}"
    using card_seteq [OF _ sub] by simp
  then have "card (set (map pe_index data)) = length (map pe_index data)" using assms(1) by simp
  then have dist: "distinct (map pe_index data)" by (rule card_distinct)
  then show "inj_on pe_index (set data)" by (simp add: distinct_map)
  show "map pe_index (sort_key pe_index data) = [0..<n]"
  proof (rule sorted_distinct_set_unique)
    show "sorted (map pe_index (sort_key pe_index data))" by simp
    show "distinct (map pe_index (sort_key pe_index data))" using dist by (simp add: distinct_map)
    show "set (map pe_index (sort_key pe_index data)) = set [0..<n]" using set by simp
  qed simp_all
qed

lemma sorted_items_iff:
  assumes "length data = length vectors"
  shows "(\<forall>i < length vectors. pe_index (sort_key pe_index data ! i) = i \<and>
      pe_embedding (sort_key pe_index data ! i) = vectors ! i) \<longleftrightarrow> indexed_by data vectors"
    (is "?L \<longleftrightarrow> ?R")
proof
  assume ?L
  moreover have "sort_key pe_index data ! i \<in> set data" if "i < length vectors" for i
    using that assms nth_mem [of i "sort_key pe_index data"] by simp
  ultimately show ?R using assms unfolding indexed_by_def by blast
next
  assume R: ?R
  then have "\<forall>i < length vectors. \<exists>item \<in> set data. pe_index item = i"
    unfolding indexed_by_def by blast
  note cover = index_cover [OF assms this]
  show ?L
  proof (intro allI impI)
    fix i assume i: "i < length vectors"
    from R i obtain item where item: "item \<in> set data" "pe_index item = i" "pe_embedding item = vectors ! i"
      unfolding indexed_by_def by blast
    have "pe_index (sort_key pe_index data ! i) = i"
      using cover(1) i assms by (metis diff_zero length_map length_upt nth_map nth_upt plus_nat.add_0)
    moreover have "sort_key pe_index data ! i \<in> set data"
      using i assms nth_mem [of i "sort_key pe_index data"] by simp
    ultimately have "sort_key pe_index data ! i = item"
      using cover(2) item by (auto dest: inj_onD)
    with item show "pe_index (sort_key pe_index data ! i) = i \<and> pe_embedding (sort_key pe_index data ! i) = vectors ! i"
      by simp
  qed
qed

lemma check_items_iff:
  assumes "length data = n"
  shows "traverse (check_item d) (enumerate 0 (sort_key pe_index data)) = Inr vectors \<longleftrightarrow>
    length vectors = n \<and> indexed_by data vectors \<and> list_all (valid_vector d) vectors"
proof -
  have "traverse (check_item d) (enumerate 0 (sort_key pe_index data)) = Inr vectors \<longleftrightarrow>
      length vectors = n \<and> (\<forall>i < length vectors. pe_index (sort_key pe_index data ! i) = i \<and>
        pe_embedding (sort_key pe_index data ! i) = vectors ! i) \<and> list_all (valid_vector d) vectors"
    using assms
    by (auto simp: traverse_eq_Inr nth_enumerate_eq check_item_def validate_vector_iff list_all_length)
  also have "\<dots> \<longleftrightarrow> length vectors = n \<and> indexed_by data vectors \<and> list_all (valid_vector d) vectors"
    using sorted_items_iff [of data vectors] assms by auto
  finally show ?thesis .
qed

lemma validate_model_iff:
  "validate_provider_model T m c = Inr u \<longleftrightarrow> m = None \<or> m = Some c"
  by (cases m) (auto simp: validate_provider_model_def)

lemma read_reply_iff:
  "read_reply T self inputs resp = Inr r \<longleftrightarrow>
     (pr_model resp = None \<or> pr_model resp = Some (sv_model self)) \<and>
     (\<exists>vectors. length vectors = length inputs \<and> indexed_by (pr_data resp) vectors \<and>
        list_all (valid_vector (sv_dimensions self)) vectors \<and>
        weighted_centroid inputs vectors (sv_dimensions self) = Inr r)"
proof (cases "length (pr_data resp) = length inputs")
  case True
  then show ?thesis
    by (simp add: read_reply_def Let_def validate_model_iff check_items_iff [OF True])
next
  case False
  then show ?thesis
    by (auto simp: read_reply_def Let_def indexed_by_def)
qed

lemma validate_inputs_iff:
  "(\<exists>us. traverse (\<lambda>input. map_err f (validate_input Q input)) inputs = Inr us) \<longleftrightarrow>
     list_all (\<lambda>i. validate_input Q i = Inr ()) inputs"
  by (induction inputs) auto

lemma embed_inputs_iff:
  "embed_inputs T Q P self inputs = Inr r \<longleftrightarrow>
     inputs \<noteq> [] \<and> list_all (\<lambda>i. validate_input Q i = Inr ()) inputs \<and>
     (\<exists>status body resp vectors.
        post_json P (sv_endpoint self) (sv_api_key self) (payload_of self inputs) = Replied status body (Inr resp) \<and>
        is_success status \<and> (pr_model resp = None \<or> pr_model resp = Some (sv_model self)) \<and>
        length vectors = length inputs \<and> indexed_by (pr_data resp) vectors \<and>
        list_all (valid_vector (sv_dimensions self)) vectors \<and>
        weighted_centroid inputs vectors (sv_dimensions self) = Inr r)"
proof (cases "post_json P (sv_endpoint self) (sv_api_key self) (payload_of self inputs)")
  case Send_Failed
  then show ?thesis by (simp add: embed_inputs_def)
next
  case (Replied status body json)
  have "embed_inputs T Q P self inputs = Inr r \<longleftrightarrow>
      inputs \<noteq> [] \<and> list_all (\<lambda>i. validate_input Q i = Inr ()) inputs \<and> is_success status \<and>
      (\<exists>resp. json = Inr resp \<and> read_reply T self inputs resp = Inr r)"
    using Replied validate_inputs_iff [of _ Q inputs] by (auto simp: embed_inputs_def Let_def)
  with Replied show ?thesis unfolding read_reply_iff by auto
qed

text \<open>
  C15. A query is embedded exactly when there is at least one input, every input is valid, the provider
  replies with success for the configured model, and its items carry each index once, with a valid
  vector each. The result is then the weighted centroid in which every input is paired with the
  vector of its own index, in whatever order the provider returned the items.
\<close>
theorem embed_inputs_exact:
  "embed_inputs T Q P self inputs = Inr r \<longleftrightarrow>
     inputs \<noteq> [] \<and> list_all (\<lambda>i. validate_input Q i = Inr ()) inputs \<and>
     (\<exists>status body resp vectors.
        post_json P (sv_endpoint self) (sv_api_key self) (payload_of self inputs) = Replied status body (Inr resp) \<and>
        is_success status \<and> (pr_model resp = None \<or> pr_model resp = Some (sv_model self)) \<and>
        length vectors = length inputs \<and> indexed_by (pr_data resp) vectors \<and>
        list_all (valid_vector (sv_dimensions self)) vectors \<and>
        weighted_centroid inputs vectors (sv_dimensions self) = Inr r)"
  by (rule embed_inputs_iff)

section \<open>The embedded query\<close>

lemma query_weights:
  assumes "analyze_query U Q v = Inr w" and "i \<in> set (embedding_inputs w)"
  shows "weight_ok (in_weight i)"
proof -
  have "in_weight i \<in> {weight_query, weight_keyword, weight_entity}"
    using assms by (auto simp: analyze_query_iff views_spec_def inputs_spec_eq)
  moreover have "weight_ok weight_query" "weight_ok weight_keyword" "weight_ok weight_entity"
    by (simp_all add: weight_ok_def is_finite32_def mag32_def neg32_def weight_query_def
        weight_keyword_def weight_entity_def)
  ultimately show ?thesis by auto
qed

lemma query_inputs_few:
  assumes "analyze_query U Q v = Inr w"
  shows "length (embedding_inputs w) \<le> 37"
proof -
  let ?q = "query_collapse_whitespace v"
  have "length (embedding_inputs w) = 1 + length (keywords_spec U ?q) + length (entities_spec U ?q)"
    using assms by (simp add: analyze_query_iff views_spec_def inputs_spec_eq)
  with spec_lengths [of U ?q] show ?thesis by simp
qed

text \<open>
  C38. The vector computed for an analysed query has the configured number of dimensions, and every component is a
  finite number between -1 and 1: no intermediate sum, square root or quotient overflows or
  becomes a NaN, whatever finite vectors the provider returned.
\<close>
theorem query_vector_bounded:
  assumes "analyze_query T Q v = Inr views"
    and "embed_inputs T Q P self (embedding_inputs views) = Inr r"
  shows "length r = sv_dimensions self \<and> list_all (\<lambda>x. is_finite32 x \<and> mag32 x \<le> mag32 one32) r"
proof -
  from assms(2) obtain vectors where vs: "list_all (valid_vector (sv_dimensions self)) vectors"
      and c: "weighted_centroid (embedding_inputs views) vectors (sv_dimensions self) = Inr r"
    unfolding embed_inputs_iff by blast
  have weights: "\<forall>i \<in> set (embedding_inputs views). weight_ok (in_weight i)"
    using query_weights [OF assms(1)] by blast
  have fin: "\<forall>v \<in> set vectors. list_all is_finite32 v"
    using vs by (simp add: list_all_iff valid_vector_def)
  have few: "length (embedding_inputs views) < 2 ^ 53"
    using query_inputs_few [OF assms(1)] by simp
  have "is_finite32 x" if "mag32 x \<le> mag32 one32" for x
    using that by (simp add: is_finite32_def one32_def mag32_def)
  with weighted_centroid_bounded [OF c weights fin few] show ?thesis
    by (simp add: list_all_iff)
qed

text \<open>A provider that answers with the one-dimensional unit vector for each input.\<close>

definition example_provider :: provider where
  "example_provider = \<lparr>host_str = (\<lambda>_. Some (lit ''localhost'')), build_client = Inr (),
     post_json = (\<lambda>_ _ r. Replied 200 None
       (Inr \<lparr>pr_data = map (\<lambda>i. \<lparr>pe_index = i, pe_embedding = [one32]\<rparr>) (List.rev [0..<length (rq_input r)]),
             pr_model = None\<rparr>))\<rparr>"

definition example_service :: embedding_service where
  "example_service = \<lparr>sv_endpoint = example_url, sv_api_key = None, sv_model = lit ''mini'', sv_dimensions = 1\<rparr>"

lemma example_weight: "nonneg64 (f64_from weight_query)" "is_finite64 (f64_from weight_query)"
  "\<not> le64 (f64_from weight_query) EPSILON64" "0 < mag64 (f64_from weight_query)"
proof -
  have f: "is_finite32 weight_query" "\<not> neg32 weight_query"
    by (simp_all add: is_finite32_def mag32_def neg32_def weight_query_def)
  show "nonneg64 (f64_from weight_query)" and "is_finite64 (f64_from weight_query)"
    using f f64_from_nonneg f64_from_finite by auto
  have "dec 24 1065353216 * 2 ^ 925 \<le> dec 24 (mag32 weight_query) * 2 ^ 925"
    by (intro mult_right_mono dec_mono) (simp_all add: mag32_def weight_query_def)
  then have "enc 53 0 (2 ^ 149 * 2 ^ 925) \<le> mag64 (f64_from weight_query)"
    unfolding f64_from_finite(1) [OF f(1)] dec24_one by (intro enc_mono) simp_all
  then have big: "4607182418800017408 \<le> mag64 (f64_from weight_query)" by (simp only: enc53_one)
  then show "0 < mag64 (f64_from weight_query)" by simp
  show "\<not> le64 (f64_from weight_query) EPSILON64"
    using big f64_from_finite(2) [OF f(1)] f(2) by (simp add: le64_def EPSILON64_fields ord64_def)
qed

lemma example_valid: "valid_vector 1 [one32]"
  by (simp add: valid_vector_def f64_from_one norm64_one one_not_small)
    (simp add: is_finite32_def one32_def mag32_def)

lemma example_centroid:
  "weighted_centroid [\<lparr>in_kind = k, in_ordinal = o', in_text = t, in_weight = weight_query\<rparr>] [[one32]] 1 = Inr [one32]"
proof -
  have "centroid_step 1 (\<lparr>in_kind = k, in_ordinal = o', in_text = t, in_weight = weight_query\<rparr>, [one32]) ([zero64], zero64)
      = Inr ([f64_from weight_query], f64_from weight_query)"
    by (simp add: centroid_step_def f64_from_one norm64_one one_not_small div64_self one64_finite one64_fields
        mul64_one add64_zero example_weight Let_def)
  then show ?thesis
    by (simp add: weighted_centroid_def example_weight div64_self norm64_one one_not_small one64_finite
        one64_fields f32_from_one)
qed

lemma example_embedding:
  "\<exists>views. analyze_query ascii_tables example_contract (lit ''the'') = Inr views \<and>
     embed_inputs ascii_tables example_contract example_provider example_service (embedding_inputs views) = Inr [one32]"
proof -
  let ?views = "views_spec ascii_tables (lit ''the'')"
  let ?in = "\<lparr>in_kind = Query_Input, in_ordinal = 0, in_text = lit ''the'', in_weight = weight_query\<rparr>"
  have "analyze_query ascii_tables example_contract (lit ''the'') = Inr ?views"
    and "keywords_spec ascii_tables (lit ''the'') = []" and "entities_spec ascii_tables (lit ''the'') = []"
    by code_simp+
  moreover from this have "embedding_inputs ?views = [?in]"
    by (simp add: views_spec_def inputs_spec_def)
  moreover have "indexed_by [\<lparr>pe_index = 0, pe_embedding = [one32]\<rparr>] [[one32]]"
    by (simp add: indexed_by_def)
  then have "embed_inputs ascii_tables example_contract example_provider example_service [?in] = Inr [one32]"
    unfolding embed_inputs_iff using example_valid example_centroid
    by (auto simp: example_provider_def example_service_def example_contract_def payload_of_def is_success_def
        intro!: exI [of _ "[[one32]]"])
  ultimately show ?thesis by auto
qed

theorem query_vector_bounded_witness:
  "\<exists>views r. analyze_query ascii_tables example_contract (lit ''the'') = Inr views \<and>
     embed_inputs ascii_tables example_contract example_provider example_service (embedding_inputs views) = Inr r \<and>
     length r = 1 \<and> list_all (\<lambda>x. is_finite32 x \<and> mag32 x \<le> mag32 one32) r"
proof -
  obtain views where v: "analyze_query ascii_tables example_contract (lit ''the'') = Inr views"
    and e: "embed_inputs ascii_tables example_contract example_provider example_service (embedding_inputs views) = Inr [one32]"
    using example_embedding by blast
  from query_vector_bounded [OF v e] v e show ?thesis
    by (auto simp: example_service_def)
qed

section \<open>Errors\<close>

lemma retryable_new [simp]:
  "qx_retryable (QueryEmbeddingError_new c m b) = b" "qx_code (QueryEmbeddingError_new c m b) = c"
  by (simp_all add: QueryEmbeddingError_new_def)

lemma check_item_final: "check_item d p = Inl e \<Longrightarrow> \<not> qx_retryable e"
  by (cases p) (auto simp: check_item_def validate_vector_def split: if_splits)

lemma centroid_step_final: "centroid_step d p st = Inl e \<Longrightarrow> \<not> qx_retryable e"
  by (cases p, cases st) (auto simp: centroid_step_def Let_def split: if_splits)

lemma weighted_centroid_final:
  assumes "weighted_centroid inputs vectors d = Inl e"
  shows "\<not> qx_retryable e"
  using assms fold_res_error [of "centroid_step d" "zip inputs vectors" _ e "\<lambda>e. \<not> qx_retryable e"] centroid_step_final
  by (fastforce simp: weighted_centroid_def bindr_eq_Inl Let_def split: if_splits prod.splits)

lemma read_reply_final: "read_reply T self inputs resp = Inl e \<Longrightarrow> \<not> qx_retryable e"
  by (auto simp: read_reply_def bindr_eq_Inl Let_def validate_provider_model_def
      dest!: traverse_error check_item_final weighted_centroid_final split: if_splits option.splits)

lemma validate_inputs_final:
  "traverse (\<lambda>input. map_err (\<lambda>error. QueryEmbeddingError_new (qe_code error) (qe_message error) False)
     (validate_input Q input)) inputs = Inl e \<Longrightarrow> \<not> qx_retryable e"
  by (auto dest!: traverse_error)

text \<open>
  An error is marked as retryable exactly when the inputs were sent and the provider could not be
  reached (time-out or connection failure), throttled the request (429) or failed itself (5xx).
  Invalid inputs and unusable replies are never retryable.
\<close>
theorem embed_inputs_retryable:
  assumes "embed_inputs T Q P self inputs = Inl e"
  shows "qx_retryable e \<longleftrightarrow> inputs \<noteq> [] \<and> list_all (\<lambda>i. validate_input Q i = Inr ()) inputs \<and>
    (case post_json P (sv_endpoint self) (sv_api_key self) (payload_of self inputs) of
       Send_Failed _ timeout connect \<Rightarrow> timeout \<or> connect
     | Replied status _ _ \<Rightarrow> status = 429 \<or> 500 \<le> status \<and> status < 600)"
proof (cases "inputs \<noteq> [] \<and> list_all (\<lambda>i. validate_input Q i = Inr ()) inputs")
  case True
  then obtain us where us: "traverse (\<lambda>input. map_err (\<lambda>error.
      QueryEmbeddingError_new (qe_code error) (qe_message error) False) (validate_input Q input)) inputs = Inr us"
    using validate_inputs_iff by blast
  show ?thesis
  proof (cases "post_json P (sv_endpoint self) (sv_api_key self) (payload_of self inputs)")
    case Send_Failed
    with assms True us show ?thesis by (auto simp: embed_inputs_def)
  next
    case (Replied status body json)
    show ?thesis
    proof (cases "is_success status")
      case success: True
      then have "\<not> qx_retryable e"
        using assms True us Replied read_reply_final by (auto simp: embed_inputs_def bindr_eq_Inl)
      with success Replied show ?thesis by (simp add: is_success_def)
    next
      case False
      with assms True us Replied show ?thesis
        by (auto simp: embed_inputs_def Let_def is_server_error_def)
    qed
  qed
next
  case False
  then have "\<not> qx_retryable e"
    using assms validate_inputs_iff [of _ Q inputs]
    by (auto simp: embed_inputs_def bindr_eq_Inl validate_inputs_final split: if_splits)
  with False show ?thesis by blast
qed

theorem embed_inputs_retryable_witness:
  "\<exists>e. embed_inputs ascii_tables example_contract
       (example_provider\<lparr>post_json := \<lambda>_ _ _. Replied 503 None (Inl [])\<rparr>) example_service
       [\<lparr>in_kind = Query_Input, in_ordinal = 0, in_text = lit ''the'', in_weight = weight_query\<rparr>] = Inl e \<and> qx_retryable e"
proof -
  let ?P = "example_provider\<lparr>post_json := \<lambda>_ _ _. Replied 503 None (Inl [])\<rparr>"
  let ?in = "[\<lparr>in_kind = Query_Input, in_ordinal = 0, in_text = lit ''the'', in_weight = weight_query\<rparr>]"
  have "\<not> is_success 503" by (simp add: is_success_def)
  then obtain e where e: "embed_inputs ascii_tables example_contract ?P example_service ?in = Inl e"
    by (auto simp: embed_inputs_def example_contract_def Let_def)
  from embed_inputs_retryable [OF e] e show ?thesis
    by (simp add: example_contract_def)
qed

section \<open>The endpoint policy\<close>

text \<open>\<^verbatim>\<open>Url::host_str\<close> documents that IPv6 addresses are given between brackets.\<close>

definition host_str_contract :: "provider \<Rightarrow> bool" where
  "host_str_contract P \<longleftrightarrow>
     (\<forall>u a. url_host_of u = Some (Ipv6 a) \<longrightarrow> (\<exists>s. host_str P u = Some (lit ''['' @ s @ lit '']'')))"

lemma validate_endpoint_iff:
  "validate_endpoint P u app_env = Inr x \<longleftrightarrow>
     url_username u = [] \<and> url_password u = None \<and> url_query u = None \<and> url_fragment u = None \<and>
     (url_scheme u = lit ''https'' \<or> app_env \<noteq> lit ''production'' \<and> url_scheme u = lit ''http'' \<and>
        host_str P u \<in> set (map (Some \<circ> lit) [''localhost'', ''127.0.0.1'', ''::1'']))"
  by (auto simp: validate_endpoint_def Let_def)

text \<open>
  C39. A service is configured exactly when the endpoint variable holds a URL without credentials,
  query and fragment that uses HTTPS, or plain HTTP to a loopback host outside production. Its model and
  dimensions are those of the embedding space. A plain-HTTP endpoint with an IPv6 host is refused
  in every environment, the loopback address included, since the host text is bracketed.
\<close>
theorem endpoint_policy:
  assumes "host_str_contract P"
  shows "QueryEmbeddingService_from_env U P env space app_env = Inr (Some s) \<longleftrightarrow>
    (\<exists>v. nonempty_env env ''EAL_EMBEDDING_ENDPOINT'' = Some v \<and> parse_url U v = Inr (sv_endpoint s)) \<and>
    build_client P = Inr () \<and> sv_api_key s = nonempty_env env ''EAL_EMBEDDING_API_KEY'' \<and>
    sv_model s = es_model space \<and> sv_dimensions s = unat (es_dimensions space) \<and>
    url_username (sv_endpoint s) = [] \<and> url_password (sv_endpoint s) = None \<and>
    url_query (sv_endpoint s) = None \<and> url_fragment (sv_endpoint s) = None \<and>
    (url_scheme (sv_endpoint s) = lit ''https'' \<or>
     app_env \<noteq> lit ''production'' \<and> url_scheme (sv_endpoint s) = lit ''http'' \<and>
     (\<nexists>a. url_host_of (sv_endpoint s) = Some (Ipv6 a)) \<and>
     host_str P (sv_endpoint s) \<in> set (map (Some \<circ> lit) [''localhost'', ''127.0.0.1'', ''::1'']))"
proof -
  have v6: "host_str P u \<notin> set (map (Some \<circ> lit) [''localhost'', ''127.0.0.1'', ''::1''])"
    if "url_host_of u = Some (Ipv6 a)" for u a
    using assms that by (auto simp: host_str_contract_def lit_def)
  show ?thesis
    using v6
    by (cases s) (auto simp: QueryEmbeddingService_from_env_def validate_endpoint_iff split: option.splits)
qed

definition bracket_provider :: provider where
  "bracket_provider = example_provider\<lparr>host_str := \<lambda>_. Some (lit ''['' @ lit ''::1'' @ lit '']'')\<rparr>"

definition example_space :: embedding_space where
  "example_space = \<lparr>es_provider = lit ''p'', es_model = lit ''m'', es_model_version = lit ''1'',
     es_dimensions = 3, es_normalization = NormL2\<rparr>"

definition example_endpoint_crate :: "string \<Rightarrow> url_crate" where
  "example_endpoint_crate scheme = example_url_crate\<lparr>parse_url := \<lambda>_. Inr (example_url\<lparr>url_scheme := lit scheme,
     url_host_of := Some (Ipv6 1), url_query := None, url_fragment := None\<rparr>)\<rparr>"

theorem endpoint_policy_witness:
  "host_str_contract bracket_provider \<and>
   (\<exists>s. QueryEmbeddingService_from_env (example_endpoint_crate ''https'') bracket_provider
      (\<lambda>_. Some (lit ''x'')) example_space (lit ''production'') = Inr (Some s)) \<and>
   (\<nexists>s. QueryEmbeddingService_from_env (example_endpoint_crate ''http'') bracket_provider
      (\<lambda>_. Some (lit ''x'')) example_space (lit ''development'') = Inr (Some s))"
proof -
  have c: "host_str_contract bracket_provider"
    by (auto simp: host_str_contract_def bracket_provider_def)
  have x: "trim (lit ''x'') = lit ''x''" "lit ''x'' \<noteq> []" by code_simp+
  have h: "lit ''http'' \<noteq> lit ''https''" by code_simp
  let ?s = "\<lparr>sv_endpoint = example_url\<lparr>url_scheme := lit ''https'', url_host_of := Some (Ipv6 1), url_query := None,
     url_fragment := None\<rparr>, sv_api_key = Some (lit ''x''), sv_model = lit ''m'', sv_dimensions = 3\<rparr>"
  have "QueryEmbeddingService_from_env (example_endpoint_crate ''https'') bracket_provider
      (\<lambda>_. Some (lit ''x'')) example_space (lit ''production'') = Inr (Some ?s)"
    unfolding endpoint_policy [OF c]
    by (simp add: x nonempty_env_def example_endpoint_crate_def example_space_def example_url_def
        bracket_provider_def example_provider_def)
  moreover have "QueryEmbeddingService_from_env (example_endpoint_crate ''http'') bracket_provider
      (\<lambda>_. Some (lit ''x'')) example_space (lit ''development'') \<noteq> Inr (Some s)" for s
  proof
    assume "QueryEmbeddingService_from_env (example_endpoint_crate ''http'') bracket_provider
      (\<lambda>_. Some (lit ''x'')) example_space (lit ''development'') = Inr (Some s)"
    then have a: "\<exists>v. parse_url (example_endpoint_crate ''http'') v = Inr (sv_endpoint s)"
      and b: "url_scheme (sv_endpoint s) = lit ''https'' \<or> (\<nexists>a. url_host_of (sv_endpoint s) = Some (Ipv6 a))"
      unfolding endpoint_policy [OF c] by blast+
    from a have "url_scheme (sv_endpoint s) = lit ''http''" "url_host_of (sv_endpoint s) = Some (Ipv6 1)"
      by (auto simp: example_endpoint_crate_def dest!: sym [of _ "sv_endpoint s"])
    with b h show False by simp
  qed
  ultimately show ?thesis using c by blast
qed

end
