(* ===== verification/Migrations.thy ===== *)
theory Migrations
  imports Http_Errors
begin

text \<open>
  Schema migrations (\<^verbatim>\<open>src/migrations.rs\<close>). Of the PostgreSQL catalogue the model keeps what the readiness
  query reads: the relations of the schema \<^verbatim>\<open>public\<close>, the live columns of a relation and the user
  triggers. A migration script is the sequence of its statements on those objects; whether the
  other statements of a script (extensions, indexes, policies, functions and constraints) succeed is the
  parameter \<open>rest_ok\<close>. A literal cast to \<^verbatim>\<open>regclass\<close> is resolved when the query is
  analysed, and fails if the relation does not exist.
\<close>

record catalogue =
  cat_tables :: "string list"
  cat_columns :: "(string \<times> string) list"
  cat_triggers :: "string list"

datatype ddl =
    Create_Table_If_Not_Exists string "string list"
  | Add_Column_If_Not_Exists string string
  | Put_Trigger string string \<comment> \<open>drop and create, or create unless it exists\<close>

datatype script =
    Indexing_Migration
  | Semantic_Input_Migration
  | Alert_Rule_Migration
  | Match_Identity_Migration
  | Reverse_Alert_Migration
  | Active_Alert_Limit_Migration

fun exec_ddl :: "ddl \<Rightarrow> catalogue \<Rightarrow> http_error + catalogue" where
  "exec_ddl (Create_Table_If_Not_Exists t cols) c =
     Inr (if t \<in> set (cat_tables c) then c
          else c\<lparr>cat_tables := t # cat_tables c, cat_columns := map (Pair t) cols @ cat_columns c\<rparr>)"
| "exec_ddl (Add_Column_If_Not_Exists t col) c =
     (if t \<notin> set (cat_tables c) then Inl (HttpError_internal (lit ''relation does not exist''))
      else Inr (c\<lparr>cat_columns := List.insert (t, col) (cat_columns c)\<rparr>))"
| "exec_ddl (Put_Trigger name t) c =
     (if t \<notin> set (cat_tables c) then Inl (HttpError_internal (lit ''relation does not exist''))
      else Inr (c\<lparr>cat_triggers := List.insert name (cat_triggers c)\<rparr>))"

text \<open>The statements of each script, in the order of its file.\<close>

definition indexing_statements :: "ddl list" where
  "indexing_statements =
     [Create_Table_If_Not_Exists ''eal_sources'' [],
      Create_Table_If_Not_Exists ''eal_crawl_queue'' [],
      Create_Table_If_Not_Exists ''eal_pages'' [],
      Create_Table_If_Not_Exists ''eal_page_revisions'' [],
      Create_Table_If_Not_Exists ''eal_embeddings'' [],
      Create_Table_If_Not_Exists ''eal_match_candidates''
        [''id'', ''tenant_id'', ''alert_rule_id'', ''revision_id'', ''embedding_id'', ''canonical_match_key'',
         ''similarity'', ''threshold'', ''status'', ''score_explanation'', ''created_at'', ''updated_at'']]"

definition semantic_input_statements :: "ddl list" where
  "semantic_input_statements =
     [Create_Table_If_Not_Exists ''eal_semantic_input_sets'' [],
      Create_Table_If_Not_Exists ''eal_semantic_inputs'' [],
      Create_Table_If_Not_Exists ''eal_semantic_input_vectors'' []]"

definition alert_rule_statements :: "ddl list" where
  "alert_rule_statements =
     [Create_Table_If_Not_Exists ''eal_alert_rules'' [],
      Create_Table_If_Not_Exists ''eal_alert_rule_revisions'' [],
      Put_Trigger ''eal_alert_rule_revisions_immutable'' ''eal_alert_rule_revisions'']"

definition match_identity_statements :: "ddl list" where
  "match_identity_statements =
     [Add_Column_If_Not_Exists ''eal_match_candidates'' ''alert_rule_revision_id'',
      Put_Trigger ''eal_match_candidates_evidence_immutable'' ''eal_match_candidates'']"

definition reverse_alert_statements :: "ddl list" where
  "reverse_alert_statements =
     [Create_Table_If_Not_Exists ''eal_alert_rule_embeddings'' [],
      Put_Trigger ''eal_alert_rule_embeddings_immutable'' ''eal_alert_rule_embeddings'',
      Add_Column_If_Not_Exists ''eal_match_candidates'' ''match_mode'',
      Add_Column_If_Not_Exists ''eal_match_candidates'' ''alert_embedding_id'',
      Add_Column_If_Not_Exists ''eal_match_candidates'' ''page_embedding_sha256'',
      Add_Column_If_Not_Exists ''eal_match_candidates'' ''page_embedding_model'',
      Add_Column_If_Not_Exists ''eal_match_candidates'' ''page_embedding_model_version'',
      Add_Column_If_Not_Exists ''eal_match_candidates'' ''page_embedding_dimensions'',
      Add_Column_If_Not_Exists ''eal_match_candidates'' ''page_embedding_normalization'']"

definition active_alert_limit_statements :: "ddl list" where
  "active_alert_limit_statements =
     [Put_Trigger ''eal_alert_rules_active_limit'' ''eal_alert_rules'']"

fun statements :: "script \<Rightarrow> ddl list" where
  "statements Indexing_Migration = indexing_statements"
| "statements Semantic_Input_Migration = semantic_input_statements"
| "statements Alert_Rule_Migration = alert_rule_statements"
| "statements Match_Identity_Migration = match_identity_statements"
| "statements Reverse_Alert_Migration = reverse_alert_statements"
| "statements Active_Alert_Limit_Migration = active_alert_limit_statements"

lemmas statements_defs = indexing_statements_def semantic_input_statements_def alert_rule_statements_def
  match_identity_statements_def reverse_alert_statements_def active_alert_limit_statements_def

definition execute_script :: "(script \<Rightarrow> bool) \<Rightarrow> script \<Rightarrow> catalogue \<Rightarrow> http_error + catalogue" where
  "execute_script rest_ok s c =
     bindr (fold_res exec_ddl (statements s) c) (\<lambda>c'.
     if rest_ok s then Inr c' else Inl (HttpError_internal (lit ''migration failed'')))"

text \<open>The transaction: an error leaves the catalogue as it was.\<close>

definition migrate_all :: "(script \<Rightarrow> bool) \<Rightarrow> catalogue \<Rightarrow> (http_error + unit) \<times> catalogue" where
  "migrate_all rest_ok c =
     (case fold_res (execute_script rest_ok)
        [Indexing_Migration, Semantic_Input_Migration, Alert_Rule_Migration, Match_Identity_Migration,
         Reverse_Alert_Migration, Active_Alert_Limit_Migration] c of
        Inl e \<Rightarrow> (Inl e, c)
      | Inr c' \<Rightarrow> (Inr (), c'))"

definition to_regclass :: "catalogue \<Rightarrow> string \<Rightarrow> bool" where
  "to_regclass c t \<longleftrightarrow> t \<in> set (cat_tables c)"

definition schema_ready :: "catalogue \<Rightarrow> http_error + bool" where
  "schema_ready c =
     (if \<not> to_regclass c ''eal_match_candidates''
      then Inl (HttpError_internal (lit ''relation public.eal_match_candidates does not exist''))
      else Inr
        (to_regclass c ''eal_sources'' \<and> to_regclass c ''eal_page_revisions'' \<and>
         to_regclass c ''eal_embeddings'' \<and> to_regclass c ''eal_alert_rule_embeddings'' \<and>
         to_regclass c ''eal_match_candidates'' \<and> to_regclass c ''eal_semantic_input_sets'' \<and>
         to_regclass c ''eal_alert_rules'' \<and> to_regclass c ''eal_alert_rule_revisions'' \<and>
         (''eal_match_candidates'', ''alert_rule_revision_id'') \<in> set (cat_columns c) \<and>
         (''eal_match_candidates'', ''match_mode'') \<in> set (cat_columns c) \<and>
         ''eal_alert_rule_revisions_immutable'' \<in> set (cat_triggers c) \<and>
         ''eal_alert_rule_embeddings_immutable'' \<in> set (cat_triggers c) \<and>
         ''eal_alert_rules_active_limit'' \<in> set (cat_triggers c) \<and>
         ''eal_match_candidates_evidence_immutable'' \<in> set (cat_triggers c)))"

section \<open>What migrating achieves\<close>

definition has_ddl :: "catalogue \<Rightarrow> ddl \<Rightarrow> bool" where
  "has_ddl c d = (case d of
     Create_Table_If_Not_Exists t _ \<Rightarrow> t \<in> set (cat_tables c)
   | Add_Column_If_Not_Exists t col \<Rightarrow> t \<in> set (cat_tables c) \<and> (t, col) \<in> set (cat_columns c)
   | Put_Trigger name t \<Rightarrow> t \<in> set (cat_tables c) \<and> name \<in> set (cat_triggers c))"

lemma exec_ddl_noop: "has_ddl c d \<Longrightarrow> exec_ddl d c = Inr c"
  by (cases d) (auto simp: has_ddl_def List.insert_def)

lemma exec_ddl_has: "exec_ddl d c = Inr c' \<Longrightarrow> has_ddl c' d"
  by (cases d) (auto simp: has_ddl_def split: if_splits)

lemma exec_ddl_keeps: "exec_ddl d c = Inr c' \<Longrightarrow> has_ddl c e \<Longrightarrow> has_ddl c' e"
  by (cases d; cases e) (auto simp: has_ddl_def split: if_splits)

lemma fold_ddl_has:
  assumes "fold_res exec_ddl ds c = Inr c'"
  shows "(\<forall>d \<in> set ds. has_ddl c' d) \<and> (\<forall>e. has_ddl c e \<longrightarrow> has_ddl c' e)"
  using assms
proof (induction ds arbitrary: c)
  case (Cons d ds)
  then obtain c1 where c1: "exec_ddl d c = Inr c1" "fold_res exec_ddl ds c1 = Inr c'" by auto
  from Cons.IH [OF c1(2)] show ?case
    using exec_ddl_has [OF c1(1)] exec_ddl_keeps [OF c1(1)] by auto
qed simp

lemma fold_ddl_noop: "\<forall>d \<in> set ds. has_ddl c d \<Longrightarrow> fold_res exec_ddl ds c = Inr c"
  by (induction ds) (auto simp: exec_ddl_noop)

text \<open>Every statement finds its relation: it exists already or an earlier statement creates it.\<close>

fun ordered :: "string list \<Rightarrow> ddl list \<Rightarrow> bool" where
  "ordered ts [] = True"
| "ordered ts (Create_Table_If_Not_Exists t _ # ds) = ordered (t # ts) ds"
| "ordered ts (Add_Column_If_Not_Exists t _ # ds) = (t \<in> set ts \<and> ordered ts ds)"
| "ordered ts (Put_Trigger _ t # ds) = (t \<in> set ts \<and> ordered ts ds)"

lemma fold_ddl_succeeds:
  assumes "ordered ts ds" and "set ts \<subseteq> set (cat_tables c)"
  shows "\<exists>c'. fold_res exec_ddl ds c = Inr c'"
  using assms
proof (induction ts ds arbitrary: c rule: ordered.induct)
  case (2 ts t cols ds)
  obtain c1 where c1: "exec_ddl (Create_Table_If_Not_Exists t cols) c = Inr c1" by simp
  then have "set (t # ts) \<subseteq> set (cat_tables c1)" using 2(3) by (auto split: if_splits)
  with 2 c1 show ?case by (simp del: exec_ddl.simps)
qed auto

definition all_scripts :: "script list" where
  "all_scripts = [Indexing_Migration, Semantic_Input_Migration, Alert_Rule_Migration,
     Match_Identity_Migration, Reverse_Alert_Migration, Active_Alert_Limit_Migration]"

definition all_statements :: "ddl list" where
  "all_statements = concat (map statements all_scripts)"

lemma fold_res_append: "fold_res f (xs @ ys) s = bindr (fold_res f xs s) (fold_res f ys)"
proof (induction xs arbitrary: s)
  case (Cons x xs)
  then show ?case by (cases "f x s") auto
qed simp

lemma execute_scripts_Inr:
  "fold_res (execute_script rest_ok) ss c = Inr c' \<longleftrightarrow>
     list_all rest_ok ss \<and> fold_res exec_ddl (concat (map statements ss)) c = Inr c'"
  by (induction ss arbitrary: c) (auto simp: execute_script_def fold_res_append)

lemma migrate_all_eq:
  "migrate_all rest_ok c =
     (case fold_res (execute_script rest_ok) all_scripts c of Inl e \<Rightarrow> (Inl e, c) | Inr c' \<Rightarrow> (Inr (), c'))"
  by (simp only: migrate_all_def all_scripts_def)

lemma migrate_all_Inr:
  "migrate_all rest_ok c = (Inr u, c') \<longleftrightarrow>
     list_all rest_ok all_scripts \<and> fold_res exec_ddl all_statements c = Inr c'"
  unfolding all_statements_def execute_scripts_Inr [symmetric] migrate_all_eq
  by (auto split: sum.splits)

lemma all_statements_run: "\<exists>c'. fold_res exec_ddl all_statements c = Inr c'"
  by (rule fold_ddl_succeeds [of "[]"]) (simp_all add: all_statements_def all_scripts_def statements_defs)

lemma schema_ready_iff:
  "schema_ready c = Inr True \<longleftrightarrow>
     (\<forall>t \<in> {''eal_sources'', ''eal_page_revisions'', ''eal_embeddings'', ''eal_alert_rule_embeddings'',
        ''eal_match_candidates'', ''eal_semantic_input_sets'', ''eal_alert_rules'', ''eal_alert_rule_revisions''}.
        has_ddl c (Create_Table_If_Not_Exists t [])) \<and>
     (''eal_match_candidates'', ''alert_rule_revision_id'') \<in> set (cat_columns c) \<and>
     (''eal_match_candidates'', ''match_mode'') \<in> set (cat_columns c) \<and>
     {''eal_alert_rule_revisions_immutable'', ''eal_alert_rule_embeddings_immutable'',
        ''eal_alert_rules_active_limit'', ''eal_match_candidates_evidence_immutable''} \<subseteq> set (cat_triggers c)"
  by (auto simp: schema_ready_def to_regclass_def has_ddl_def)

lemma all_statements_ready:
  assumes "\<forall>d \<in> set all_statements. has_ddl c d"
  shows "schema_ready c = Inr True"
  using assms unfolding schema_ready_iff
  by (simp add: all_statements_def all_scripts_def statements_defs has_ddl_def)

lemma migrate_all_success:
  assumes "list_all rest_ok all_scripts"
  obtains c' where "migrate_all rest_ok c = (Inr (), c')" "schema_ready c' = Inr True"
    "migrate_all rest_ok c' = (Inr (), c')"
proof -
  obtain c' where c': "fold_res exec_ddl all_statements c = Inr c'"
    using all_statements_run by blast
  then have has: "\<forall>d \<in> set all_statements. has_ddl c' d"
    using fold_ddl_has by blast
  show ?thesis
    by (rule that [of c']) (use assms c' has in \<open>simp_all add: migrate_all_Inr fold_ddl_noop all_statements_ready\<close>)
qed


text \<open>A database without the match table makes the readiness query itself fail.\<close>

lemma schema_ready_missing:
  "(\<exists>e. schema_ready c = Inl e) \<longleftrightarrow> ''eal_match_candidates'' \<notin> set (cat_tables c)"
  by (auto simp: schema_ready_def to_regclass_def)

end
