(* ===== verification/Server_Runtime.thy ===== *)
theory Server_Runtime
  imports Alert_Embeddings Auth Migrations
begin

text \<open>
  The server's configuration, state and start-up (\<^verbatim>\<open>src/server_runtime.rs\<close>, and the origin and
  event helpers of \<^verbatim>\<open>src/server_websocket.rs\<close>). The state of the service is one record: its
  configuration, the connected database and the events sent on the broadcast channel so far, oldest
  first. Code outside the repository is collected in \<open>server_deps\<close>: PostgreSQL and the encoders
  (\<open>ext\<close>), the interface crate's validators, the authentication crates, the URL crate, header values, the
  hexadecimal decoder, the process environment, the whole seconds of a time and the JSON text of an
  event. Logging, tracing, the CORS layer, the body limit and the listener are not modelled.
\<close>

section \<open>Configuration\<close>

datatype app_environment = Development | Test | Production

definition AppEnvironment_parse :: "rstr option \<Rightarrow> rstr + app_environment" where
  "AppEnvironment_parse v =
     (let normalized = to_ascii_lowercase (trim (case v of None \<Rightarrow> lit ''development'' | Some s \<Rightarrow> s)) in
      if normalized \<in> set (map lit ['''', ''dev'', ''development'']) then Inr Development
      else if normalized = lit ''test'' then Inr Test
      else if normalized \<in> set (map lit [''prod'', ''production'']) then Inr Production
      else Inl (lit ''unsupported APP_ENV value: '' @ normalized))"

fun AppEnvironment_as_str :: "app_environment \<Rightarrow> string" where
  "AppEnvironment_as_str Development = ''development''"
| "AppEnvironment_as_str Test = ''test''"
| "AppEnvironment_as_str Production = ''production''"

definition validate_startup_policy :: "app_environment \<Rightarrow> bool \<Rightarrow> bool \<Rightarrow> bool \<Rightarrow> bool \<Rightarrow> rstr + unit" where
  "validate_startup_policy environment database_connected ready verified_jwt_enabled ingest_auth_configured =
     (if environment = Production \<and> \<not> database_connected then
        Inl (lit ''production startup requires durable PostgreSQL storage'')
      else if environment = Production \<and> \<not> ready then
        Inl (lit ''production startup requires the durable Embedded Alerts schema'')
      else if environment = Production \<and> \<not> verified_jwt_enabled then
        Inl (lit ''production startup requires verified JWT authentication'')
      else if environment = Production \<and> \<not> ingest_auth_configured then
        Inl (lit ''production startup requires authenticated crawler ingestion'')
      else Inr ())"

definition env_flag :: "environment \<Rightarrow> string \<Rightarrow> bool" where
  "env_flag env name =
     (case env name of
        None \<Rightarrow> False
      | Some v \<Rightarrow> to_ascii_lowercase (trim v) \<in> set (map lit [''1'', ''true'', ''yes'']))"

section \<open>State\<close>

datatype event_audience = TenantAdministrators | SubjectOrTenantAdministrators rstr

record tenant_event =
  te_tenant_id :: uuid
  te_audience :: event_audience
  te_payload :: rstr

record app_state =
  as_environment :: app_environment
  as_db :: "db option"
  as_schema_ready :: bool
  as_ingest_auth_configured :: bool
  as_events :: "tenant_event list"
  as_auth :: auth_config
  as_allowed_origins :: "bytes list"
  as_supabase_url :: "rstr option"

text \<open>What an event carries under \<^verbatim>\<open>data\<close>.\<close>

datatype event_data =
    Rule_Data alert_rule
  | Source_Data source_policy
  | Revision_Data page_revision
  | Reverse_Data reverse_match_response
  | Candidate_Data candidate_row

record server_deps =
  sd_ext :: ext
  sd_interfaces :: interfaces
  sd_crates :: auth_crates
  sd_url :: url_crate
  sd_origin_ascii :: "url \<Rightarrow> rstr"
  sd_header_value :: "rstr \<Rightarrow> bytes option"
  sd_hex_decode :: "rstr \<Rightarrow> bytes option"
  sd_env :: environment
  sd_unix_seconds :: "timestamp \<Rightarrow> int"
  sd_to_json :: "string \<Rightarrow> uuid \<Rightarrow> timestamp \<Rightarrow> event_data \<Rightarrow> rstr + rstr"

section \<open>Origins\<close>

definition check_origin :: "server_deps \<Rightarrow> rstr \<Rightarrow> rstr + bytes" where
  "check_origin D raw_origin =
     bindr (map_err (\<lambda>_. lit ''parse CORS origin'') (parse_url (sd_url D) raw_origin)) (\<lambda>u.
     if url_scheme u \<notin> set (map lit [''http'', ''https'']) then
       Inl (lit ''CORS origins must use http or https'')
     else if url_host_of u = None then Inl (lit ''CORS origins must contain a host'')
     else if url_username u \<noteq> [] \<or> url_password u \<noteq> None then
       Inl (lit ''CORS origins must not contain credentials'')
     else if url_path u \<noteq> lit ''/'' \<or> url_query u \<noteq> None \<or> url_fragment u \<noteq> None then
       Inl (lit ''CORS origins must not contain paths, queries, or fragments'')
     else let origin = sd_origin_ascii D u in
       if origin = lit ''null'' then Inl (lit ''opaque CORS origins are not allowed'')
       else ok_or (lit ''failed to parse header value'') (sd_header_value D origin))"

text \<open>\<^verbatim>\<open>Vec::dedup\<close> removes consecutive repetitions.\<close>

definition parse_origins :: "server_deps \<Rightarrow> rstr \<Rightarrow> rstr + bytes list" where
  "parse_origins D raw =
     bindr (traverse (check_origin D)
       (filter (\<lambda>v. v \<noteq> []) (map trim (split_on (\<lambda>c. c = 44) raw)))) (\<lambda>origins.
     let origins = remdups_adj (sort_key (map unat) origins) in
     if origins = [] then Inl (lit ''CORS_ALLOWED_ORIGINS must contain at least one explicit origin'')
     else Inr origins)"

definition configured_origins :: "server_deps \<Rightarrow> app_environment \<Rightarrow> rstr + bytes list" where
  "configured_origins D environment =
     bindr (case sd_env D ''CORS_ALLOWED_ORIGINS'' of
         Some v \<Rightarrow>
           if trim v \<noteq> [] then Inr v
           else if environment \<noteq> Production then
             Inr (join (lit '','') (map lit [''http://localhost:8081'', ''http://localhost:8082'', ''http://localhost:8083'']))
           else Inl (lit ''CORS_ALLOWED_ORIGINS must contain explicit browser origins in production'')
       | None \<Rightarrow>
           if environment \<noteq> Production then
             Inr (join (lit '','') (map lit [''http://localhost:8081'', ''http://localhost:8082'', ''http://localhost:8083'']))
           else Inl (lit ''CORS_ALLOWED_ORIGINS must contain explicit browser origins in production''))
       (parse_origins D)"

definition authorize_websocket_origin :: "headers \<Rightarrow> bytes list \<Rightarrow> http_error + unit" where
  "authorize_websocket_origin headers allowed_origins =
     bindr (ok_or (HttpError_forbidden (lit ''WebSocket requests require an Origin header''))
       (header_get headers ''origin'')) (\<lambda>origin.
     if list_ex (\<lambda>allowed. allowed = origin) allowed_origins then Inr ()
     else Inl (HttpError_forbidden (lit ''WebSocket origin is not in CORS_ALLOWED_ORIGINS'')))"

section \<open>Start-up\<close>

text \<open>
  The part of \<^verbatim>\<open>main\<close> that decides whether the service starts and with which state. Connecting
  gives the database with its catalogue.
\<close>

definition startup ::
  "server_deps \<Rightarrow> (rstr \<Rightarrow> rstr + db \<times> catalogue) \<Rightarrow> (script \<Rightarrow> bool) \<Rightarrow> rstr + app_state" where
  "startup D connect rest_ok =
     bindr (AppEnvironment_parse (sd_env D ''APP_ENV'')) (\<lambda>environment.
     let allow_insecure_tenant_header = env_flag (sd_env D) ''ALLOW_INSECURE_TENANT_HEADER'' in
     bindr (AuthConfig_from_env (sd_env D) (environment = Production) allow_insecure_tenant_header) (\<lambda>auth.
     bindr (case sd_env D ''DATABASE_URL'' of
         Some u \<Rightarrow> if trim u \<noteq> [] then bindr (map_err (\<lambda>_. lit ''connect database'') (connect u)) (\<lambda>d. Inr (Some d)) else Inr None
       | None \<Rightarrow> Inr None) (\<lambda>database.
     bindr (if env_flag (sd_env D) ''MIGRATE_ON_STARTUP'' then
         (case database of
            None \<Rightarrow> Inl (lit ''MIGRATE_ON_STARTUP requires DATABASE_URL'')
          | Some (d, c) \<Rightarrow>
              (case migrate_all rest_ok c of
                 (Inl _, _) \<Rightarrow> Inl (lit ''apply Embedded Alerts migrations'')
               | (Inr _, c') \<Rightarrow> Inr (Some (d, c'))))
       else Inr database) (\<lambda>database.
     bindr (case database of
         None \<Rightarrow> Inr False
       | Some (d, c) \<Rightarrow> map_err (\<lambda>_. lit ''verify durable Embedded Alerts schema'') (schema_ready c)) (\<lambda>ready.
     let ingest_auth_configured = is_configured (sd_hex_decode D) (sd_env D) in
     bindr (validate_startup_policy environment (database \<noteq> None) ready (AuthConfig_is_jwt auth) ingest_auth_configured) (\<lambda>_.
     bindr (configured_origins D environment) (\<lambda>allowed_origins.
     Inr \<lparr>as_environment = environment, as_db = map_option fst database, as_schema_ready = ready,
          as_ingest_auth_configured = ingest_auth_configured, as_events = [], as_auth = auth,
          as_allowed_origins = allowed_origins, as_supabase_url = sd_env D ''SUPABASE_URL''\<rparr>)))))))"

section \<open>Health\<close>

record health =
  he_service :: string
  he_status :: string
  he_environment :: string
  he_alert_storage_mode :: string
  he_indexing_storage_mode :: string
  he_production_ready :: bool
  he_database_connected :: bool
  he_supabase_configured :: bool
  he_tenant_context :: string
  he_websocket_authorization :: string
  he_schema_ready :: bool
  he_ingest_auth_configured :: bool

definition health_of :: "app_state \<Rightarrow> health" where
  "health_of state =
     (let production_ready = as_db state \<noteq> None \<and> as_schema_ready state \<and>
        AuthConfig_is_jwt (as_auth state) \<and> as_ingest_auth_configured state in
      \<lparr>he_service = ''eal-api'', he_status = (if production_ready then ''ok'' else ''degraded''),
       he_environment = AppEnvironment_as_str (as_environment state),
       he_alert_storage_mode = (if as_db state \<noteq> None \<and> as_schema_ready state
         then ''postgresql_immutable_revisions'' else ''unavailable''),
       he_indexing_storage_mode = (if as_db state \<noteq> None \<and> as_schema_ready state
         then ''reverse_alert_stream_plus_historical_pgvector'' else ''unavailable''),
       he_production_ready = production_ready, he_database_connected = (as_db state \<noteq> None),
       he_supabase_configured = (as_supabase_url state \<noteq> None),
       he_tenant_context = AuthConfig_mode_name (as_auth state),
       he_websocket_authorization = ''same_verified_identity_plus_explicit_origin'',
       he_schema_ready = as_schema_ready state, he_ingest_auth_configured = as_ingest_auth_configured state\<rparr>)"

section \<open>Properties of a started service\<close>

text \<open>An origin as a browser sends it: that of an HTTP or HTTPS URL with a host and nothing else.\<close>

definition explicit_origin :: "server_deps \<Rightarrow> bytes \<Rightarrow> bool" where
  "explicit_origin D b \<longleftrightarrow> (\<exists>u. (url_scheme u = lit ''http'' \<or> url_scheme u = lit ''https'') \<and> url_host_of u \<noteq> None \<and>
     url_username u = [] \<and> url_password u = None \<and> url_path u = lit ''/'' \<and> url_query u = None \<and>
     url_fragment u = None \<and> sd_origin_ascii D u \<noteq> lit ''null'' \<and> sd_header_value D (sd_origin_ascii D u) = Some b)"

lemma check_origin_Inr: "check_origin D raw = Inr b \<Longrightarrow> explicit_origin D b"
  by (auto simp: check_origin_def explicit_origin_def Let_def)

lemma distinct_dedup_sorted:
  fixes f :: "'a \<Rightarrow> 'b::linorder"
  assumes "inj f"
  shows "distinct (remdups_adj (sort_key f xs))"
proof -
  have "distinct (remdups_adj (map f (sort_key f xs)))"
    by (rule distinct_remdups_adj_sorted) simp
  then show ?thesis
    using assms by (simp add: remdups_adj_map_injective distinct_map)
qed

lemma parse_origins_Inr:
  assumes "parse_origins D raw = Inr os"
  shows "os \<noteq> []" "distinct os" "\<forall>b \<in> set os. explicit_origin D b"
proof -
  from assms obtain raws bs where bs: "traverse (check_origin D) raws = Inr bs"
      and os: "os = remdups_adj (sort_key (map unat) bs)" "os \<noteq> []"
    by (auto simp: parse_origins_def Let_def)
  show "os \<noteq> []" by (rule os(2))
  show "distinct os" unfolding os(1) by (intro distinct_dedup_sorted inj_mapI inj_unsigned)
  have "\<forall>b \<in> set bs. explicit_origin D b"
    unfolding traverse_set [OF bs] using check_origin_Inr by blast
  then show "\<forall>b \<in> set os. explicit_origin D b" by (simp add: os(1))
qed

lemma startup_Inr:
  assumes "startup D connect rest_ok = Inr st"
  obtains database :: "(db \<times> catalogue) option"
    where "as_db st = map_option fst database" "as_events st = []"
    "validate_startup_policy (as_environment st) (database \<noteq> None) (as_schema_ready st)
       (AuthConfig_is_jwt (as_auth st)) (as_ingest_auth_configured st) = Inr ()"
    "database = None \<Longrightarrow> \<not> as_schema_ready st"
    "configured_origins D (as_environment st) = Inr (as_allowed_origins st)"
proof -
  from assms obtain environment auth database ready origins u where
      "(case database of None \<Rightarrow> Inr False
        | Some (d, c) \<Rightarrow> map_err (\<lambda>_. lit ''verify durable Embedded Alerts schema'') (schema_ready c)) = Inr ready"
      "validate_startup_policy environment (database \<noteq> None) ready (AuthConfig_is_jwt auth)
        (is_configured (sd_hex_decode D) (sd_env D)) = Inr u"
      "configured_origins D environment = Inr origins"
      "st = \<lparr>as_environment = environment, as_db = map_option fst database, as_schema_ready = ready,
          as_ingest_auth_configured = is_configured (sd_hex_decode D) (sd_env D), as_events = [], as_auth = auth,
          as_allowed_origins = origins, as_supabase_url = sd_env D ''SUPABASE_URL''\<rparr>"
    unfolding startup_def Let_def by (auto simp only: bindr_eq_Inr sum.inject)
  then show ?thesis
    by (intro that [of database]) auto
qed


text \<open>
  C40. A database that was never migrated does not give a degraded service but none: without
  \<^verbatim>\<open>MIGRATE_ON_STARTUP\<close> the readiness query fails on the missing match table, and the start-up with it,
  in every environment.
\<close>
theorem startup_unmigrated_fails:
  assumes "sd_env D ''DATABASE_URL'' = Some u" and "trim u \<noteq> []" and "connect u = Inr (d, c)"
    and "\<not> env_flag (sd_env D) ''MIGRATE_ON_STARTUP''"
    and "''eal_match_candidates'' \<notin> set (cat_tables c)"
  shows "\<exists>e. startup D connect rest_ok = Inl e"
proof (cases "startup D connect rest_ok")
  case (Inr st)
  obtain e where "schema_ready c = Inl e"
    using assms(5) schema_ready_missing by blast
  with Inr assms(1-4) have False
    unfolding startup_def Let_def by (auto simp only: bindr_eq_Inr) auto
  then show ?thesis ..
qed simp

section \<open>Examples\<close>

definition example_origin :: url where
  "example_origin = \<lparr>url_scheme = lit ''https'', url_username = [], url_password = None,
     url_host_of = Some (Domain (lit ''app.example'')), url_port = None, url_path = lit ''/'',
     url_query = None, url_fragment = None, url_cannot_be_a_base = False\<rparr>"

definition example_server_env :: "(string \<times> rstr) list \<Rightarrow> environment" where
  "example_server_env extra name =
     (case map_of extra name of Some v \<Rightarrow> Some v | None \<Rightarrow> example_jwt_env name)"

definition example_deps :: "(string \<times> rstr) list \<Rightarrow> server_deps" where
  "example_deps extra =
     \<lparr>sd_ext = example_ext, sd_interfaces = example_interfaces, sd_crates = example_crates,
      sd_url = example_url_crate\<lparr>parse_url := \<lambda>_. Inr example_origin\<rparr>,
      sd_origin_ascii = (\<lambda>u. lit ''https://app.example''), sd_header_value = (\<lambda>s. Some (map of_nat s)),
      sd_hex_decode = (\<lambda>_. Some (replicate 32 0)), sd_env = example_server_env extra,
      sd_unix_seconds = (\<lambda>t. t), sd_to_json = (\<lambda>event_type tenant now data. Inr (lit event_type))\<rparr>"

definition production_env :: "(string \<times> rstr) list" where
  "production_env = [(''APP_ENV'', lit '' Prod ''), (''DATABASE_URL'', lit ''postgres''), (''MIGRATE_ON_STARTUP'', lit ''YES''),
     (''CORS_ALLOWED_ORIGINS'', lit ''https://app.example/, https://app.example''),
     (''EAL_INGEST_TOKEN_SHA256'', replicate 64 48)]"

definition new_database :: "rstr \<Rightarrow> rstr + db \<times> catalogue" where
  "new_database u = Inr (empty_db True, \<lparr>cat_tables = [], cat_columns = [], cat_triggers = []\<rparr>)"

lemma example_startup:
  obtains st where "startup (example_deps production_env) new_database (\<lambda>_. True) = Inr st" "as_environment st = Production"
proof -
  let ?D = "example_deps production_env"
  have env: "sd_env ?D = example_server_env production_env"
    by (simp add: example_deps_def)
  have vars: "sd_env ?D ''APP_ENV'' = Some (lit '' Prod '')" "sd_env ?D ''DATABASE_URL'' = Some (lit ''postgres'')"
    "sd_env ?D ''MIGRATE_ON_STARTUP'' = Some (lit ''YES'')"
    by (simp_all add: example_deps_def example_server_env_def production_env_def)
  have parse: "AppEnvironment_parse (Some (lit '' Prod '')) = Inr Production" and url: "trim (lit ''postgres'') \<noteq> []"
    by code_simp+
  have flag: "env_flag (sd_env ?D) ''MIGRATE_ON_STARTUP''"
    unfolding env_flag_def vars by code_simp
  have ok: "case AuthConfig_from_env (example_server_env production_env) True b of
      Inl _ \<Rightarrow> False | Inr c \<Rightarrow> AuthConfig_is_jwt c" for b
    by (cases b) code_simp+
  have "\<exists>auth. AuthConfig_from_env (example_server_env production_env) True b = Inr auth \<and> AuthConfig_is_jwt auth" for b
    using ok [of b] by (cases "AuthConfig_from_env (example_server_env production_env) True b") auto
  then obtain auth where auth: "AuthConfig_from_env (sd_env ?D) True
      (env_flag (sd_env ?D) ''ALLOW_INSECURE_TENANT_HEADER'') = Inr auth" and jwt: "AuthConfig_is_jwt auth"
    unfolding env by blast
  have ingest: "is_configured (sd_hex_decode ?D) (sd_env ?D)"
    by code_simp
  have "is_ok (configured_origins ?D Production)"
    by code_simp
  then obtain origins where origins: "configured_origins ?D Production = Inr origins"
    by (auto simp: is_ok_iff)
  obtain c' where c': "migrate_all (\<lambda>_. True) \<lparr>cat_tables = [], cat_columns = [], cat_triggers = []\<rparr> = (Inr (), c')"
      "schema_ready c' = Inr True"
    by (rule migrate_all_success [of "\<lambda>_. True"]) (auto simp: all_scripts_def)
  show ?thesis
    by (rule that, simp add: startup_def vars parse auth jwt ingest origins url flag c' new_database_def
        Let_def validate_startup_policy_def) simp
qed


theorem startup_unmigrated_fails_witness:
  "\<exists>e. startup (example_deps [(''DATABASE_URL'', lit ''postgres'')]) new_database (\<lambda>_. True) = Inl e"
proof (rule startup_unmigrated_fails)
  show "sd_env (example_deps [(''DATABASE_URL'', lit ''postgres'')]) ''DATABASE_URL'' = Some (lit ''postgres'')"
    by (simp add: example_deps_def example_server_env_def)
  show "trim (lit ''postgres'') \<noteq> []" by code_simp
  show "\<not> env_flag (sd_env (example_deps [(''DATABASE_URL'', lit ''postgres'')])) ''MIGRATE_ON_STARTUP''"
    by (simp add: example_deps_def example_server_env_def example_jwt_env_def env_flag_def)
  show "new_database (lit ''postgres'') = Inr (empty_db True, \<lparr>cat_tables = [], cat_columns = [], cat_triggers = []\<rparr>)"
    by (simp add: new_database_def)
qed simp

end
