(* ===== verification/Server_Websocket.thy ===== *)
theory Server_Websocket
  imports Server_Runtime "HOL-Library.Sublist"
begin

text \<open>
  Delivery of events to WebSocket clients (\<^verbatim>\<open>src/server_websocket.rs\<close>). The broadcast channel is the
  log of all events sent; it retains the last 512. A subscriber is the position of its
  receiver in the log, the messages sent to its socket and whether the socket is still served.
  Publishing by other tasks, the send task and the receive task interleave: \<open>ws_step\<close> has one rule
  for each thing one of them does. \<open>drain\<close> is the send task's loop run until it waits for the next event.
\<close>

definition event_visible_to :: "tenant_event \<Rightarrow> auth_context \<Rightarrow> bool" where
  "event_visible_to event auth =
     (if te_tenant_id event \<noteq> ctx_tenant_id auth then False
      else case te_audience event of
        TenantAdministrators \<Rightarrow> is_tenant_admin auth
      | SubjectOrTenantAdministrators subject \<Rightarrow> can_access_owner auth subject)"

definition CHANNEL_CAPACITY :: nat where "CHANNEL_CAPACITY = 512"

datatype received = Event tenant_event | Lagged nat | Waiting

text \<open>
  \<^verbatim>\<open>Receiver::recv\<close> of a receiver at position \<open>n\<close>: a receiver that fell behind the retained events
  learns how many it missed and continues with the oldest retained one.
\<close>

definition recv :: "tenant_event list \<Rightarrow> nat \<Rightarrow> received \<times> nat" where
  "recv log n =
     (if length log \<le> n then (Waiting, n)
      else if n + CHANNEL_CAPACITY < length log then
        (Lagged (length log - CHANNEL_CAPACITY - n), length log - CHANNEL_CAPACITY)
      else (Event (log ! n), Suc n))"

record subscriber =
  su_auth :: auth_context
  su_next :: nat
  su_sent :: "rstr list"
  su_open :: bool

definition subscribe :: "auth_context \<Rightarrow> tenant_event list \<Rightarrow> subscriber" where
  "subscribe auth log = \<lparr>su_auth = auth, su_next = length log, su_sent = [], su_open = True\<rparr>"

text \<open>One iteration of the send task, given whether the socket accepts a message.\<close>

definition send_iteration :: "tenant_event list \<Rightarrow> bool \<Rightarrow> subscriber \<Rightarrow> subscriber" where
  "send_iteration log accepts s =
     (case recv log (su_next s) of
        (Event event, n) \<Rightarrow>
          if \<not> event_visible_to event (su_auth s) then s\<lparr>su_next := n\<rparr>
          else if accepts then s\<lparr>su_next := n, su_sent := su_sent s @ [te_payload event]\<rparr>
          else s\<lparr>su_next := n, su_open := False\<rparr>
      | (Lagged skipped, n) \<Rightarrow> s\<lparr>su_next := n\<rparr>
      | (Waiting, n) \<Rightarrow> s)"

datatype client_message = Close_Message | Other_Message

definition receive_iteration :: "client_message \<Rightarrow> subscriber \<Rightarrow> subscriber" where
  "receive_iteration m s = (case m of Close_Message \<Rightarrow> s\<lparr>su_open := False\<rparr> | Other_Message \<Rightarrow> s)"

inductive ws_step :: "tenant_event list \<times> subscriber \<Rightarrow> tenant_event list \<times> subscriber \<Rightarrow> bool" where
  publish: "ws_step (log, s) (log @ [event], s)"
| send: "ws_step (log, s) (log, send_iteration log accepts s)" if "su_open s"
| receive: "ws_step (log, s) (log, receive_iteration m s)" if "su_open s"

inductive ws_steps :: "tenant_event list \<times> subscriber \<Rightarrow> tenant_event list \<times> subscriber \<Rightarrow> bool" where
  none: "ws_steps c c"
| more: "ws_steps c d \<Longrightarrow> ws_step d e \<Longrightarrow> ws_steps c e"

inductive_cases ws_stepE: "ws_step (log, s) c"

section \<open>The send loop\<close>

lemma recv_progress: "su_next s < length log \<Longrightarrow> su_next s < snd (recv log (su_next s))"
  by (auto simp: recv_def)

lemma send_iteration_next [simp]: "su_next (send_iteration log a s) = snd (recv log (su_next s))"
  by (auto simp: send_iteration_def recv_def)

function drain :: "tenant_event list \<Rightarrow> subscriber \<Rightarrow> subscriber" where
  "drain log s = (if length log \<le> su_next s then s else drain log (send_iteration log True s))"
  by pat_completeness auto
termination
  by (relation "measure (\<lambda>(log, s). length log - su_next s)") (auto simp: not_le intro!: diff_less_mono2 recv_progress)

declare drain.simps [simp del]

definition visible_payloads :: "auth_context \<Rightarrow> tenant_event list \<Rightarrow> rstr list" where
  "visible_payloads auth es = map te_payload (filter (\<lambda>e. event_visible_to e auth) es)"

lemma visible_payloads_append [simp]:
  "visible_payloads auth (xs @ ys) = visible_payloads auth xs @ visible_payloads auth ys"
  by (simp add: visible_payloads_def)

lemma visible_payloads_Nil [simp]: "visible_payloads auth [] = []"
  by (simp add: visible_payloads_def)

text \<open>Within the window, draining delivers every visible event from the position on.\<close>

lemma drain_window:
  assumes "length log \<le> su_next s + 512"
  shows "drain log s = s\<lparr>su_next := max (su_next s) (length log),
    su_sent := su_sent s @ visible_payloads (su_auth s) (drop (su_next s) log)\<rparr>"
  using assms
proof (induction log s rule: drain.induct)
  case (1 log s)
  show ?case
  proof (cases "length log \<le> su_next s")
    case True
    then show ?thesis by (simp add: drain.simps max_def)
  next
    case False
    then have rd: "recv log (su_next s) = (Event (log ! su_next s), Suc (su_next s))"
      using 1 by (simp add: recv_def CHANNEL_CAPACITY_def)
    have dr: "drop (su_next s) log = log ! su_next s # drop (Suc (su_next s)) log"
      using False by (simp add: Cons_nth_drop_Suc)
    from 1 False have "drain log s = drain log (send_iteration log True s)"
      by (simp add: drain.simps [of log s])
    also have "\<dots> = (send_iteration log True s)\<lparr>su_next := max (Suc (su_next s)) (length log),
        su_sent := su_sent (send_iteration log True s) @
          visible_payloads (su_auth (send_iteration log True s)) (drop (Suc (su_next s)) log)\<rparr>"
      using 1 False rd by simp
    finally show ?thesis
      using False by (simp add: send_iteration_def rd dr visible_payloads_def max_def)
  qed
qed

text \<open>
  C21. The send loop ends: it runs until it waits for the next event. It then has delivered, in
  order, the payloads of exactly the events still retained that the client may see, and only a receiver more
  than 512 events behind skips any.
\<close>
theorem drain_exact:
  "su_next s \<le> length log \<Longrightarrow>
   drain log s = s\<lparr>su_next := length log,
     su_sent := su_sent s @ visible_payloads (su_auth s) (drop (max (su_next s) (length log - 512)) log)\<rparr>"
proof (cases "length log \<le> su_next s + 512")
  case True
  assume "su_next s \<le> length log"
  moreover have "max (su_next s) (length log - 512) = su_next s" using True by simp
  ultimately show ?thesis using True by (simp add: drain_window max_absorb2)
next
  case False
  let ?s = "s\<lparr>su_next := length log - 512\<rparr>"
  have "send_iteration log True s = ?s"
    using False by (simp add: send_iteration_def recv_def CHANNEL_CAPACITY_def)
  then have "drain log s = drain log ?s"
    using False by (simp add: drain.simps [of log s])
  also have "\<dots> = s\<lparr>su_next := length log,
      su_sent := su_sent s @ visible_payloads (su_auth s) (drop (length log - 512) log)\<rparr>"
    using False by (subst drain_window) simp_all
  finally show ?thesis using False by (simp add: max_def)
qed

section \<open>Every interleaving\<close>

text \<open>
  What holds of a subscriber at any moment, for the events published since it subscribed:
  it was sent a subsequence of the payloads it may see, and all of them as long as it is served
  and at most 512 events were published.
\<close>

definition delivered :: "auth_context \<Rightarrow> tenant_event list \<Rightarrow> tenant_event list \<times> subscriber \<Rightarrow> bool" where
  "delivered auth log0 = (\<lambda>(log, s).
     (\<exists>new. log = log0 @ new \<and> su_auth s = auth \<and> length log0 \<le> su_next s \<and> su_next s \<le> length log \<and>
        subseq (su_sent s) (visible_payloads auth (take (su_next s - length log0) new)) \<and>
        (su_open s \<and> length new \<le> 512 \<longrightarrow>
           su_sent s = visible_payloads auth (take (su_next s - length log0) new))))"

lemma delivered_subscribe: "delivered auth log0 (log0, subscribe auth log0)"
  by (simp add: delivered_def subscribe_def)

lemma delivered_advance:
  assumes "delivered auth log0 (log, s)" and "su_next s \<le> n" and "n \<le> length log"
    and "subseq sent' (visible_payloads auth (drop (su_next s) (take n log)))"
    and "su_open s \<Longrightarrow> opn \<Longrightarrow> length log \<le> length log0 + 512 \<Longrightarrow> sent' = visible_payloads auth (drop (su_next s) (take n log))"
    and "opn \<Longrightarrow> su_open s"
  shows "delivered auth log0 (log, s\<lparr>su_next := n, su_sent := su_sent s @ sent', su_open := opn\<rparr>)"
proof -
  from assms(1) obtain new where new: "log = log0 @ new" "su_auth s = auth" "length log0 \<le> su_next s"
      "su_next s \<le> length log" "subseq (su_sent s) (visible_payloads auth (take (su_next s - length log0) new))"
      "su_open s \<and> length new \<le> 512 \<longrightarrow> su_sent s = visible_payloads auth (take (su_next s - length log0) new)"
    unfolding delivered_def prod.case by blast
  let ?a = "su_next s - length log0" and ?b = "n - length log0"
  have ab: "?a \<le> ?b" using assms(2) by simp
  have "drop (su_next s) (take n log) = drop ?a (take ?b new)"
    using new(1,3) assms(2) by simp
  moreover have "take ?b new = take ?a new @ drop ?a (take ?b new)"
    using ab by (metis append_take_drop_id min.absorb1 take_take)
  ultimately have split: "visible_payloads auth (take ?b new) =
      visible_payloads auth (take ?a new) @ visible_payloads auth (drop (su_next s) (take n log))"
    by (metis visible_payloads_append)
  show ?thesis
    unfolding delivered_def
    using new assms(2-6) by (auto simp: split intro: list_emb_append_mono)
qed

lemma ws_step_delivered:
  assumes "ws_step c c'" and "delivered auth log0 c"
  shows "delivered auth log0 c'"
  using assms
proof (induction rule: ws_step.induct)
  case (publish log s event)
  then obtain new where "log = log0 @ new" "su_auth s = auth" "length log0 \<le> su_next s" "su_next s \<le> length log"
      "subseq (su_sent s) (visible_payloads auth (take (su_next s - length log0) new))"
      "su_open s \<and> length new \<le> 512 \<longrightarrow> su_sent s = visible_payloads auth (take (su_next s - length log0) new)"
    unfolding delivered_def prod.case by blast
  then show ?case
    unfolding delivered_def prod.case by (intro exI [of _ "new @ [event]"]) simp
next
  case (send s log accepts)
  from send(2) have pos: "length log0 \<le> su_next s" "su_next s \<le> length log" "su_auth s = auth"
    by (auto simp: delivered_def)
  consider (waiting) "length log \<le> su_next s" | (lagged) "su_next s + 512 < length log"
    | (event) "su_next s < length log" "length log \<le> su_next s + 512"
    by linarith
  then show ?case
  proof cases
    case waiting
    then show ?thesis using send(2) by (simp add: send_iteration_def recv_def)
  next
    case lagged
    then have "send_iteration log accepts s = s\<lparr>su_next := length log - 512, su_sent := su_sent s @ [], su_open := su_open s\<rparr>"
      by (simp add: send_iteration_def recv_def CHANNEL_CAPACITY_def)
    moreover have "delivered auth log0 (log, s\<lparr>su_next := length log - 512, su_sent := su_sent s @ [], su_open := su_open s\<rparr>)"
      using lagged pos by (intro delivered_advance [OF send(2)]) simp_all
    ultimately show ?thesis by simp
  next
    case event
    let ?e = "log ! su_next s"
    have rd: "recv log (su_next s) = (Event ?e, Suc (su_next s))"
      using event by (simp add: recv_def CHANNEL_CAPACITY_def)
    have one: "drop (su_next s) (take (Suc (su_next s)) log) = [?e]"
      using event(1) by (simp add: take_Suc_conv_app_nth)
    have vis: "visible_payloads auth [?e] = (if event_visible_to ?e auth then [te_payload ?e] else [])"
      by (simp add: visible_payloads_def)
    let ?sent = "if event_visible_to ?e auth \<and> accepts then [te_payload ?e] else []"
    let ?open = "event_visible_to ?e auth \<longrightarrow> accepts"
    have "send_iteration log accepts s = s\<lparr>su_next := Suc (su_next s), su_sent := su_sent s @ ?sent, su_open := ?open\<rparr>"
      using send(1) pos(3) by (auto simp: send_iteration_def rd)
    moreover have "delivered auth log0 (log, s\<lparr>su_next := Suc (su_next s), su_sent := su_sent s @ ?sent, su_open := ?open\<rparr>)"
      using event send(1) by (intro delivered_advance [OF send(2)]) (auto simp: one vis)
    ultimately show ?thesis by simp
  qed
next
  case (receive s log m)
  then show ?case by (cases m) (auto simp: receive_iteration_def delivered_def)
qed

lemma ws_steps_delivered:
  assumes "ws_steps c c'" and "delivered auth log0 c"
  shows "delivered auth log0 c'"
  using assms by (induction rule: ws_steps.induct) (auto intro: ws_step_delivered)

text \<open>
  C10. However publishing, sending and receiving interleave, a client is only ever sent payloads of events
  published after it connected that belong to its tenant and that it may see as administrator or as the
  subject concerned; it gets them in order and at most once, and gets all of them
  up to its position as long as it is connected and at most 512 events were published.
\<close>
theorem websocket_delivery:
  assumes "ws_steps (log0, subscribe auth log0) (log, s)"
  shows "\<exists>new. log = log0 @ new \<and> su_next s \<le> length log \<and>
    subseq (su_sent s) (visible_payloads auth (take (su_next s - length log0) new)) \<and>
    (\<forall>p \<in> set (su_sent s). \<exists>e \<in> set new. te_payload e = p \<and> te_tenant_id e = ctx_tenant_id auth \<and>
       (is_tenant_admin auth \<or> te_audience e = SubjectOrTenantAdministrators (ctx_subject auth))) \<and>
    (su_open s \<and> length new \<le> 512 \<longrightarrow>
       su_sent s = visible_payloads auth (take (su_next s - length log0) new))"
proof -
  obtain new where new: "log = log0 @ new" "su_next s \<le> length log"
      "subseq (su_sent s) (visible_payloads auth (take (su_next s - length log0) new))"
      "su_open s \<and> length new \<le> 512 \<longrightarrow> su_sent s = visible_payloads auth (take (su_next s - length log0) new)"
    using ws_steps_delivered [OF assms delivered_subscribe] unfolding delivered_def prod.case by blast
  have "\<exists>e \<in> set new. te_payload e = p \<and> event_visible_to e auth" if "p \<in> set (su_sent s)" for p
  proof -
    have "p \<in> set (visible_payloads auth (take (su_next s - length log0) new))"
      using list_emb_set [OF new(3) that] by auto
    then show ?thesis by (auto simp: visible_payloads_def dest: in_set_takeD)
  qed
  moreover have "te_tenant_id e = ctx_tenant_id auth \<and>
      (is_tenant_admin auth \<or> te_audience e = SubjectOrTenantAdministrators (ctx_subject auth))"
    if "event_visible_to e auth" for e
    using that by (auto simp: event_visible_to_def can_access_owner_def is_tenant_admin_def
        split: if_splits event_audience.splits)
  ultimately show ?thesis
    using new by blast
qed

section \<open>Examples\<close>

definition example_member :: auth_context where
  "example_member = \<lparr>ctx_tenant_id = 7, ctx_subject = lit ''user-1'', ctx_roles = [lit ''member''], ctx_tenant_admin = False\<rparr>"

definition own_event :: tenant_event where
  "own_event = \<lparr>te_tenant_id = 7, te_audience = SubjectOrTenantAdministrators (lit ''user-1''), te_payload = lit ''mine''\<rparr>"

definition admin_event :: tenant_event where
  "admin_event = \<lparr>te_tenant_id = 7, te_audience = TenantAdministrators, te_payload = lit ''admins only''\<rparr>"

lemma example_visible: "event_visible_to own_event example_member" "\<not> event_visible_to admin_event example_member"
  by (simp_all add: event_visible_to_def own_event_def admin_event_def example_member_def
      can_access_owner_def is_tenant_admin_def)

theorem drain_exact_witness:
  "drain [admin_event, own_event] \<lparr>su_auth = example_member, su_next = 0, su_sent = [], su_open = True\<rparr> =
     \<lparr>su_auth = example_member, su_next = 2, su_sent = [lit ''mine''], su_open = True\<rparr>"
  using drain_exact [of "\<lparr>su_auth = example_member, su_next = 0, su_sent = [], su_open = True\<rparr>" "[admin_event, own_event]"]
  by (simp add: visible_payloads_def example_visible) (simp add: own_event_def)

theorem websocket_delivery_witness:
  "\<exists>s. ws_steps ([], subscribe example_member []) ([own_event], s) \<and> su_sent s = [lit ''mine''] \<and>
     subseq (su_sent s) (visible_payloads example_member [own_event])"
proof -
  let ?s = "send_iteration [own_event] True (subscribe example_member [])"
  have "ws_steps ([], subscribe example_member []) ([own_event], subscribe example_member [])"
    using ws_steps.more [OF ws_steps.none ws_step.publish [of "[]" "subscribe example_member []" own_event]] by simp
  then have steps: "ws_steps ([], subscribe example_member []) ([own_event], ?s)"
    by (rule ws_steps.more) (rule ws_step.send, simp add: subscribe_def)
  have s: "?s = \<lparr>su_auth = example_member, su_next = 1, su_sent = [lit ''mine''], su_open = True\<rparr>"
    by (simp add: send_iteration_def recv_def subscribe_def CHANNEL_CAPACITY_def example_visible)
      (simp add: own_event_def)
  have "subseq (su_sent ?s) (visible_payloads example_member [own_event])"
    using websocket_delivery [OF steps] unfolding s by simp
  with steps show ?thesis unfolding s by auto
qed

end
