(* ===== verification/Server_Routes.thy ===== *)
theory Server_Routes
  imports Server_Websocket
begin

text \<open>
  The request handlers (\<^verbatim>\<open>src/server_routes.rs\<close>) and the router. A handler maps the state of the service
  to its result and the state afterwards. It sees the current time, the request headers and the path and body
  already decoded; the order of its checks is that of the code, and a store operation runs on the connected
  database. Publishing appends to the event log. Log lines are not modelled.
\<close>

type_synonym 'a handler = "app_state \<Rightarrow> (http_error + 'a) \<times> app_state"

definition hret :: "'a \<Rightarrow> 'a handler" where
  "hret x st = (Inr x, st)"

definition hseq :: "'a handler \<Rightarrow> ('a \<Rightarrow> 'b handler) \<Rightarrow> 'b handler" where
  "hseq m k st = (case m st of (Inl e, st') \<Rightarrow> (Inl e, st') | (Inr x, st') \<Rightarrow> k x st')"

definition hres :: "http_error + 'a \<Rightarrow> 'a handler" where
  "hres r st = (r, st)"

definition hask :: "(app_state \<Rightarrow> http_error + 'a) \<Rightarrow> 'a handler" where
  "hask f st = (f st, st)"

text \<open>Run a store operation on the database that \<^verbatim>\<open>require_database\<close> returned.\<close>

definition execute :: "'a stmt \<Rightarrow> 'a handler" where
  "execute m st =
     (case as_db st of
        None \<Rightarrow> (Inl HttpError_database_required, st)
      | Some d \<Rightarrow> (case m d of (r, d') \<Rightarrow> (r, st\<lparr>as_db := Some d'\<rparr>)))"

definition require_database :: "app_state \<Rightarrow> http_error + unit" where
  "require_database st =
     (if \<not> as_schema_ready st then Inl HttpError_database_required
      else case as_db st of None \<Rightarrow> Inl HttpError_database_required | Some _ \<Rightarrow> Inr ())"

definition publish_event ::
  "server_deps \<Rightarrow> timestamp \<Rightarrow> uuid \<Rightarrow> event_audience \<Rightarrow> string \<Rightarrow> event_data \<Rightarrow> unit handler" where
  "publish_event D now tenant_id audience event_type data st =
     (case sd_to_json D event_type tenant_id now data of
        Inl e \<Rightarrow> (Inl (HttpError_internal e), st)
      | Inr payload \<Rightarrow>
          (Inr (), st\<lparr>as_events := as_events st @
             [\<lparr>te_tenant_id = tenant_id, te_audience = audience, te_payload = payload\<rparr>]\<rparr>))"

section \<open>Who is asking\<close>

definition authenticated :: "server_deps \<Rightarrow> timestamp \<Rightarrow> headers \<Rightarrow> app_state \<Rightarrow> http_error + auth_context" where
  "authenticated D now headers st =
     authenticate_at (sd_crates D) (as_auth st) headers (sd_unix_seconds D now)"

definition worker_tenant :: "server_deps \<Rightarrow> headers \<Rightarrow> http_error + uuid" where
  "worker_tenant D headers =
     bindr (authorize (sd_hex_decode D) (sha256 (sd_ext D)) (sd_env D) headers) (\<lambda>_.
     tenant_id_from_headers (sd_crates D) headers)"

section \<open>Alert rules\<close>

definition list_records :: "server_deps \<Rightarrow> timestamp \<Rightarrow> headers \<Rightarrow> alert_rule list handler" where
  "list_records D now headers =
     hseq (hask (authenticated D now headers)) (\<lambda>auth.
     hseq (hask require_database) (\<lambda>_.
     execute (list_alert_rules (sd_ext D) (ctx_tenant_id auth) (ctx_subject auth) (is_tenant_admin auth))))"

definition get_record :: "server_deps \<Rightarrow> timestamp \<Rightarrow> headers \<Rightarrow> uuid \<Rightarrow> alert_rule handler" where
  "get_record D now headers i =
     hseq (hask (authenticated D now headers)) (\<lambda>auth.
     hseq (hask require_database) (\<lambda>_.
     hseq (execute (get_alert_rule (sd_ext D) (ctx_tenant_id auth) i (ctx_subject auth) (is_tenant_admin auth))) (\<lambda>rule.
     hres (ok_or (HttpError_not_found (lit ''alert rule was not found'')) rule))))"

definition create_record ::
  "server_deps \<Rightarrow> timestamp \<Rightarrow> headers \<Rightarrow> create_alert_rule_input \<Rightarrow> (nat \<times> alert_rule) handler" where
  "create_record D now headers input =
     hseq (hask (authenticated D now headers)) (\<lambda>auth.
     hseq (hres (map_err HttpError_validation
       (normalized (uuid_parse_str (sd_crates D)) (uuid_to_string (sd_ext D)) input))) (\<lambda>input.
     hseq (hask require_database) (\<lambda>_.
     hseq (execute (create_alert_rule (sd_ext D) now (ctx_tenant_id auth) (ctx_subject auth) input)) (\<lambda>record.
     hseq (publish_event D now (ctx_tenant_id auth) (SubjectOrTenantAdministrators (ctx_subject auth))
       ''alert_rule.created'' (Rule_Data record)) (\<lambda>_.
     hret (201, record))))))"

definition route_upsert_alert_embedding ::
  "server_deps \<Rightarrow> timestamp \<Rightarrow> headers \<Rightarrow> uuid \<Rightarrow> alert_embedding_request \<Rightarrow> (nat \<times> alert_embedding_receipt) handler" where
  "route_upsert_alert_embedding D now headers alert_rule_id input =
     hseq (hres (worker_tenant D headers)) (\<lambda>tenant_id.
     hseq (hres (validated (validate_upsert (sd_interfaces D) input))) (\<lambda>_.
     hseq (hask require_database) (\<lambda>_.
     hseq (execute (upsert_alert_rule_embedding (sd_ext D) (sd_interfaces D) now tenant_id alert_rule_id input)) (\<lambda>receipt.
     hret (if rc_created receipt then 201 else 200, receipt)))))"

section \<open>Sources and pages\<close>

definition route_list_sources :: "server_deps \<Rightarrow> timestamp \<Rightarrow> headers \<Rightarrow> source_policy list handler" where
  "route_list_sources D now headers =
     hseq (hask (authenticated D now headers)) (\<lambda>auth.
     hseq (hask require_database) (\<lambda>_.
     execute (list_sources (ctx_tenant_id auth))))"

definition route_get_source :: "server_deps \<Rightarrow> timestamp \<Rightarrow> headers \<Rightarrow> uuid \<Rightarrow> source_policy handler" where
  "route_get_source D now headers source_id =
     hseq (hask (authenticated D now headers)) (\<lambda>auth.
     hseq (hask require_database) (\<lambda>_.
     hseq (execute (get_source (ctx_tenant_id auth) source_id)) (\<lambda>source.
     hres (ok_or (HttpError_not_found (lit ''source policy was not found'')) source))))"

definition route_create_source ::
  "server_deps \<Rightarrow> timestamp \<Rightarrow> headers \<Rightarrow> create_source_policy \<Rightarrow> (nat \<times> source_policy) handler" where
  "route_create_source D now headers input =
     hseq (hask (authenticated D now headers)) (\<lambda>auth.
     hseq (hres (require_tenant_admin auth)) (\<lambda>_.
     hseq (hres (validated (validate_source (sd_interfaces D) input))) (\<lambda>_.
     hseq (hres (map_err HttpError_validation (canonicalize_source_root (sd_url D) input))) (\<lambda>canonical_root.
     hseq (hask require_database) (\<lambda>_.
     hseq (execute (create_source (sd_ext D) now (ctx_tenant_id auth) input canonical_root)) (\<lambda>source.
     hseq (publish_event D now (ctx_tenant_id auth) TenantAdministrators ''source.created'' (Source_Data source)) (\<lambda>_.
     hret (201, source))))))))"

text \<open>The checks both page routes make on the source and the two URLs, once the database is known.\<close>

definition page_source ::
  "server_deps \<Rightarrow> uuid \<Rightarrow> uuid \<Rightarrow> rstr \<Rightarrow> rstr \<Rightarrow> (rstr \<times> rstr) handler" where
  "page_source D tenant_id source_id url final_url =
     hseq (execute (get_source tenant_id source_id)) (\<lambda>source.
     hseq (hres (ok_or (HttpError_not_found (lit ''source policy was not found'')) source)) (\<lambda>source.
     hseq (hres (if \<not> sp_enabled source then Inl (HttpError_validation (lit ''source policy is disabled'')) else Inr ())) (\<lambda>_.
     hseq (hres (map_err HttpError_validation (canonicalize_for_source (sd_url D) source url))) (\<lambda>canonical_original.
     hseq (hres (map_err HttpError_validation (canonicalize_for_source (sd_url D) source final_url))) (\<lambda>canonical_final.
     hret (canonical_original, canonical_final))))))"

definition same_source_id :: "uuid \<Rightarrow> uuid \<Rightarrow> http_error + unit" where
  "same_source_id body_id path_id =
     (if body_id \<noteq> path_id
      then Inl (HttpError_bad_request (lit ''body source_id must match the source_id route parameter'')) else Inr ())"

definition route_ingest_page ::
  "server_deps \<Rightarrow> timestamp \<Rightarrow> headers \<Rightarrow> uuid \<Rightarrow> page_ingest_request \<Rightarrow> (nat \<times> page_revision) handler" where
  "route_ingest_page D now headers source_id input =
     hseq (hres (worker_tenant D headers)) (\<lambda>tenant_id.
     hseq (hres (validated (validate_page (sd_interfaces D) input))) (\<lambda>_.
     hseq (hres (same_source_id (pi_source_id input) source_id)) (\<lambda>_.
     hseq (hask require_database) (\<lambda>_.
     hseq (page_source D tenant_id source_id (pi_url input) (pi_final_url input)) (\<lambda>(original, final).
     hseq (execute (ingest_page (sd_ext D) now tenant_id source_id input original final)) (\<lambda>revision.
     hseq (publish_event D now tenant_id TenantAdministrators ''page.revision_indexed'' (Revision_Data revision)) (\<lambda>_.
     hret (if pv_changed revision then 201 else 200, revision))))))))"

definition reverse_match_page ::
  "server_deps \<Rightarrow> timestamp \<Rightarrow> headers \<Rightarrow> uuid \<Rightarrow> reverse_page_request \<Rightarrow> (nat \<times> reverse_match_response) handler" where
  "reverse_match_page D now headers source_id input =
     hseq (hres (worker_tenant D headers)) (\<lambda>tenant_id.
     hseq (hres (validated (validate_reverse (sd_interfaces D) input))) (\<lambda>_.
     hseq (hres (same_source_id (rp_source_id input) source_id)) (\<lambda>_.
     hseq (hask require_database) (\<lambda>_.
     hseq (page_source D tenant_id source_id (rp_url input) (rp_final_url input)) (\<lambda>(original, final).
     hseq (execute (ingest_and_reverse_match (sd_ext D) (sd_interfaces D) now tenant_id source_id input original final)) (\<lambda>response.
     hseq (publish_event D now tenant_id TenantAdministrators ''page.reverse_match_completed'' (Reverse_Data response)) (\<lambda>_.
     hret (if rm_changed response then 201 else 200, response))))))))"

section \<open>Search and evaluation\<close>

definition route_search_embeddings ::
  "server_deps \<Rightarrow> timestamp \<Rightarrow> headers \<Rightarrow> embedding_search_request
    \<Rightarrow> (embedding_search_hit list \<times> search_cursor option) handler" where
  "route_search_embeddings D now headers input =
     hseq (hask (authenticated D now headers)) (\<lambda>auth.
     hseq (hres (validated (validate_search (sd_interfaces D) input))) (\<lambda>_.
     hseq (hask require_database) (\<lambda>_.
     hseq (execute (search_embeddings (sd_ext D) (ctx_tenant_id auth) input)) (\<lambda>page.
     hret (pa_hits page, pa_next_cursor page)))))"

definition require_enabled_alert_rule :: "bool \<Rightarrow> http_error + unit" where
  "require_enabled_alert_rule enabled =
     (if enabled then Inr () else Inl (HttpError_validation (lit ''alert rule is disabled'')))"

record evaluate_matches_request =
  em_alert_rule_id :: uuid
  em_threshold :: f64
  em_search :: embedding_search_request

definition publish_candidates ::
  "server_deps \<Rightarrow> timestamp \<Rightarrow> uuid \<Rightarrow> rstr \<Rightarrow> candidate_row list \<Rightarrow> unit handler" where
  "publish_candidates D now tenant_id owner candidates =
     fold (\<lambda>candidate m. hseq m (\<lambda>_. publish_event D now tenant_id (SubjectOrTenantAdministrators owner)
       ''match.candidate'' (Candidate_Data candidate))) candidates (hret ())"

definition route_evaluate_matches ::
  "server_deps \<Rightarrow> timestamp \<Rightarrow> headers \<Rightarrow> evaluate_matches_request \<Rightarrow> candidate_row list handler" where
  "route_evaluate_matches D now headers input =
     (let alert_rule_id = em_alert_rule_id input; requested_threshold = em_threshold input; search = em_search input in
     hseq (hask (authenticated D now headers)) (\<lambda>auth.
     hseq (hres (if \<not> is_finite64 requested_threshold \<or> \<not> in_unit64 requested_threshold
       then Inl (HttpError_validation (lit ''threshold must be finite and between 0 and 1'')) else Inr ())) (\<lambda>_.
     hseq (hres (validated (validate_search (sd_interfaces D) search))) (\<lambda>_.
     hseq (hask require_database) (\<lambda>_.
     hseq (execute (require_alert_rule (sd_ext D) (ctx_tenant_id auth) alert_rule_id (ctx_subject auth) (is_tenant_admin auth))) (\<lambda>rule.
     hseq (hres (require_enabled_alert_rule (ar_enabled rule))) (\<lambda>_.
     hseq (hres (if ep_model (es_embedding search) \<noteq> ar_embedding_model rule
       then Inl (HttpError_validation (lit ''search embedding model must match the active alert-rule revision'')) else Inr ())) (\<lambda>_.
     hseq (hres (map_err (\<lambda>e. HttpError_validation (source_scope_error_fmt e))
       (constrain_search_sources (uuid_parse_str (sd_crates D)) (ar_source_filters rule) (es_source_ids search)))) (\<lambda>source_ids.
     let search = search\<lparr>es_source_ids := source_ids\<rparr> in
     hseq (hres (validated (validate_search (sd_interfaces D) search))) (\<lambda>_.
     let threshold = max64 requested_threshold (f64_from (ar_similarity_threshold rule)) in
     hseq (execute (evaluate_matches (sd_ext D) now (ctx_tenant_id auth) alert_rule_id (ar_revision_id rule) threshold search)) (\<lambda>candidates.
     hseq (publish_candidates D now (ctx_tenant_id auth) (ar_owner_subject rule) candidates) (\<lambda>_.
     hret candidates))))))))))))"

definition ws_upgrade :: "server_deps \<Rightarrow> timestamp \<Rightarrow> headers \<Rightarrow> subscriber handler" where
  "ws_upgrade D now headers =
     hseq (hask (authenticated D now headers)) (\<lambda>auth.
     hseq (hask (\<lambda>st. authorize_websocket_origin headers (as_allowed_origins st))) (\<lambda>_.
     hask (\<lambda>st. Inr (subscribe auth (as_events st)))))"

section \<open>The router\<close>

datatype request =
    Health_Request
  | List_Records
  | Get_Record uuid
  | Create_Record create_alert_rule_input
  | Upsert_Alert_Embedding uuid alert_embedding_request
  | List_Sources
  | Get_Source uuid
  | Create_Source create_source_policy
  | Ingest_Page uuid page_ingest_request
  | Reverse_Match_Page uuid reverse_page_request
  | Search_Embeddings embedding_search_request
  | Evaluate_Matches evaluate_matches_request
  | Ws_Upgrade

datatype body =
    Health_Body health
  | Rules_Body "alert_rule list"
  | Rule_Body alert_rule
  | Receipt_Body alert_embedding_receipt
  | Sources_Body "source_policy list"
  | Source_Body source_policy
  | Revision_Body page_revision
  | Reverse_Body reverse_match_response
  | Search_Body "embedding_search_hit list" "search_cursor option"
  | Candidates_Body "candidate_row list"
  | Socket_Body subscriber

definition hmap :: "('a \<Rightarrow> 'b) \<Rightarrow> 'a handler \<Rightarrow> 'b handler" where
  "hmap f m = hseq m (\<lambda>x. hret (f x))"

fun route :: "server_deps \<Rightarrow> timestamp \<Rightarrow> headers \<Rightarrow> request \<Rightarrow> (nat \<times> body) handler" where
  "route D now h Health_Request = hask (\<lambda>st. Inr (200, Health_Body (health_of st)))"
| "route D now h List_Records = hmap (\<lambda>r. (200, Rules_Body r)) (list_records D now h)"
| "route D now h (Get_Record i) = hmap (\<lambda>r. (200, Rule_Body r)) (get_record D now h i)"
| "route D now h (Create_Record input) = hmap (apsnd Rule_Body) (create_record D now h input)"
| "route D now h (Upsert_Alert_Embedding i input) =
     hmap (apsnd Receipt_Body) (route_upsert_alert_embedding D now h i input)"
| "route D now h List_Sources = hmap (\<lambda>r. (200, Sources_Body r)) (route_list_sources D now h)"
| "route D now h (Get_Source i) = hmap (\<lambda>r. (200, Source_Body r)) (route_get_source D now h i)"
| "route D now h (Create_Source input) = hmap (apsnd Source_Body) (route_create_source D now h input)"
| "route D now h (Ingest_Page i input) = hmap (apsnd Revision_Body) (route_ingest_page D now h i input)"
| "route D now h (Reverse_Match_Page i input) = hmap (apsnd Reverse_Body) (reverse_match_page D now h i input)"
| "route D now h (Search_Embeddings input) =
     hmap (\<lambda>(hits, cursor). (200, Search_Body hits cursor)) (route_search_embeddings D now h input)"
| "route D now h (Evaluate_Matches input) = hmap (\<lambda>r. (200, Candidates_Body r)) (route_evaluate_matches D now h input)"
| "route D now h Ws_Upgrade = hmap (\<lambda>s. (101, Socket_Body s)) (ws_upgrade D now h)"

end
