(* ===== verification/Api.thy ===== *)
theory Api
  imports Server_Routes
begin

text \<open>
  The service as a whole: what any request may do to the state, and what holds after any sequence
  of requests. The contract between the handlers and the store is the locale \<open>state_relation\<close>: a relation
  between the states before and after that store operations and published events establish is
  established by every handler built from them. It is interpreted on the frame of a tenant.
\<close>

section \<open>Relations that every handler establishes\<close>

locale state_relation =
  fixes R :: "app_state \<Rightarrow> app_state \<Rightarrow> bool"
    and S :: "db \<Rightarrow> db \<Rightarrow> bool"
    and V :: "tenant_event \<Rightarrow> bool"
  assumes R_refl: "R st st"
    and R_trans: "R a b \<Longrightarrow> R b c \<Longrightarrow> R a c"
    and R_db: "as_db st = Some d \<Longrightarrow> S d d' \<Longrightarrow> R st (st\<lparr>as_db := Some d'\<rparr>)"
    and R_event: "V e \<Longrightarrow> R st (st\<lparr>as_events := as_events st @ [e]\<rparr>)"
begin

lemma H_ret: "R st (snd (hret x st))"
  by (simp add: hret_def R_refl)

lemma H_res: "R st (snd (hres r st))"
  by (simp add: hres_def R_refl)

lemma H_ask: "R st (snd (hask f st))"
  by (simp add: hask_def R_refl)

lemma H_seq:
  assumes "\<And>st. R st (snd (m st))" and "\<And>x st. R st (snd (k x st))"
  shows "R st (snd (hseq m k st))"
  using assms(1) [of st] assms(2) by (auto simp: hseq_def intro: R_trans split: prod.splits sum.splits)

lemma H_map: "(\<And>st. R st (snd (m st))) \<Longrightarrow> R st (snd (hmap f m st))"
  unfolding hmap_def by (rule H_seq) (auto intro: H_ret)

lemma H_execute:
  assumes "\<And>d. S d (snd (m d))"
  shows "R st (snd (execute m st))"
  using assms by (auto simp: execute_def R_refl intro!: R_db split: option.splits prod.splits)
    (metis snd_conv)+

lemma H_publish:
  assumes "\<And>payload. V \<lparr>te_tenant_id = t, te_audience = a, te_payload = payload\<rparr>"
  shows "R st (snd (publish_event D now t a ty x st))"
  using assms by (auto simp: publish_event_def R_refl intro: R_event split: sum.splits)

lemma H_publish_candidates:
  assumes "\<And>payload. V \<lparr>te_tenant_id = t, te_audience = SubjectOrTenantAdministrators owner, te_payload = payload\<rparr>"
  shows "R st (snd (publish_candidates D now t owner cs st))"
proof -
  have all: "\<forall>st. R st (snd (fold (\<lambda>c m. hseq m (\<lambda>_. publish_event D now t (SubjectOrTenantAdministrators owner)
      ''match.candidate'' (Candidate_Data c))) cs m st))" if "\<forall>st. R st (snd (m st))" for m
    using that
  proof (induction cs arbitrary: m)
    case (Cons c cs)
    have step: "\<forall>st. R st (snd (hseq m (\<lambda>_. publish_event D now t (SubjectOrTenantAdministrators owner)
        ''match.candidate'' (Candidate_Data c)) st))"
      by (intro allI H_seq H_publish assms) (rule Cons.prems [rule_format])
    show ?case using Cons.IH [OF step] by simp
  qed simp
  have "\<forall>st. R st (snd (hret () st))" by (simp add: H_ret)
  from all [OF this] show ?thesis
    by (simp add: publish_candidates_def)
qed

lemma H_prod: "(\<And>a b. R st (snd (f a b st))) \<Longrightarrow> R st (snd (case_prod f p st))"
  by (cases p) simp

lemmas H_intros = H_prod H_ret H_res H_ask H_seq H_map H_execute H_publish H_publish_candidates

end

section \<open>The frame of a tenant\<close>

text \<open>
  A request of a tenant leaves the configuration alone; it keeps the constraints of the tables and
  the evidence, changes rows of that tenant only, and publishes events of that tenant only.
\<close>

definition state_frame :: "uuid \<Rightarrow> app_state \<Rightarrow> app_state \<Rightarrow> bool" where
  "state_frame t st st' \<longleftrightarrow>
     st' = st\<lparr>as_db := as_db st', as_events := as_events st'\<rparr> \<and>
     rel_option (sound_step t) (as_db st) (as_db st') \<and>
     (\<exists>es. as_events st' = as_events st @ es \<and> list_all (\<lambda>e. te_tenant_id e = t) es)"

lemma rel_option_trans:
  assumes "\<And>a b c. R a b \<Longrightarrow> R b c \<Longrightarrow> R a c" and "rel_option R x y" and "rel_option R y z"
  shows "rel_option R x z"
  using assms(2,3) by (cases x; cases y; cases z; simp) (rule assms(1))

interpretation framed: state_relation "state_frame t" "sound_step t" "\<lambda>e. te_tenant_id e = t" for t
proof
  fix st a b c :: app_state and d d' :: db and e :: tenant_event
  show "state_frame t st st"
    by (simp add: state_frame_def option.rel_refl sound.R_refl)
  show "state_frame t a c" if "state_frame t a b" "state_frame t b c"
  proof -
    have "c = a\<lparr>as_db := as_db c, as_events := as_events c\<rparr>"
      using that unfolding state_frame_def by (cases a; cases b; cases c) simp
    moreover have "rel_option (sound_step t) (as_db a) (as_db c)"
      using that sound.R_trans rel_option_trans [of "sound_step t" "as_db a" "as_db b" "as_db c"]
      unfolding state_frame_def by blast
    moreover have "\<exists>es. as_events c = as_events a @ es \<and> list_all (\<lambda>e. te_tenant_id e = t) es"
      using that unfolding state_frame_def by (elim conjE exE) simp
    ultimately show ?thesis unfolding state_frame_def by (intro conjI)
  qed
  show "state_frame t st (st\<lparr>as_db := Some d'\<rparr>)" if "as_db st = Some d" "sound_step t d d'"
    using that by (simp add: state_frame_def)
  show "state_frame t st (st\<lparr>as_events := as_events st @ [e]\<rparr>)" if "te_tenant_id e = t"
    using that by (simp add: state_frame_def option.rel_refl sound.R_refl)
qed

lemma read_sound:
  "sound_step t db (snd (list_alert_rules E t' s a db))" "sound_step t db (snd (get_alert_rule E t' i s a db))"
  "sound_step t db (snd (require_alert_rule E t' i s a db))" "sound_step t db (snd (list_sources t' db))"
  "sound_step t db (snd (get_source t' i db))" "sound_step t db (snd (search_embeddings E t' request db))"
  unfolding read_only_rules search_embeddings_read_only list_sources_def get_source_def
  by (auto intro: sound.R_settings sound.R_query sound.R_refl)

lemma create_alert_rule_sound: "sound_step t db (snd (create_alert_rule E now t s inp db))"
  unfolding sound_step_def
  by (intro conjI create_alert_rule_wf create_alert_rule_evidence create_alert_rule_frame)

lemmas store_sound = read_sound create_alert_rule_sound create_source_sound ingest_page_sound
  evaluate_matches_sound upsert_alert_rule_embedding_sound ingest_and_reverse_match_sound

section \<open>The tenant of a request\<close>

text \<open>
  The tenant for which a request acts: the one of the verified identity, or for the worker routes the one of
  the tenant header of an authorised crawler. Health acts for none, and neither does a request
  that is not authenticated.
\<close>

fun request_tenant :: "server_deps \<Rightarrow> timestamp \<Rightarrow> headers \<Rightarrow> request \<Rightarrow> app_state \<Rightarrow> uuid option" where
  "request_tenant D now h Health_Request st = None"
| "request_tenant D now h (Upsert_Alert_Embedding _ _) st = (case worker_tenant D h of Inl _ \<Rightarrow> None | Inr t \<Rightarrow> Some t)"
| "request_tenant D now h (Ingest_Page _ _) st = (case worker_tenant D h of Inl _ \<Rightarrow> None | Inr t \<Rightarrow> Some t)"
| "request_tenant D now h (Reverse_Match_Page _ _) st = (case worker_tenant D h of Inl _ \<Rightarrow> None | Inr t \<Rightarrow> Some t)"
| "request_tenant D now h _ st = (case authenticated D now h st of Inl _ \<Rightarrow> None | Inr auth \<Rightarrow> Some (ctx_tenant_id auth))"

lemma authenticated_error: "authenticated D now h st = Inl e \<Longrightarrow> err_status e = 401"
  unfolding authenticated_def by (rule authenticate_error)

lemma worker_tenant_error: "worker_tenant D h = Inl e \<Longrightarrow> err_status e = 401 \<or> e = HttpError_ingest_auth_required"
  by (auto simp: worker_tenant_def authorize_def invalid_credentials_def tenant_id_from_headers_def bindr_eq_Inl
      split: if_splits option.splits)

text \<open>A handler behind a check acts within the frame of the tenant the check returns, or fails with its error.\<close>

definition guarded :: "(app_state \<Rightarrow> http_error + 'i) \<Rightarrow> ('i \<Rightarrow> uuid) \<Rightarrow> 'a handler \<Rightarrow> bool" where
  "guarded check tenant m \<longleftrightarrow>
     (\<forall>st. case check st of Inl e \<Rightarrow> m st = (Inl e, st) | Inr i \<Rightarrow> state_frame (tenant i) st (snd (m st)))"

lemma guarded_ask:
  assumes "\<And>i st. state_frame (tenant i) st (snd (k i st))"
  shows "guarded check tenant (hseq (hask check) k)"
  using assms by (auto simp: guarded_def hseq_def hask_def split: sum.splits)

lemma guarded_res:
  assumes "\<And>i st. state_frame (tenant i) st (snd (k i st))"
  shows "guarded (\<lambda>_. r) tenant (hseq (hres r) k)"
  using assms by (auto simp: guarded_def hseq_def hres_def split: sum.splits)

lemma guarded_hmap: "guarded check tenant m \<Longrightarrow> guarded check tenant (hmap f m)"
  unfolding guarded_def hmap_def
  by (auto simp: hseq_def hret_def split: sum.splits prod.splits) (metis snd_conv)+

lemmas frame_intros = framed.H_intros store_sound

lemma user_routes:
  "guarded (authenticated D now h) ctx_tenant_id (list_records D now h)"
  "guarded (authenticated D now h) ctx_tenant_id (get_record D now h i)"
  "guarded (authenticated D now h) ctx_tenant_id (create_record D now h rule_input)"
  "guarded (authenticated D now h) ctx_tenant_id (route_list_sources D now h)"
  "guarded (authenticated D now h) ctx_tenant_id (route_get_source D now h i)"
  "guarded (authenticated D now h) ctx_tenant_id (route_create_source D now h source_input)"
  "guarded (authenticated D now h) ctx_tenant_id (route_search_embeddings D now h search)"
  "guarded (authenticated D now h) ctx_tenant_id (route_evaluate_matches D now h evaluation)"
  "guarded (authenticated D now h) ctx_tenant_id (ws_upgrade D now h)"
  unfolding list_records_def get_record_def create_record_def route_list_sources_def route_get_source_def
    route_create_source_def route_search_embeddings_def route_evaluate_matches_def ws_upgrade_def Let_def
  by (rule guarded_ask; (intro frame_intros)?; simp)+

lemma worker_routes:
  "guarded (\<lambda>_. worker_tenant D h) (\<lambda>t. t) (route_upsert_alert_embedding D now h i embedding)"
  "guarded (\<lambda>_. worker_tenant D h) (\<lambda>t. t) (route_ingest_page D now h i page)"
  "guarded (\<lambda>_. worker_tenant D h) (\<lambda>t. t) (reverse_match_page D now h i reverse)"
  unfolding route_upsert_alert_embedding_def route_ingest_page_def reverse_match_page_def page_source_def
  by (rule guarded_res; (intro frame_intros)?; simp)+

lemma guardedD:
  assumes "guarded check tenant m" and "\<And>e. check st = Inl e \<Longrightarrow> err_status e = 401 \<or> err_status e = 503"
    and "m st = (r, st')"
  shows "case (case check st of Inl _ \<Rightarrow> None | Inr i \<Rightarrow> Some (tenant i)) of
      None \<Rightarrow> st' = st \<and> (\<exists>e. r = Inl e \<and> (err_status e = 401 \<or> err_status e = 503))
    | Some t \<Rightarrow> state_frame t st st'"
proof (cases "check st")
  case (Inl e)
  have "m st = (Inl e, st)"
    using assms(1) [unfolded guarded_def, THEN spec [of _ st]] by (simp add: Inl)
  with assms(3) Inl assms(2) [OF Inl] show ?thesis
    by auto
next
  case (Inr i)
  have "state_frame (tenant i) st (snd (m st))"
    using assms(1) [unfolded guarded_def, THEN spec [of _ st]] by (simp add: Inr)
  with assms(3) Inr show ?thesis
    by simp
qed

lemma route_frame:
  assumes "route D now h req st = (r, st')"
  shows "case request_tenant D now h req st of
      None \<Rightarrow> st' = st \<and> (req = Health_Request \<or> (\<exists>e. r = Inl e \<and> (err_status e = 401 \<or> err_status e = 503)))
    | Some t \<Rightarrow> state_frame t st st'"
proof -
  have user: ?thesis if "guarded (authenticated D now h) ctx_tenant_id (route D now h req)"
      "request_tenant D now h req st = (case authenticated D now h st of Inl _ \<Rightarrow> None | Inr auth \<Rightarrow> Some (ctx_tenant_id auth))"
    using guardedD [OF that(1) _ assms] authenticated_error unfolding that(2)
    by (auto split: sum.splits option.splits)
  have worker: ?thesis if "guarded (\<lambda>_. worker_tenant D h) (\<lambda>t. t) (route D now h req)"
      "request_tenant D now h req st = (case worker_tenant D h of Inl _ \<Rightarrow> None | Inr t \<Rightarrow> Some t)"
    using guardedD [OF that(1) _ assms] that(2) worker_tenant_error by (fastforce split: sum.splits)
  show ?thesis
  proof (cases req)
    case Health_Request
    with assms show ?thesis by (simp add: hask_def)
  qed (rule user worker; simp add: guarded_hmap user_routes worker_routes)+
qed

section \<open>Sequences of requests\<close>

text \<open>The requests of a run, one after the other: each with its time and headers.\<close>

type_synonym call = "timestamp \<times> headers \<times> request"

fun serve :: "server_deps \<Rightarrow> app_state \<Rightarrow> call list \<Rightarrow> (http_error + nat \<times> body) list \<times> app_state" where
  "serve D st [] = ([], st)"
| "serve D st ((now, h, req) # calls) =
     (case route D now h req st of (r, st1) \<Rightarrow>
        (case serve D st1 calls of (rs, st2) \<Rightarrow> (r # rs, st2)))"

text \<open>The rows of one tenant.\<close>

definition owned :: "('r \<Rightarrow> uuid) \<Rightarrow> uuid \<Rightarrow> 'r list \<Rightarrow> 'r list" where
  "owned tenant_of tenant t = filter (\<lambda>r. tenant_of r = tenant) t"

definition same_rows :: "uuid \<Rightarrow> db \<Rightarrow> db \<Rightarrow> bool" where
  "same_rows t db db' \<longleftrightarrow>
     db_bypass_rls db' = db_bypass_rls db \<and>
     owned sp_tenant_id t (db_sources db') = owned sp_tenant_id t (db_sources db) \<and>
     owned pg_tenant_id t (db_pages db') = owned pg_tenant_id t (db_pages db) \<and>
     owned pr_tenant_id t (db_page_revisions db') = owned pr_tenant_id t (db_page_revisions db) \<and>
     owned em_tenant_id t (db_embeddings db') = owned em_tenant_id t (db_embeddings db) \<and>
     owned mc_tenant_id t (db_candidates db') = owned mc_tenant_id t (db_candidates db) \<and>
     owned rl_tenant_id t (db_rules db') = owned rl_tenant_id t (db_rules db) \<and>
     owned rv_tenant_id t (db_rule_revisions db') = owned rv_tenant_id t (db_rule_revisions db) \<and>
     owned ae_tenant_id t (db_alert_embeddings db') = owned ae_tenant_id t (db_alert_embeddings db)"

lemma owned_foreign:
  assumes "foreign f u ys = foreign f u xs" and "t \<noteq> u"
  shows "owned f t ys = owned f t xs"
proof -
  have "owned f t zs = filter (\<lambda>r. f r = t) (foreign f u zs)" for zs
    unfolding owned_def foreign_def filter_filter by (rule filter_cong) (use assms(2) in auto)
  with assms(1) show ?thesis by simp
qed

lemma frame_rows:
  assumes "t \<noteq> u" and "sound_step u db db'"
  shows "same_rows t db db'"
  using assms(2) unfolding sound_step_def tenant_frame_def same_rows_def evidence_kept_def
  by (elim conjE, intro conjI) (assumption | erule owned_foreign [OF _ assms(1)])+

definition visible_events :: "uuid \<Rightarrow> tenant_event list \<Rightarrow> tenant_event list" where
  "visible_events t = filter (\<lambda>e. te_tenant_id e = t)"

text \<open>What a run keeps: the configuration, the constraints, the evidence, and the order of the events.\<close>

definition kept :: "app_state \<Rightarrow> app_state \<Rightarrow> bool" where
  "kept st st' \<longleftrightarrow>
     st' = st\<lparr>as_db := as_db st', as_events := as_events st'\<rparr> \<and>
     rel_option (\<lambda>d d'. wf_kept d d' \<and> evidence_kept d d') (as_db st) (as_db st') \<and>
     appended (as_events st) (as_events st')"

definition untouched :: "uuid \<Rightarrow> app_state \<Rightarrow> app_state \<Rightarrow> bool" where
  "untouched t st st' \<longleftrightarrow> rel_option (same_rows t) (as_db st) (as_db st') \<and>
     visible_events t (as_events st') = visible_events t (as_events st)"

lemma kept_refl: "kept st st"
  by (simp add: kept_def option.rel_refl wf.R_refl evidence.R_refl)

lemma untouched_refl: "untouched t st st"
  by (simp add: untouched_def option.rel_refl same_rows_def)

lemma frame_kept: "state_frame t st st' \<Longrightarrow> kept st st'"
  by (auto simp: state_frame_def kept_def sound_step_def elim!: option.rel_mono_strong)

lemma frame_untouched:
  assumes "state_frame u st st'" and "t \<noteq> u"
  shows "untouched t st st'"
proof -
  from assms(1) obtain es where es: "as_events st' = as_events st @ es" "list_all (\<lambda>e. te_tenant_id e = u) es"
    and d: "rel_option (sound_step u) (as_db st) (as_db st')"
    unfolding state_frame_def by blast
  have "visible_events t es = []"
    using es(2) assms(2) by (auto simp: visible_events_def filter_empty_conv list_all_iff)
  moreover have "rel_option (same_rows t) (as_db st) (as_db st')"
    using d frame_rows [OF assms(2)] by (auto elim: option.rel_mono_strong)
  ultimately show ?thesis
    by (simp add: untouched_def es(1) visible_events_def)
qed

lemma kept_trans:
  assumes "kept a b" and "kept b c"
  shows "kept a c"
proof -
  have "c = a\<lparr>as_db := as_db c, as_events := as_events c\<rparr>"
    using assms unfolding kept_def by (cases a; cases b; cases c) simp
  moreover have "rel_option (\<lambda>d d'. wf_kept d d' \<and> evidence_kept d d') (as_db a) (as_db c)"
    by (rule rel_option_trans [of _ _ "as_db b"])
      (use assms in \<open>auto simp: kept_def intro: wf.R_trans evidence.R_trans\<close>)
  moreover have "appended (as_events a) (as_events c)"
    using assms appended_trans unfolding kept_def by blast
  ultimately show ?thesis
    unfolding kept_def by (intro conjI)
qed

lemma untouched_trans:
  assumes "untouched t a b" and "untouched t b c"
  shows "untouched t a c"
  using assms rel_option_trans [of "same_rows t" "as_db a" "as_db b" "as_db c"]
  unfolding untouched_def same_rows_def by auto

lemma kept_auth: "kept st st' \<Longrightarrow> as_auth st' = as_auth st"
  unfolding kept_def by (cases st; cases st') simp

lemma request_tenant_auth:
  "as_auth st' = as_auth st \<Longrightarrow> request_tenant D now h req st' = request_tenant D now h req st"
  by (cases req) (simp_all add: authenticated_def)

lemma route_kept: "route D now h req st = (r, st') \<Longrightarrow> kept st st'"
  using route_frame [of D now h req st r st'] frame_kept kept_refl by (auto split: option.splits)

lemma route_untouched:
  assumes "route D now h req st = (r, st')" and "request_tenant D now h req st \<noteq> Some t"
  shows "untouched t st st'"
  using route_frame [OF assms(1)] frame_untouched assms(2) untouched_refl by (auto split: option.splits)

lemma serve_kept: "serve D st calls = (rs, st') \<Longrightarrow> kept st st' \<and> length rs = length calls"
  by (induction D st calls arbitrary: rs rule: serve.induct)
    (auto split: prod.splits intro: kept_refl kept_trans route_kept)

lemma serve_untouched:
  assumes "serve D st calls = (rs, st')"
    and "list_all (\<lambda>(now, h, req). request_tenant D now h req st \<noteq> Some t) calls"
  shows "untouched t st st'"
  using assms
proof (induction D st calls arbitrary: rs rule: serve.induct)
  case (1 D st)
  then show ?case by (simp add: untouched_refl)
next
  case (2 D st now h req calls)
  obtain r st1 where r: "route D now h req st = (r, st1)"
    by (cases "route D now h req st")
  moreover obtain rs1 where "serve D st1 calls = (rs1, st')"
    using 2(2) r by (auto split: prod.splits)
  moreover have "as_auth st1 = as_auth st"
    using route_kept [OF r] by (rule kept_auth)
  ultimately have "untouched t st1 st'"
    using 2(1) [OF r [symmetric]] 2(3) by (simp add: request_tenant_auth [of st1 st])
  moreover have "untouched t st st1"
    using route_untouched [OF r] 2(3) by simp
  ultimately show ?case
    by (rule untouched_trans [rotated])
qed

section \<open>Properties\<close>

text \<open>
  C1. A request stays within its tenant. The tenant is that of the verified identity, or for a crawler the one of
  its tenant header. Whatever the request does, on every path and every error, configuration and the
  rows of all other tenants are as before, the constraints of the tables and the evidence are kept, and the
  events it publishes are of that tenant. A request without a tenant changes nothing and, unless it
  asks for the health of the service, is refused with status 401, or 503 when no crawler token is configured.
\<close>

theorem api_isolation:
  assumes "route D now h req st = (r, st')"
  shows "case request_tenant D now h req st of
      None \<Rightarrow> st' = st \<and> (req = Health_Request \<or> (\<exists>e. r = Inl e \<and> (err_status e = 401 \<or> err_status e = 503)))
    | Some t \<Rightarrow> state_frame t st st'"
  using assms by (rule route_frame)

text \<open>
  C2. After any sequence of requests, of any tenants and with any outcomes, the configuration is as before,
  a database that satisfied its constraints still does, no stored evidence was removed or changed, and events
  were only appended; every request was answered. A tenant for which none of the requests acted has the rows it
  had before in every table, and no event of it was published.
\<close>

theorem served_invariant:
  assumes "serve D st calls = (rs, st')"
  shows "length rs = length calls \<and> st' = st\<lparr>as_db := as_db st', as_events := as_events st'\<rparr> \<and>
    rel_option (\<lambda>d d'. (db_wf d \<longrightarrow> db_wf d') \<and> evidence_kept d d') (as_db st) (as_db st') \<and>
    appended (as_events st) (as_events st') \<and>
    (\<forall>t. list_all (\<lambda>(now, h, req). request_tenant D now h req st \<noteq> Some t) calls \<longrightarrow>
       rel_option (same_rows t) (as_db st) (as_db st') \<and>
       visible_events t (as_events st') = visible_events t (as_events st))"
  using serve_kept [OF assms] serve_untouched [OF assms] unfolding kept_def untouched_def wf_kept_def by blast

section \<open>Examples\<close>

definition api_deps :: server_deps where
  "api_deps = (example_deps production_env)\<lparr>sd_crates := example_crates\<lparr>uuid_parse_str := parse_hyphenated\<rparr>\<rparr>"

definition api_headers :: headers where
  "api_headers = [(''x-eal-tenant-id'', as_bytes (hyphenated 7)), (''x-eal-subject-id'', as_bytes (lit ''user-1'')),
     (''x-eal-roles'', as_bytes (lit ''member''))]"

definition api_state :: "db \<Rightarrow> app_state" where
  "api_state d = \<lparr>as_environment = Development, as_db = Some d, as_schema_ready = True,
     as_ingest_auth_configured = True, as_events = [], as_auth = \<lparr>ac_mode = InsecureHeaders, ac_cookie_name = []\<rparr>,
     as_allowed_origins = [], as_supabase_url = None\<rparr>"

lemma api_authenticated: "authenticated api_deps now api_headers (api_state d) = Inr example_member"
proof -
  have "insecure_context (sd_crates api_deps) api_headers = Inr example_member"
    by code_simp
  then show ?thesis
    by (simp add: authenticated_def authenticate_at_def api_state_def)
qed

lemma api_unauthenticated: "\<exists>e. authenticated api_deps now [] (api_state d) = Inl e"
  by (simp add: authenticated_def authenticate_at_def api_state_def insecure_context_def tenant_id_from_headers_def
      header_get_def bindr_def ok_or_def)

lemmas handler_defs = hmap_def hseq_def hask_def hres_def hret_def execute_def publish_event_def

lemma api_ready:
  "require_database (api_state d) = Inr ()" "as_db (api_state d) = Some d" "as_events (api_state d) = []"
  "as_auth (api_state d) = \<lparr>ac_mode = InsecureHeaders, ac_cookie_name = []\<rparr>"
  by (simp_all add: require_database_def api_state_def)

lemma api_create:
  "\<exists>e st'. route api_deps 5 api_headers (Create_Record example_rule) (api_state (empty_db False)) =
     (Inr (201, Rule_Body (rule_of_input 1 2 5 7 (lit ''user-1'') example_rule_normal)), st') \<and>
     as_db st' = Some example_db \<and> as_events st' = [e] \<and> te_tenant_id e = 7"
proof -
  have n: "normalized (uuid_parse_str (sd_crates api_deps)) (uuid_to_string (sd_ext api_deps)) example_rule = Inr example_rule_normal"
    using example_rule_normalized by (simp add: api_deps_def example_deps_def example_ext_def)
  have e: "sd_ext api_deps = example_ext" "sd_to_json api_deps = (\<lambda>event_type tenant now data. Inr (lit event_type))"
    by (simp_all add: api_deps_def example_deps_def)
  show ?thesis
    using n example_db_run unfolding route.simps create_record_def
    by (simp add: handler_defs api_authenticated api_ready e map_err_def example_member_def)
qed

theorem api_isolation_witness:
  "\<exists>r st'. route api_deps 5 api_headers (Create_Record example_rule) (api_state (empty_db False)) = (Inr (201, r), st') \<and>
     state_frame 7 (api_state (empty_db False)) st' \<and>
     snd (route api_deps 5 [] (Create_Record example_rule) (api_state (empty_db False))) = api_state (empty_db False)"
proof -
  obtain r st' where r: "route api_deps 5 api_headers (Create_Record example_rule) (api_state (empty_db False)) = (Inr (201, r), st')"
    using api_create by blast
  moreover have "request_tenant api_deps 5 api_headers (Create_Record example_rule) (api_state (empty_db False)) = Some 7"
    by (simp add: api_authenticated example_member_def)
  moreover have "request_tenant api_deps 5 [] (Create_Record example_rule) (api_state (empty_db False)) = None"
    using api_unauthenticated [of 5 "empty_db False"] by auto
  ultimately show ?thesis
    using api_isolation [OF r] api_isolation [OF surjective_pairing, of api_deps 5 "[]" "Create_Record example_rule"
        "api_state (empty_db False)"] by (simp del: route.simps request_tenant.simps)
qed

theorem served_invariant_witness:
  "\<exists>rs d'. serve api_deps (api_state (empty_db False)) [(5, api_headers, Create_Record example_rule), (6, [], List_Records)] = (rs, d') \<and>
     as_db d' = Some example_db \<and> db_wf example_db \<and> same_rows 8 (empty_db False) example_db"
proof -
  let ?st = "api_state (empty_db False)"
  obtain r st' where r: "route api_deps 5 api_headers (Create_Record example_rule) ?st = (r, st')" "as_db st' = Some example_db"
    using api_create by blast
  obtain e where "authenticated api_deps 6 [] st' = Inl e"
    using api_unauthenticated [of 6 "empty_db False"] kept_auth [OF route_kept [OF r(1)]]
    by (auto simp: authenticated_def)
  then have l: "route api_deps 6 [] List_Records st' = (Inl e, st')"
    by (simp add: hmap_def list_records_def hseq_def hask_def)
  have s: "serve api_deps ?st [(5, api_headers, Create_Record example_rule), (6, [], List_Records)] = ([r, Inl e], st')"
    by (simp add: r(1) l del: route.simps)
  have "request_tenant api_deps 5 api_headers (Create_Record example_rule) ?st \<noteq> Some 8"
    by (simp add: api_authenticated example_member_def)
  moreover have "request_tenant api_deps 6 [] List_Records ?st \<noteq> Some 8"
    using api_unauthenticated [of 6 "empty_db False"] by auto
  moreover have "as_db ?st = Some (empty_db False)"
    by (simp add: api_state_def)
  ultimately have "db_wf example_db" "same_rows 8 (empty_db False) example_db"
    using served_invariant [OF s] r(2) db_wf_empty by (auto simp del: request_tenant.simps)
  then show ?thesis
    using s r(2) by blast
qed

end
