(* ===== verification/Tenant_Reads.thy ===== *)
theory Tenant_Reads
  imports Api
begin

text \<open>
  What a tenant can read depends on its own rows only. Two databases with the same rows of a tenant
  give the same answer to each of its reading requests: rules, sources and searches. Together with the
  frame of the other tenants' requests this separates the tenants: nothing another tenant does is visible.
\<close>

section \<open>Restricting the tables to a tenant\<close>

lemma filter_owned:
  assumes "\<And>x. P x \<Longrightarrow> f x = t"
  shows "filter P xs = filter P (owned f t xs)"
  unfolding owned_def filter_filter by (rule filter_cong) (use assms in auto)

lemma filter_product_owned:
  assumes "\<And>x y. P (x, y) \<Longrightarrow> f x = t" and "\<And>x y. P (x, y) \<Longrightarrow> g y = t"
  shows "filter P (List.product xs ys) = filter P (List.product (owned f t xs) (owned g t ys))"
  unfolding owned_def filter_product_filter by (rule filter_cong) (use assms in auto)

lemma find_owned: "find (\<lambda>x. f x = t \<and> P x) xs = find P (owned f t xs)"
  by (induction xs) (auto simp: owned_def)

lemma owned_filter: "owned f t (filter P xs) = filter P (owned f t xs)"
  unfolding owned_def filter_filter by (rule filter_cong) auto

lemma list_ex_owned: "list_ex (\<lambda>x. f x = t \<and> P x) xs = list_ex P (owned f t xs)"
  by (induction xs) (auto simp: owned_def)

lemma same_rows_settings: "same_rows t d d' \<Longrightarrow> same_rows t (d\<lparr>db_settings := c\<rparr>) (d'\<lparr>db_settings := c\<rparr>)"
  by (simp add: same_rows_def)

section \<open>Rules\<close>

lemma rules_view_owned:
  assumes "same_rows t d d'" and "db_settings d' = db_settings d"
  shows "owned rl_tenant_id t (rules_view d') = owned rl_tenant_id t (rules_view d)"
proof -
  have "rule_visible d' = rule_visible d"
    using assms by (simp add: fun_eq_iff rule_visible_def same_rows_def)
  then show ?thesis
    using assms(1) by (simp add: rules_view_def owned_filter same_rows_def)
qed

lemma rule_revisions_view_owned:
  assumes "same_rows t d d'" and "db_settings d' = db_settings d"
  shows "owned rv_tenant_id t (rule_revisions_view d') = owned rv_tenant_id t (rule_revisions_view d)"
proof -
  have "rule_revision_visible d' v = rule_revision_visible d v" if "rv_tenant_id v = t" for v
    using assms rules_view_owned [OF assms]
    by (simp add: rule_revision_visible_def same_rows_def that list_ex_owned split: option.split)
  moreover have "owned rv_tenant_id t (db_rule_revisions d') = owned rv_tenant_id t (db_rule_revisions d)"
    using assms(1) by (simp add: same_rows_def)
  ultimately show ?thesis
    unfolding rule_revisions_view_def owned_filter by (intro filter_cong) (simp_all add: owned_def)
qed

lemma joined_owned:
  assumes "same_rows t d d'" and "db_settings d' = db_settings d"
    and "\<And>r v. P (r, v) \<Longrightarrow> rl_tenant_id r = t"
  shows "filter P (joined_rules d') = filter P (joined_rules d)"
proof -
  let ?Q = "\<lambda>x. (case x of (rule, revision) \<Rightarrow> Some (rv_id revision) = rl_active_revision_id rule \<and>
      rv_tenant_id revision = rl_tenant_id rule) \<and> P x"
  have "filter P (joined_rules db) =
      filter ?Q (List.product (owned rl_tenant_id t (rules_view db)) (owned rv_tenant_id t (rule_revisions_view db)))" for db
    unfolding joined_rules_def filter_filter by (rule filter_product_owned) (use assms(3) in auto)
  then show ?thesis
    using rules_view_owned [OF assms(1,2)] rule_revisions_view_owned [OF assms(1,2)] by simp
qed

lemma list_alert_rules_owned:
  assumes "same_rows t d d'"
  shows "fst (list_alert_rules E t s a d') = fst (list_alert_rules E t s a d)"
proof -
  let ?P = "\<lambda>(rule, revision). rl_tenant_id rule = t \<and> (a \<or> rl_owner_subject rule = s)"
  have "filter ?P (joined_rules (d'\<lparr>db_settings := c\<rparr>)) = filter ?P (joined_rules (d\<lparr>db_settings := c\<rparr>))" for c
    by (rule joined_owned [OF same_rows_settings [OF assms]]) auto
  then show ?thesis
    by (simp add: list_alert_rules_def seq_def transaction_def set_request_context_def statement_def query_def
        of_result_def)
qed

lemma get_alert_rule_owned:
  assumes "same_rows t d d'"
  shows "fst (get_alert_rule E t i s a d') = fst (get_alert_rule E t i s a d)"
proof -
  let ?P = "\<lambda>(rule, revision). rl_tenant_id rule = t \<and> rl_id rule = i \<and> (a \<or> rl_owner_subject rule = s)"
  have "filter ?P (joined_rules (d'\<lparr>db_settings := c\<rparr>)) = filter ?P (joined_rules (d\<lparr>db_settings := c\<rparr>))" for c
    by (rule joined_owned [OF same_rows_settings [OF assms]]) auto
  then show ?thesis
    by (simp add: get_alert_rule_def seq_def transaction_def set_request_context_def statement_def query_def
        of_result_def)
qed

section \<open>Sources and searches\<close>

lemma list_sources_owned: "same_rows t d d' \<Longrightarrow> fst (list_sources t d') = fst (list_sources t d)"
  by (simp add: list_sources_def query_def same_rows_def owned_def)

lemma get_source_owned: "same_rows t d d' \<Longrightarrow> fst (get_source t i d') = fst (get_source t i d)"
  by (simp add: get_source_def query_def same_rows_def find_owned)

lemma search_joins_owned:
  assumes "same_rows t d d'"
  shows "search_joins t request d' = search_joins t request d"
proof -
  have step: "filter P (List.product es (List.product rs ps)) =
      filter P (List.product (owned em_tenant_id t es) (List.product (owned pr_tenant_id t rs) (owned pg_tenant_id t ps)))"
    if "\<And>e r p. P (e, r, p) \<Longrightarrow> em_tenant_id e = t \<and> pr_tenant_id r = t \<and> pg_tenant_id p = t" for P es rs ps
  proof -
    let ?in = "\<lambda>(r, p). pr_tenant_id r = t \<and> pg_tenant_id p = t"
    have "filter ?in (List.product rs ps) = List.product (owned pr_tenant_id t rs) (owned pg_tenant_id t ps)"
      using filter_product_filter [of "\<lambda>_. True" "\<lambda>r. pr_tenant_id r = t" rs "\<lambda>p. pg_tenant_id p = t" ps]
      by (simp add: owned_def)
    moreover have "filter P (List.product es (List.product rs ps)) =
        filter P (List.product (owned em_tenant_id t es) (filter ?in (List.product rs ps)))"
      unfolding owned_def filter_product_filter by (rule filter_cong) (use that in auto)
    ultimately show ?thesis by simp
  qed
  show ?thesis
    unfolding search_joins_def using assms
    by (subst (1 2) step) (auto simp: same_rows_def)
qed

lemma search_embeddings_owned:
  assumes "same_rows t d d'"
  shows "fst (search_embeddings E t request d') = fst (search_embeddings E t request d)"
  using search_joins_owned [OF assms]
  by (simp add: search_embeddings_def seq_def statement_def search_statement_order search_order_def of_result_def ret_def
      split: option.split prod.split sum.split)

section \<open>Reading requests\<close>

fun read_request :: "request \<Rightarrow> bool" where
  "read_request List_Records = True"
| "read_request (Get_Record _) = True"
| "read_request List_Sources = True"
| "read_request (Get_Source _) = True"
| "read_request (Search_Embeddings _) = True"
| "read_request _ = False"

lemma fst_hask: "fst (hseq (hask f) k st) = (case f st of Inl e \<Rightarrow> Inl e | Inr x \<Rightarrow> fst (k x st))"
  by (simp add: hseq_def hask_def split: sum.split)

lemma fst_hres: "fst (hseq (hres r) k st) = (case r of Inl e \<Rightarrow> Inl e | Inr x \<Rightarrow> fst (k x st))"
  by (simp add: hseq_def hres_def split: sum.split)

lemma fst_then_hres: "fst (hseq m (\<lambda>x. hres (f x)) st) = (case fst (m st) of Inl e \<Rightarrow> Inl e | Inr x \<Rightarrow> f x)"
  by (simp add: hseq_def hres_def split: prod.split sum.split)

lemma fst_then_hret: "fst (hseq m (\<lambda>x. hret (f x)) st) = (case fst (m st) of Inl e \<Rightarrow> Inl e | Inr x \<Rightarrow> Inr (f x))"
  by (simp add: hseq_def hret_def split: prod.split sum.split)

lemma fst_hmap: "fst (hmap f m st) = (case fst (m st) of Inl e \<Rightarrow> Inl e | Inr x \<Rightarrow> Inr (f x))"
  unfolding hmap_def by (rule fst_then_hret)

lemma fst_execute: "fst (execute m st) = (case as_db st of None \<Rightarrow> Inl HttpError_database_required | Some d \<Rightarrow> fst (m d))"
  by (simp add: execute_def split: option.split prod.split)

lemmas fst_handler = fst_hask fst_hres fst_then_hres fst_then_hret fst_hmap fst_execute

lemmas reads_owned = list_alert_rules_owned get_alert_rule_owned list_sources_owned get_source_owned search_embeddings_owned

lemma same_checks:
  assumes "as_db st = Some d" and "as_db st' = Some d'" and "as_auth st' = as_auth st" and "as_schema_ready st' = as_schema_ready st"
  shows "require_database st' = require_database st" "authenticated D now h st' = authenticated D now h st"
  using assms by (simp_all add: require_database_def authenticated_def)

lemma read_same_rows:
  assumes "read_request req" and "request_tenant D now h req st = Some t"
    and "as_db st = Some d" and "as_db st' = Some d'" and "same_rows t d d'"
    and "as_auth st' = as_auth st" and "as_schema_ready st' = as_schema_ready st"
  shows "fst (route D now h req st') = fst (route D now h req st)"
proof -
  note checks = same_checks [OF assms(3,4,6,7)]
  note same = reads_owned [OF assms(5)]
  obtain auth where auth: "authenticated D now h st = Inr auth" and t: "ctx_tenant_id auth = t"
    using assms(1,2) by (cases req) (auto split: sum.splits)
  show ?thesis
    using assms(1)
    by (cases req)
      (simp_all only: route.simps read_request.simps list_records_def get_record_def route_list_sources_def route_get_source_def
        route_search_embeddings_def fst_handler checks auth t sum.case assms(3,4) option.case same)
qed

section \<open>Properties\<close>

text \<open>
  C3. No other tenant can influence what a tenant reads. When a sequence of requests contains none
  that acts for a tenant, then any of that tenant's reading requests (its rules, one rule, its
  sources, one source, a search) gets the same response after the sequence as before it, error responses included.
\<close>

theorem tenant_reads_isolated:
  assumes "serve D st calls = (rs, st')"
    and "list_all (\<lambda>(now, h, req). request_tenant D now h req st \<noteq> Some t) calls"
    and "read_request req" and "request_tenant D now h req st = Some t"
  shows "fst (route D now h req st') = fst (route D now h req st)"
proof -
  have u: "untouched t st st'" and k: "kept st st'"
    using serve_untouched [OF assms(1,2)] serve_kept [OF assms(1)] by simp_all
  from k have cfg: "as_auth st' = as_auth st" "as_schema_ready st' = as_schema_ready st"
    unfolding kept_def by (cases st; cases st'; simp)+
  show ?thesis
  proof (cases "as_db st")
    case None
    with u have "as_db st' = None"
      by (simp add: untouched_def)
    moreover have "authenticated D now h st' = authenticated D now h st"
      by (simp add: authenticated_def cfg)
    ultimately show ?thesis
      using assms(3) None cfg
      by (cases req) (simp_all add: list_records_def get_record_def route_list_sources_def route_get_source_def
        route_search_embeddings_def fst_handler require_database_def split: sum.split)
  next
    case (Some d)
    with u obtain d' where "as_db st' = Some d'" "same_rows t d d'"
      by (auto simp: untouched_def option_rel_Some1)
    with Some show ?thesis
      using read_same_rows [OF assms(3,4) Some] cfg by blast
  qed
qed

section \<open>Examples\<close>

definition other_headers :: headers where
  "other_headers = [(''x-eal-tenant-id'', as_bytes (hyphenated 8)), (''x-eal-subject-id'', as_bytes (lit ''user-2'')),
     (''x-eal-roles'', as_bytes (lit ''admin''))]"

lemma other_authenticated:
  "\<exists>auth. authenticated api_deps now other_headers (api_state d) = Inr auth \<and> ctx_tenant_id auth = 8"
proof -
  have "case insecure_context (sd_crates api_deps) other_headers of Inl _ \<Rightarrow> False | Inr auth \<Rightarrow> ctx_tenant_id auth = 8"
    by code_simp
  then show ?thesis
    by (simp add: authenticated_def authenticate_at_def api_state_def split: sum.splits)
qed

theorem tenant_reads_isolated_witness:
  "\<exists>rs st'. serve api_deps (api_state (empty_db False)) [(5, api_headers, Create_Record example_rule)] = (rs, st') \<and>
     as_db st' = Some example_db \<and>
     fst (route api_deps 6 other_headers List_Records st') =
       fst (route api_deps 6 other_headers List_Records (api_state (empty_db False)))"
proof -
  let ?st = "api_state (empty_db False)"
  obtain r st' where r: "route api_deps 5 api_headers (Create_Record example_rule) ?st = (r, st')" "as_db st' = Some example_db"
    using api_create by blast
  then have s: "serve api_deps ?st [(5, api_headers, Create_Record example_rule)] = ([r], st')"
    by (simp del: route.simps)
  have "list_all (\<lambda>(now, h, req). request_tenant api_deps now h req ?st \<noteq> Some 8) [(5, api_headers, Create_Record example_rule)]"
    by (simp add: api_authenticated example_member_def)
  moreover have "request_tenant api_deps 6 other_headers List_Records ?st = Some 8"
    using other_authenticated [of 6 "empty_db False"] by auto
  ultimately show ?thesis
    using tenant_reads_isolated [OF s] s r(2) by (metis read_request.simps(1))
qed

end
