(* ===== verification/Evaluation.thy ===== *)
theory Evaluation
  imports Api
begin

text \<open>
  The evaluation of a rule from request to response: authentication, the rule and its scope, the search,
  the stored candidates and their announcement (\<^verbatim>\<open>evaluate_matches\<close> of \<^verbatim>\<open>src/server_routes.rs\<close>
  over \<^verbatim>\<open>src/alert_store.rs\<close>, \<^verbatim>\<open>src/source_scope.rs\<close> and \<^verbatim>\<open>src/store.rs\<close>).
\<close>

section \<open>Successful handlers\<close>

lemma hseq_Inr: "hseq m k st = (Inr y, st'') \<longleftrightarrow> (\<exists>x st'. m st = (Inr x, st') \<and> k x st' = (Inr y, st''))"
  by (auto simp: hseq_def split: prod.splits sum.splits)

lemma hask_Inr: "hask f st = (Inr x, st') \<longleftrightarrow> f st = Inr x \<and> st' = st"
  by (auto simp: hask_def)

lemma hres_Inr: "hres r st = (Inr x, st') \<longleftrightarrow> r = Inr x \<and> st' = st"
  by (auto simp: hres_def)

lemma hret_Inr: "hret y st = (Inr x, st') \<longleftrightarrow> x = y \<and> st' = st"
  by (auto simp: hret_def)

lemma execute_Inr:
  "execute m st = (Inr x, st') \<longleftrightarrow> (\<exists>d d'. as_db st = Some d \<and> m d = (Inr x, d') \<and> st' = st\<lparr>as_db := Some d'\<rparr>)"
  by (auto simp: execute_def split: option.splits prod.splits)

lemma publish_event_Inr:
  "publish_event D now t a ty x st = (Inr u, st') \<longleftrightarrow>
     (\<exists>payload. sd_to_json D ty t now x = Inr payload \<and>
        st' = st\<lparr>as_events := as_events st @ [\<lparr>te_tenant_id = t, te_audience = a, te_payload = payload\<rparr>]\<rparr>)"
  by (auto simp: publish_event_def split: sum.splits)

lemmas handler_Inr = hseq_Inr hask_Inr hres_Inr hret_Inr execute_Inr

section \<open>The announcement of candidates\<close>

definition announces :: "server_deps \<Rightarrow> timestamp \<Rightarrow> uuid \<Rightarrow> rstr \<Rightarrow> candidate_row \<Rightarrow> tenant_event \<Rightarrow> bool" where
  "announces D now t owner c e \<longleftrightarrow> te_tenant_id e = t \<and> te_audience e = SubjectOrTenantAdministrators owner \<and>
     sd_to_json D ''match.candidate'' t now (Candidate_Data c) = Inr (te_payload e)"

lemma publish_candidates_snoc:
  "publish_candidates D now t owner (cs @ [c]) = hseq (publish_candidates D now t owner cs)
     (\<lambda>_. publish_event D now t (SubjectOrTenantAdministrators owner) ''match.candidate'' (Candidate_Data c))"
  by (simp add: publish_candidates_def)

lemma publish_candidates_Inr:
  assumes "publish_candidates D now t owner cs st = (Inr u, st')"
  shows "\<exists>es. st' = st\<lparr>as_events := as_events st @ es\<rparr> \<and> list_all2 (announces D now t owner) cs es"
  using assms
proof (induction cs arbitrary: u st' rule: rev_induct)
  case Nil
  then show ?case by (simp add: publish_candidates_def hret_Inr)
next
  case (snoc c cs)
  from snoc.prems obtain w st1 payload where
      a: "publish_candidates D now t owner cs st = (Inr w, st1)"
    and b: "sd_to_json D ''match.candidate'' t now (Candidate_Data c) = Inr payload"
      "st' = st1\<lparr>as_events := as_events st1 @
         [\<lparr>te_tenant_id = t, te_audience = SubjectOrTenantAdministrators owner, te_payload = payload\<rparr>]\<rparr>"
    unfolding publish_candidates_snoc hseq_Inr publish_event_Inr by blast
  from snoc.IH [OF a] obtain es where "st1 = st\<lparr>as_events := as_events st @ es\<rparr>"
      "list_all2 (announces D now t owner) cs es"
    by blast
  moreover have "announces D now t owner c \<lparr>te_tenant_id = t, te_audience = SubjectOrTenantAdministrators owner, te_payload = payload\<rparr>"
    using b(1) by (simp add: announces_def)
  ultimately show ?case
    using b(2) by (intro exI [of _ "es @ [\<lparr>te_tenant_id = t, te_audience = SubjectOrTenantAdministrators owner, te_payload = payload\<rparr>]"])
      (simp add: list_all2_appendI)
qed

section \<open>The rule\<close>

text \<open>A rule that a caller may evaluate, with its active revision.\<close>

definition evaluable :: "auth_context \<Rightarrow> db \<Rightarrow> uuid \<Rightarrow> rule_row \<Rightarrow> rule_revision_row \<Rightarrow> bool" where
  "evaluable auth d i r v \<longleftrightarrow> r \<in> set (db_rules d) \<and> v \<in> set (db_rule_revisions d) \<and> rl_id r = i \<and>
     rl_tenant_id r = ctx_tenant_id auth \<and> rv_tenant_id v = ctx_tenant_id auth \<and>
     rl_active_revision_id r = Some (rv_id v) \<and>
     (is_tenant_admin auth \<or> rl_owner_subject r = ctx_subject auth) \<and> rv_enabled v"

lemma decode_row_mem: "decode_row f rows = Inr (Some x) \<Longrightarrow> \<exists>y \<in> set rows. f y = Some x"
  by (cases rows) (auto simp: decode_row_def decode_json_row_def)

lemma require_alert_rule_Inr:
  assumes "require_alert_rule E t i s a d = (Inr rule, d1)"
  obtains r v where "d1 = d" and "r \<in> set (db_rules d)" and "v \<in> set (db_rule_revisions d)" and "rl_id r = i"
    and "rl_tenant_id r = t" and "rv_tenant_id v = t" and "rl_active_revision_id r = Some (rv_id v)"
    and "a \<or> rl_owner_subject r = s" and "alert_rule_json E (r, v) = Some rule"
proof -
  have "d1 = d"
    using read_only_rules(3) [of E t i s a d] assms by simp
  let ?P = "\<lambda>(rule, revision). rl_tenant_id rule = t \<and> rl_id rule = i \<and> (a \<or> rl_owner_subject rule = s)"
  from assms obtain c where "decode_row (alert_rule_json E) (filter ?P (joined_rules (d\<lparr>db_settings := c\<rparr>))) = Inr (Some rule)"
    by (auto simp: require_alert_rule_def get_alert_rule_def seq_Inr transaction_Inr query_eq of_result_eq
        set_request_context_def statement_Inr dest!: sym [of "Inr rule"] split: option.splits if_splits)
  then obtain x where "x \<in> set (filter ?P (joined_rules (d\<lparr>db_settings := c\<rparr>)))" "alert_rule_json E x = Some rule"
    by (rule decode_row_mem [THEN bexE])
  with that \<open>d1 = d\<close> show ?thesis
    by (cases x) (auto simp: joined_rules_def rules_view_def rule_revisions_view_def)
qed

section \<open>Thresholds and scope\<close>

lemma f64_from_mono_above:
  assumes "in_unit32 x" and "le32 x y"
  shows "le64 (f64_from x) (f64_from y)"
proof (cases "neg32 y")
  case True
  with assms have "mag32 y = 0"
    using ord_unit32 [OF assms(1)] by (simp add: le32_def ord32_def split: if_splits)
  then have "in_unit32 y"
    by (simp add: in_unit32_iff)
  with assms show ?thesis
    by (intro f64_from_mono)
next
  case False
  with assms have le: "mag32 x \<le> mag32 y" and nan: "\<not> is_nan32 y"
    by (auto simp: le32_def ord_unit32) (simp add: ord32_def)
  have u: "in_unit64 (f64_from x)"
    using assms(1) by (rule f64_from_unit)
  show ?thesis
  proof (cases "mag32 y = inf32")
    case True
    then have y: "f64_from y = mk64 False inf64"
      using nan False by (simp add: f64_from_def)
    have "mag64 (f64_from y) = inf64" "neg64 (f64_from y) = False"
      unfolding y by (simp_all add: mk64_fields)
    then show ?thesis
      using u by (auto simp: le64_def is_nan64_def ord_unit64 ord64_def in_unit64_iff)
  next
    case inf: False
    then have fin: "is_finite32 y"
      using nan by (simp add: is_finite32_def is_nan32_def)
    have "enc 53 0 (dec 24 (mag32 x) * 2 ^ 925) \<le> enc 53 0 (dec 24 (mag32 y) * 2 ^ 925)"
      using le by (intro enc_mono mult_right_mono dec_mono) simp_all
    then have "mag64 (f64_from x) \<le> mag64 (f64_from y)"
      by (simp only: f64_from_finite(1) [OF in_unit32_finite [OF assms(1)]] f64_from_finite(1) [OF fin])
    moreover have "\<not> neg64 (f64_from y)" "mag64 (f64_from y) < inf64"
      using f64_from_finite(2,3) [OF fin] False by (simp_all add: is_finite64_def)
    ultimately show ?thesis
      using u by (simp add: le64_def is_nan64_def ord_unit64) (simp add: ord64_def)
  qed
qed

lemma pg_le_trans: "pg_le x y \<Longrightarrow> pg_le y z \<Longrightarrow> pg_le x z"
  by (simp add: pg_le_def)

lemma le64_pg_le: "le64 x y \<Longrightarrow> pg_le x y"
  by (simp add: pg_le_iff le64_def)

text \<open>A row that passes the combined threshold passes the threshold of the rule.\<close>

lemma combined_threshold:
  assumes "in_unit32 rule" and "in_unit64 requested"
    and "pg_le (f64_from (max32 m (f32_from (max64 requested (f64_from rule))))) s"
  shows "pg_le (f64_from rule) s"
proof -
  note u = max64_unit [OF assms(2) f64_from_unit [OF assms(1)]]
  have "le32 rule (f32_from (max64 requested (f64_from rule)))"
    using f32_from_ge [OF assms(1) u(1) u(3)] .
  then have "le32 rule (max32 m (f32_from (max64 requested (f64_from rule))))"
    using max32_unit [OF f32_from_unit(2) [OF u(1)]] le32_trans by blast
  then show ?thesis
    using f64_from_mono_above [OF assms(1)] le64_pg_le pg_le_trans assms(3) by blast
qed

lemma constrained_sources:
  assumes "constrain_search_sources p filters requested = Inr ids"
  obtains rule_scope where "parse_source_filter_ids p filters = Inr rule_scope"
    and "\<forall>x. ids = [] \<or> x \<in> set ids \<longrightarrow> (rule_scope = [] \<or> x \<in> set rule_scope) \<and> (requested = [] \<or> x \<in> set requested)"
  using assms by (auto simp: constrain_search_sources_def Let_def btree_contains_def list_ex_iff split: if_splits)

section \<open>The evaluation\<close>

text \<open>
  What stands behind a candidate: an embedding of a page revision of the tenant, whose source lies in
  the scope of the rule and in the requested one, at a similarity of at least the rule's threshold.
\<close>

definition supported ::
  "server_deps \<Rightarrow> db \<Rightarrow> uuid \<Rightarrow> rule_revision_row \<Rightarrow> embedding_search_request \<Rightarrow> candidate_row \<Rightarrow> bool" where
  "supported D d t v search c \<longleftrightarrow>
     (\<exists>e \<in> set (db_embeddings d). \<exists>r \<in> set (db_page_revisions d). \<exists>p \<in> set (db_pages d). \<exists>rule_scope vec dist.
        mc_embedding_id c = Some (em_id e) \<and> mc_revision_id c = pr_id r \<and>
        em_revision_id e = pr_id r \<and> pr_page_id r = pg_id p \<and>
        em_tenant_id e = t \<and> pr_tenant_id r = t \<and> pg_tenant_id p = t \<and> em_model e = rv_embedding_model v \<and>
        parse_source_filter_ids (uuid_parse_str (sd_crates D)) (rv_source_filters v) = Inr rule_scope \<and>
        (rule_scope = [] \<or> pg_source_id p \<in> set rule_scope) \<and>
        (es_source_ids search = [] \<or> pg_source_id p \<in> set (es_source_ids search)) \<and>
        parse_vector (sd_ext D) (vector_literal (sd_ext D) (ep_values (es_embedding search))) = Some vec \<and>
        cosine_distance (sd_ext D) (em_embedding e) vec = Some dist \<and>
        pg_le (f64_from (rv_similarity_threshold v)) (sub64 one64 dist))"

text \<open>Each candidate an evaluation returns is stored and belongs to a record of the search.\<close>

lemma evaluate_matches_Inr:
  assumes "evaluate_matches E now t a v th search d = (Inr cs, d')" and "db_wf d" and "c \<in> set cs"
  obtains row x rows where "row \<in> set (db_candidates d')" and "decode_candidate E row = Some c" and "candidate_of E t a v x row"
    and "search_order E t (search\<lparr>es_min_similarity := max32 (es_min_similarity search) (f32_from th)\<rparr>) d = Some rows"
    and "\<exists>rr \<in> set rows. into_record E rr = Some x"
proof -
  let ?req = "search\<lparr>es_min_similarity := max32 (es_min_similarity search) (f32_from th)\<rparr>"
  from assms(1) obtain page d1 where page: "search_embeddings E t ?req d = (Inr page, d1)"
    and m: "map_stmt (upsert_candidate E now t a v th) (pa_records page) d1 = (Inr cs, d')"
    by (auto simp: evaluate_matches_def seq_Inr)
  have "db_wf d'"
    using evaluate_matches_sound [of t d E now a v th search] assms(1,2) by (simp add: sound_step_def wf_kept_def)
  then have ok: "table_ok candidate_check candidate_key mc_id (db_candidates d')"
    by (simp add: db_wf_def tables_ok_def)
  have "list_all2 (evaluation_stored E t a v th d') (pa_records page) cs"
    using evaluation.loop_again [OF m TrueI evidence.R_refl ok] by blast
  with assms(3) obtain x where x: "x \<in> set (pa_records page)" "evaluation_stored E t a v th d' x c"
    by (metis in_set_conv_nth list_all2_conv_all_nth)
  then obtain row where "row \<in> set (db_candidates d')" "decode_candidate E row = Some c" "candidate_of E t a v x row"
    by (auto simp: evaluation_stored_def list_ex_iff)
  moreover obtain rows where "search_order E t ?req d = Some rows"
      "\<And>x. x \<in> set (pa_records page) \<Longrightarrow> \<exists>row \<in> set rows. into_record E row = Some x"
    by (rule search_embeddings_rows [OF page]) blast
  ultimately show ?thesis
    using that x(1) by blast
qed

lemma evaluation_supported:
  assumes "evaluate_matches (sd_ext D) now t a (rv_id v) (max64 requested (f64_from (rv_similarity_threshold v)))
      (search\<lparr>es_source_ids := ids\<rparr>) d = (Inr cs, d')"
    and "db_wf d" and "c \<in> set cs" and "in_unit64 requested" and "in_unit32 (rv_similarity_threshold v)"
    and "constrain_search_sources (uuid_parse_str (sd_crates D)) (rv_source_filters v) (es_source_ids search) = Inr ids"
    and "ep_model (es_embedding search) = rv_embedding_model v"
  shows "\<exists>row \<in> set (db_candidates d'). decode_candidate (sd_ext D) row = Some c \<and> mc_tenant_id row = t \<and>
    mc_alert_rule_id row = a \<and> mc_alert_rule_revision_id row = Some (rv_id v) \<and> supported D d t v search row"
proof -
  let ?E = "sd_ext D" and ?th = "max64 requested (f64_from (rv_similarity_threshold v))"
  let ?req = "search\<lparr>es_source_ids := ids, es_min_similarity := max32 (es_min_similarity search) (f32_from ?th)\<rparr>"
  obtain row x rows where row: "row \<in> set (db_candidates d')" "decode_candidate ?E row = Some c" "candidate_of ?E t a (rv_id v) x row"
    and rows: "search_order ?E t ?req d = Some rows" and ex: "\<exists>rr \<in> set rows. into_record ?E rr = Some x"
    by (rule evaluate_matches_Inr [OF assms(1-3)]) simp
  from ex obtain rr where rr: "rr \<in> set rows" "into_record ?E rr = Some x"
    by blast
  obtain vec where vec: "parse_vector ?E (vector_literal ?E (ep_values (es_embedding ?req))) = Some vec"
    and j: "(rk_embedding rr, rk_revision rr, rk_page rr) \<in> set (search_joins t ?req d)"
    and d: "cosine_distance ?E (em_embedding (rk_embedding rr)) vec = Some (rk_distance rr)"
    and s: "pg_le (f64_from (es_min_similarity ?req)) (similarity_of rr)"
    using search_order_row [OF rows rr(1)] .
  obtain rule_scope where sc: "parse_source_filter_ids (uuid_parse_str (sd_crates D)) (rv_source_filters v) = Inr rule_scope"
    and lim: "\<forall>x. ids = [] \<or> x \<in> set ids \<longrightarrow>
      (rule_scope = [] \<or> x \<in> set rule_scope) \<and> (es_source_ids search = [] \<or> x \<in> set (es_source_ids search))"
    using constrained_sources [OF assms(6)] .
  have "pg_le (f64_from (rv_similarity_threshold v)) (sub64 one64 (rk_distance rr))"
    using combined_threshold [OF assms(5,4)] s by (simp add: similarity_of_def)
  moreover have "ids = [] \<or> pg_source_id (rk_page rr) \<in> set ids"
    using j by (simp add: search_joins_def)
  note lim [rule_format, OF this]
  moreover have "mc_embedding_id row = Some (em_id (rk_embedding rr))" "mc_revision_id row = pr_id (rk_revision rr)"
    using row(3) into_record_fields [OF rr(2)] by (simp_all add: candidate_of_def)
  ultimately have "supported D d t v search row"
    unfolding supported_def using j vec d sc assms(7)
    by (intro bexI [of _ "rk_embedding rr"] bexI [of _ "rk_revision rr"] bexI [of _ "rk_page rr"]
        exI [of _ rule_scope] exI [of _ vec] exI [of _ "rk_distance rr"]) (simp_all add: search_joins_def)
  with row show ?thesis
    by (auto simp: candidate_of_def)
qed

text \<open>The whole evaluation, from the request to the stored candidates and the published events.\<close>

lemma evaluate_route_sound:
  assumes "route D now h (Evaluate_Matches input) st = (Inr (code, body), st')" and "as_db st = Some d" and "db_wf d"
    and "\<forall>x y. json_f32 (sd_ext D) x = Some y \<longrightarrow> y = x"
  shows "\<exists>auth r v cs d' es. authenticated D now h st = Inr auth \<and> code = 200 \<and> body = Candidates_Body cs \<and>
    evaluable auth d (em_alert_rule_id input) r v \<and> ep_model (es_embedding (em_search input)) = rv_embedding_model v \<and>
    as_db st' = Some d' \<and>
    (\<forall>c \<in> set cs. \<exists>row \<in> set (db_candidates d'). decode_candidate (sd_ext D) row = Some c \<and>
       mc_tenant_id row = ctx_tenant_id auth \<and> mc_alert_rule_id row = em_alert_rule_id input \<and>
       mc_alert_rule_revision_id row = Some (rv_id v) \<and>
       supported D d (ctx_tenant_id auth) v (em_search input) row) \<and>
    as_events st' = as_events st @ es \<and>
    list_all2 (announces D now (ctx_tenant_id auth) (rl_owner_subject r)) cs es"
proof -
  from assms(1,2) obtain auth rule ids cs d1 d' u where
      auth: "authenticated D now h st = Inr auth" and out: "code = 200" "body = Candidates_Body cs"
    and unit: "in_unit64 (em_threshold input)"
    and rule: "require_alert_rule (sd_ext D) (ctx_tenant_id auth) (em_alert_rule_id input) (ctx_subject auth)
        (is_tenant_admin auth) d = (Inr rule, d1)"
    and en: "ar_enabled rule" and model: "ep_model (es_embedding (em_search input)) = ar_embedding_model rule"
    and ids: "constrain_search_sources (uuid_parse_str (sd_crates D)) (ar_source_filters rule)
        (es_source_ids (em_search input)) = Inr ids"
    and ev: "evaluate_matches (sd_ext D) now (ctx_tenant_id auth) (em_alert_rule_id input) (ar_revision_id rule)
        (max64 (em_threshold input) (f64_from (ar_similarity_threshold rule)))
        (em_search input\<lparr>es_source_ids := ids\<rparr>) d1 = (Inr cs, d')"
    and pub: "publish_candidates D now (ctx_tenant_id auth) (ar_owner_subject rule) cs (st\<lparr>as_db := Some d'\<rparr>) = (Inr u, st')"
    unfolding route.simps hmap_def route_evaluate_matches_def Let_def handler_Inr require_enabled_alert_rule_def
    by (auto split: if_splits)
  obtain r v where d1: "d1 = d" and rv: "r \<in> set (db_rules d)" "v \<in> set (db_rule_revisions d)"
      "rl_id r = em_alert_rule_id input" "rl_tenant_id r = ctx_tenant_id auth" "rv_tenant_id v = ctx_tenant_id auth"
      "rl_active_revision_id r = Some (rv_id v)" "is_tenant_admin auth \<or> rl_owner_subject r = ctx_subject auth"
    and json: "alert_rule_json (sd_ext D) (r, v) = Some rule"
    by (rule require_alert_rule_Inr [OF rule]) blast
  from json assms(4) have f: "ar_revision_id rule = rv_id v" "ar_owner_subject rule = rl_owner_subject r"
      "ar_enabled rule = rv_enabled v" "ar_embedding_model rule = rv_embedding_model v"
      "ar_similarity_threshold rule = rv_similarity_threshold v" "ar_source_filters rule = rv_source_filters v"
    by (auto simp: alert_rule_json_def)
  have chk: "in_unit32 (rv_similarity_threshold v)"
    using assms(3) rv(2) by (auto simp: db_wf_def tables_ok_def table_ok_def list_all_iff rule_revision_check_def in_unit32_def)
  have "evaluable auth d (em_alert_rule_id input) r v"
    using rv en f(3) by (simp add: evaluable_def)
  moreover have "\<exists>row \<in> set (db_candidates d'). decode_candidate (sd_ext D) row = Some c \<and>
       mc_tenant_id row = ctx_tenant_id auth \<and> mc_alert_rule_id row = em_alert_rule_id input \<and>
       mc_alert_rule_revision_id row = Some (rv_id v) \<and>
       supported D d (ctx_tenant_id auth) v (em_search input) row" if "c \<in> set cs" for c
    using evaluation_supported [OF ev [unfolded d1 f] assms(3) that unit chk ids [unfolded f] model [unfolded f]] .
  moreover obtain es where "st' = st\<lparr>as_db := Some d', as_events := as_events st @ es\<rparr>"
      "list_all2 (announces D now (ctx_tenant_id auth) (rl_owner_subject r)) cs es"
    using publish_candidates_Inr [OF pub] f(2) by auto
  ultimately show ?thesis
    using auth out model f(4)
    by (intro exI [of _ auth] exI [of _ r] exI [of _ v] exI [of _ cs] exI [of _ d'] exI [of _ es]) simp
qed

section \<open>Properties\<close>

text \<open>
  C4. An evaluation that succeeds used a rule of the caller's tenant that the caller owns or administers, in its
  active and enabled revision, and a query vector of that revision's model. Every candidate returned is
  stored for that rule and revision, and behind it is an embedded page revision of the tenant, from a source
  inside both the rule's scope and the requested one, whose similarity is at least the rule's own threshold:
  the narrowing of the combined threshold to 32 bits never lets a weaker page through. For every candidate, in order,
  one event was published, to the rule's owner and the tenant's administrators, and no other.
\<close>

theorem evaluate_sound:
  assumes "route D now h (Evaluate_Matches input) st = (Inr (code, body), st')" and "as_db st = Some d" and "db_wf d"
    and "\<forall>x y. json_f32 (sd_ext D) x = Some y \<longrightarrow> y = x"
  shows "\<exists>auth r v cs d' es. authenticated D now h st = Inr auth \<and> code = 200 \<and> body = Candidates_Body cs \<and>
    evaluable auth d (em_alert_rule_id input) r v \<and> ep_model (es_embedding (em_search input)) = rv_embedding_model v \<and>
    as_db st' = Some d' \<and>
    (\<forall>c \<in> set cs. \<exists>row \<in> set (db_candidates d'). decode_candidate (sd_ext D) row = Some c \<and>
       mc_tenant_id row = ctx_tenant_id auth \<and> mc_alert_rule_id row = em_alert_rule_id input \<and>
       mc_alert_rule_revision_id row = Some (rv_id v) \<and>
       supported D d (ctx_tenant_id auth) v (em_search input) row) \<and>
    as_events st' = as_events st @ es \<and>
    list_all2 (announces D now (ctx_tenant_id auth) (rl_owner_subject r)) cs es"
  by (rule evaluate_route_sound [OF assms])

section \<open>An evaluation\<close>

definition example_evaluate :: evaluate_matches_request where
  "example_evaluate = \<lparr>em_alert_rule_id = 1, em_threshold = 0, em_search = example_one\<rparr>"

abbreviation example_rule_row :: rule_row where
  "example_rule_row \<equiv> activate_revision 2 5 (new_rule 5 1 7 (lit ''user-1''))"

lemma example_tables:
  "db_rules (example_alerts []) = [example_rule_row]" "db_rule_revisions (example_alerts []) = [example_alert_revision]"
  "db_candidates (example_alerts []) = []" "rv_alert_rule_id example_alert_revision = 1" "rv_tenant_id example_alert_revision = 7"
  "rv_id example_alert_revision = 2" "json_f32 example_ext = Some"
  by (simp_all add: example_alerts_def example_corpus_def example_db_def empty_db_def example_alert_revision_def example_ext_def)

lemma example_rule_json:
  obtains rule where "alert_rule_json example_ext (example_rule_row, example_alert_revision) = Some rule" and "ar_enabled rule"
    and "ar_embedding_model rule = lit ''m''" and "ar_revision_id rule = 2" and "ar_similarity_threshold rule = 0"
    and "ar_source_filters rule = []"
  by (simp add: alert_rule_json_def example_tables) (simp add: example_alert_revision_def)

lemma example_required:
  assumes "alert_rule_json example_ext (example_rule_row, example_alert_revision) = Some rule"
  shows "require_alert_rule example_ext 7 1 (lit ''user-1'') False (example_alerts []) = (Inr rule, example_alerts [])"
proof -
  have own: "own_revisions (example_alerts [])"
    by (simp add: own_revisions_def example_tables)
  have "authorised_rules (example_alerts []) 7 (lit ''user-1'') False = [(example_rule_row, example_alert_revision)]"
    by (simp add: authorised_rules_def example_tables is_active_revision_def)
  then show ?thesis
    using assms unfolding require_alert_rule_def seq_def get_alert_rule_run [OF own example_subject(1,2)]
    by (simp add: decode_row_def decode_json_row_def of_result_def)
qed

lemma search_embeddings_order:
  assumes "search_order E t request db' = search_order E t request db" and "search_embeddings E t request db = (Inr page, d)"
  shows "search_embeddings E t request db' = (Inr page, db')"
  using assms(2)
  by (auto simp: search_embeddings_def search_statement_order assms(1) seq_def
      statement_def of_result_def ret_def split: option.splits sum.splits)

lemma example_alerts_evaluation:
  obtains c d' where "evaluate_matches example_ext 9 7 1 2 0 example_one (example_alerts []) = (Inr [c], d')"
proof (rule example_one_page)
  fix r
  assume run: "search_embeddings example_ext 7 example_one example_corpus =
      (Inr \<lparr>pa_hits = [sr_hit r], pa_next_cursor = Some (cursor_of (hd example_rows)), pa_records = [r]\<rparr>, example_corpus)"
    and r: "r = record_of example_ext (hd example_rows)"
  have "search_order example_ext 7 example_one (example_alerts []) = search_order example_ext 7 example_one example_corpus"
    by (simp add: search_order_def search_joins_def example_alerts_def)
  note found = search_embeddings_order [OF this run]
  have "hd example_rows \<in> set example_rows"
    by (simp add: example_rows_def)
  note f = into_record_fields [OF into_record_cursor(1) [OF example_transport this], folded r]
  have ids: "eh_revision_id (sr_hit r) = 21" "eh_embedding_id (sr_hit r) = 21" "eh_similarity (sr_hit r) = one64"
    using f(1,2,5) by (simp_all add: example_rows_def example_embedding_def example_revision_def similarity_of_def
        sub64_one_zero example_fields)
  let ?row = "historical_candidate example_ext 9 7 1 2 0 r (gen_uuid example_ext (db_seed (example_alerts [])))"
  have "candidate_check ?row"
    by (simp add: candidate_check_def historical_candidate_def ids pg_le_def pg_key_0_1 zero64_def pg_key_minus_one)
  moreover have "candidate_fk (example_alerts []) ?row"
    by (simp add: fk_defs null_or_def historical_candidate_def ids example_alerts_def example_corpus_def example_db_def
        activate_revision_def new_rule_def example_alert_revision_def example_revision_def example_embedding_def)
  moreover have "decode_candidate example_ext ?row = Some ?row"
    by (simp add: decode_candidate_def example_fields)
  ultimately have "upsert_candidate example_ext 9 7 1 2 0 r (example_alerts []) =
      (Inr ?row, (example_alerts [])\<lparr>db_seed := Suc (db_seed (example_alerts [])), db_candidates := [?row]\<rparr>)"
    unfolding upsert_candidate_def candidate_upsert_ins
    by (simp add: insert_on_conflict_def decode_row_def decode_json_row_def ex_bool_eq example_tables)
  moreover have "example_one\<lparr>es_min_similarity := max32 (es_min_similarity example_one) (f32_from 0)\<rparr> = example_one"
    by (simp add: example_one_def example_search_def f32_from_0 max32_def)
  ultimately show ?thesis
    using found that by (simp add: evaluate_matches_def seq_def ret_def)
qed

lemma api_fields:
  "sd_ext api_deps = example_ext" "sd_interfaces api_deps = example_interfaces"
  "sd_to_json api_deps = (\<lambda>event_type tenant now data. Inr (lit event_type))" "ctx_tenant_id example_member = 7"
  "ctx_subject example_member = lit ''user-1''" "is_tenant_admin example_member = False"
  by (simp_all add: api_deps_def example_deps_def example_member_def is_tenant_admin_def)

lemma example_route:
  obtains c st' where "route api_deps 9 api_headers (Evaluate_Matches example_evaluate) (api_state (example_alerts [])) =
    (Inr (200, Candidates_Body [c]), st')"
proof (rule example_rule_json)
  fix rule
  assume rule: "alert_rule_json example_ext (example_rule_row, example_alert_revision) = Some rule" "ar_enabled rule"
    "ar_embedding_model rule = lit ''m''" "ar_revision_id rule = 2" "ar_similarity_threshold rule = 0" "ar_source_filters rule = []"
  obtain c d' where ev: "evaluate_matches example_ext 9 7 1 2 0 example_one (example_alerts []) = (Inr [c], d')"
    by (rule example_alerts_evaluation)
  have ids: "constrain_search_sources p [] (es_source_ids example_one) = Inr [20]" for p
    by (simp add: example_one_def example_fields constrain_search_sources_def parse_source_filter_ids_def MAX_SOURCE_FILTERS_def
        btree_collect_eq Let_def)
  have one: "ep_model (es_embedding example_one) = lit ''m''" "example_one\<lparr>es_source_ids := [20]\<rparr> = example_one"
    "validate_search example_interfaces x = Inr ()" for x
    by (simp_all add: example_one_def example_search_def example_interfaces_def)
  have zero: "is_finite64 0" "in_unit64 0" "max64 0 (f64_from 0) = 0"
    by (simp_all add: is_finite64_def in_unit64_iff one64_fields f64_from_0 max64_def)
  have "\<exists>c st'. route api_deps 9 api_headers (Evaluate_Matches example_evaluate) (api_state (example_alerts [])) =
      (Inr (200, Candidates_Body [c]), st')"
    unfolding route.simps route_evaluate_matches_def
    by (simp add: handler_defs api_authenticated api_ready api_fields example_evaluate_def zero one rule ids ev
        example_required [OF rule(1)] require_enabled_alert_rule_def validated_def map_err_def publish_candidates_def Let_def)
  then show ?thesis
    using that by blast
qed

theorem evaluate_sound_witness:
  "\<exists>c st' r v row. route api_deps 9 api_headers (Evaluate_Matches example_evaluate) (api_state (example_alerts [])) =
       (Inr (200, Candidates_Body [c]), st') \<and>
     evaluable example_member (example_alerts []) 1 r v \<and> decode_candidate example_ext row = Some c \<and>
     supported api_deps (example_alerts []) 7 v example_one row \<and> length (as_events st') = 1"
proof -
  obtain c st' where run: "route api_deps 9 api_headers (Evaluate_Matches example_evaluate) (api_state (example_alerts [])) =
      (Inr (200, Candidates_Body [c]), st')"
    by (rule example_route)
  have "db_wf (example_alerts [])" "\<forall>x y. json_f32 (sd_ext api_deps) x = Some y \<longrightarrow> y = x"
    by (simp_all add: example_alerts_wf api_fields example_tables)
  note s = evaluate_sound [OF run api_ready(2) this]
  from s obtain r v es row where "evaluable example_member (example_alerts []) 1 r v"
      "decode_candidate example_ext row = Some c" "supported api_deps (example_alerts []) 7 v example_one row"
      "as_events st' = as_events (api_state (example_alerts [])) @ es"
      "list_all2 (announces api_deps 9 7 (rl_owner_subject r)) [c] es"
    by (auto simp: api_authenticated api_fields example_evaluate_def)
  then show ?thesis
    using run api_ready(3) list_all2_lengthD by fastforce
qed

end
