(* ===== verification/Router.thy ===== *)
theory Router
  imports Api
begin

text \<open>
  From an HTTP request to a handler (\<^verbatim>\<open>build_router\<close> of \<^verbatim>\<open>src/server_runtime.rs\<close> and the parameter
  lists of the handlers in \<^verbatim>\<open>src/server_routes.rs\<close>): the routing table, the choice of a handler by path and
  method, and the extractors of each handler in the order of its parameters. What the framework itself does is fixed by its
  documentation: a segment in braces matches one non-empty path segment, a \<^verbatim>\<open>get\<close> handler also answers HEAD, an
  unknown path is answered with 404 and a wrong method with 405, extractors run left to right and the first
  that fails answers the request. How a UUID, a JSON body or a WebSocket handshake is decoded is a parameter. The CORS layer
  answers preflight requests itself; only its configuration is modelled. Tracing is not part of the model.
\<close>

section \<open>The routing table\<close>

datatype endpoint =
    Ep_health
  | Ep_list_records
  | Ep_create_record
  | Ep_get_record
  | Ep_upsert_alert_embedding
  | Ep_list_sources
  | Ep_create_source
  | Ep_get_source
  | Ep_ingest_page
  | Ep_reverse_match_page
  | Ep_search_embeddings
  | Ep_evaluate_matches
  | Ep_ws_upgrade

text \<open>A pattern is a list of segments: a fixed text, or a parameter.\<close>

type_synonym pattern = "string option list"

definition build_router :: "(pattern \<times> (string \<times> endpoint) list) list" where
  "build_router =
     [([Some ''healthz''], [(''GET'', Ep_health)]),
      ([Some ''v1'', Some ''alerts''], [(''GET'', Ep_list_records), (''POST'', Ep_create_record)]),
      ([Some ''v1'', Some ''alerts'', None], [(''GET'', Ep_get_record)]),
      ([Some ''v1'', Some ''alerts'', None, Some ''embedding''], [(''POST'', Ep_upsert_alert_embedding)]),
      ([Some ''v1'', Some ''sources''], [(''GET'', Ep_list_sources), (''POST'', Ep_create_source)]),
      ([Some ''v1'', Some ''sources'', None], [(''GET'', Ep_get_source)]),
      ([Some ''v1'', Some ''sources'', None, Some ''pages''], [(''POST'', Ep_ingest_page)]),
      ([Some ''v1'', Some ''sources'', None, Some ''pages'', Some ''reverse-match''], [(''POST'', Ep_reverse_match_page)]),
      ([Some ''v1'', Some ''embeddings'', Some ''search''], [(''POST'', Ep_search_embeddings)]),
      ([Some ''v1'', Some ''matches'', Some ''evaluate''], [(''POST'', Ep_evaluate_matches)]),
      ([Some ''v1'', Some ''ws''], [(''GET'', Ep_ws_upgrade)])]"

fun match_segments :: "pattern \<Rightarrow> rstr list \<Rightarrow> rstr list option" where
  "match_segments [] [] = Some []"
| "match_segments (Some s # ps) (w # ws) = (if w = lit s then match_segments ps ws else None)"
| "match_segments (None # ps) (w # ws) = (if w = [] then None else map_option ((#) w) (match_segments ps ws))"
| "match_segments _ _ = None"

primrec find_route :: "(pattern \<times> 'm) list \<Rightarrow> rstr list \<Rightarrow> ('m \<times> rstr list) option" where
  "find_route [] ws = None"
| "find_route (r # rs) ws =
     (case match_segments (fst r) ws of Some ps \<Rightarrow> Some (snd r, ps) | None \<Rightarrow> find_route rs ws)"

definition path_segments :: "rstr \<Rightarrow> rstr list option" where
  "path_segments path = (case split_on (\<lambda>c. c = 47) path of [] # ws \<Rightarrow> Some ws | _ \<Rightarrow> None)"

definition served_method :: "string \<Rightarrow> string" where
  "served_method m = (if m = ''HEAD'' then ''GET'' else m)"

definition dispatch :: "string \<Rightarrow> rstr \<Rightarrow> nat + endpoint \<times> rstr list" where
  "dispatch m path =
     (case Option.bind (path_segments path) (find_route build_router) of
        None \<Rightarrow> Inl 404
      | Some (methods, ps) \<Rightarrow>
          (case map_of methods (served_method m) of None \<Rightarrow> Inl 405 | Some ep \<Rightarrow> Inr (ep, ps)))"

section \<open>Paths and patterns\<close>

fun fill :: "pattern \<Rightarrow> rstr list \<Rightarrow> rstr list" where
  "fill [] ps = []"
| "fill (Some s # xs) ps = lit s # fill xs ps"
| "fill (None # xs) ps = hd ps # fill xs (tl ps)"

definition captures :: "pattern \<Rightarrow> rstr list \<Rightarrow> bool" where
  "captures pat ps \<longleftrightarrow> length ps = length (filter (\<lambda>x. x = None) pat) \<and> list_all (\<lambda>p. p \<noteq> [] \<and> 47 \<notin> set p) ps"

definition path_of :: "pattern \<Rightarrow> rstr list \<Rightarrow> rstr" where
  "path_of pat ps = join [47] ([] # fill pat ps)"

lemma match_fill: "match_segments pat ws = Some ps \<Longrightarrow> ws = fill pat ps"
  by (induction pat ws arbitrary: ps rule: match_segments.induct) (auto split: if_splits)

lemma match_params:
  "match_segments pat ws = Some ps \<Longrightarrow> length ps = length (filter (\<lambda>x. x = None) pat) \<and> list_all (\<lambda>p. p \<noteq> []) ps \<and>
     set ps \<subseteq> set ws"
  by (induction pat ws arbitrary: ps rule: match_segments.induct) (auto split: if_splits)

lemma match_captures:
  assumes "length ps = length (filter (\<lambda>x. x = None) pat)" and "list_all (\<lambda>p. p \<noteq> []) ps"
  shows "match_segments pat (fill pat ps) = Some ps"
  using assms
proof (induction pat ps rule: fill.induct)
  case (3 xs ps)
  then show ?case by (cases ps) auto
qed auto

lemma path_segments_iff: "path_segments path = Some ws \<longleftrightarrow> split_on (\<lambda>c. c = 47) path = [] # ws"
  by (auto simp: path_segments_def split: list.splits)

text \<open>No fixed segment of the table contains the separator.\<close>

definition clean :: "pattern \<Rightarrow> bool" where
  "clean pat \<longleftrightarrow> list_all (\<lambda>x. case x of None \<Rightarrow> True | Some s \<Rightarrow> 47 \<notin> set (lit s)) pat"

lemma fill_clean:
  "clean pat \<Longrightarrow> captures pat ps \<Longrightarrow> w \<in> set (fill pat ps) \<Longrightarrow> 47 \<notin> set w"
  unfolding clean_def captures_def
proof (induction pat ps rule: fill.induct)
  case (3 xs ps)
  then show ?case by (cases ps) auto
qed auto

lemma matching_path:
  assumes "clean pat"
  shows "Option.bind (path_segments path) (match_segments pat) = Some ps \<longleftrightarrow> captures pat ps \<and> path = path_of pat ps"
proof
  assume "Option.bind (path_segments path) (match_segments pat) = Some ps"
  then obtain ws where ws: "split_on (\<lambda>c. c = 47) path = [] # ws" "match_segments pat ws = Some ps"
    by (auto simp: bind_eq_Some_conv path_segments_iff)
  have "47 \<notin> set p" if "p \<in> set ps" for p
    using split_on_pieces [of p "\<lambda>c. c = 47" path] match_params [OF ws(2)] that ws(1) by auto
  then have "captures pat ps"
    using match_params [OF ws(2)] by (auto simp: captures_def list_all_iff)
  moreover have "path = path_of pat ps"
    using join_split_on [of 47 path] ws match_fill [OF ws(2)] by (simp add: path_of_def)
  ultimately show "captures pat ps \<and> path = path_of pat ps" ..
next
  assume a: "captures pat ps \<and> path = path_of pat ps"
  then have "split_on (\<lambda>c. c = 47) path = [] # fill pat ps"
    using fill_clean [OF assms] unfolding path_of_def by (auto intro!: split_on_join)
  moreover have "match_segments pat (fill pat ps) = Some ps"
    using a by (intro match_captures) (auto simp: captures_def list_all_iff)
  ultimately show "Option.bind (path_segments path) (match_segments pat) = Some ps"
    by (simp add: path_segments_iff [THEN iffD2])
qed

text \<open>Two patterns that some path matches have the same length and no two different texts at one position.\<close>

fun overlap :: "pattern \<Rightarrow> pattern \<Rightarrow> bool" where
  "overlap [] [] = True"
| "overlap (x # xs) (y # ys) = ((x = None \<or> y = None \<or> x = y) \<and> overlap xs ys)"
| "overlap _ _ = False"

lemma lit_eq: "lit a = lit b \<longleftrightarrow> a = b"
  by (simp add: lit_def inj_map_eq_map inj_on_def)

lemma match_overlap: "match_segments p ws = Some a \<Longrightarrow> match_segments q ws = Some b \<Longrightarrow> overlap p q"
proof (induction p ws arbitrary: q a b rule: match_segments.induct)
  case (2 s ps w ws)
  then show ?case
    by (cases q; cases "hd q") (auto simp: lit_eq split: if_splits)
next
  case (3 ps w ws)
  then show ?case
    by (cases q; cases "hd q") (auto split: if_splits)
next
  case 1
  then show ?case by (cases q) auto
qed simp_all

fun apart :: "(pattern \<times> 'm) list \<Rightarrow> bool" where
  "apart [] = True"
| "apart (r # rs) = (list_all (\<lambda>q. \<not> overlap (fst r) (fst q)) rs \<and> apart rs)"

lemma find_route_iff:
  assumes "apart rs"
  shows "find_route rs ws = Some (ms, ps) \<longleftrightarrow> (\<exists>pat. (pat, ms) \<in> set rs \<and> match_segments pat ws = Some ps)"
  using assms
proof (induction rs)
  case (Cons r rs)
  show ?case
  proof (cases "match_segments (fst r) ws")
    case None
    with Cons show ?thesis by (cases r) auto
  next
    case (Some qs)
    have "\<not> (pat, ms) \<in> set rs" if "match_segments pat ws = Some ps" for pat
      using match_overlap [OF Some that] Cons.prems by (auto simp: list_all_iff)
    with Some show ?thesis by (cases r) auto
  qed
qed simp

lemma find_route_None: "find_route rs ws = None \<longleftrightarrow> (\<forall>(pat, ms) \<in> set rs. match_segments pat ws = None)"
  by (induction rs) (auto split: option.splits)

lemma build_router_apart: "apart build_router"
  by code_simp

lemma build_router_clean: "(pat, ms) \<in> set build_router \<Longrightarrow> clean pat"
proof -
  have "list_all (\<lambda>r. clean (fst r)) build_router"
    by code_simp
  then show "(pat, ms) \<in> set build_router \<Longrightarrow> clean pat"
    by (auto simp: list_all_iff)
qed

lemma build_router_methods: "(pat, ms) \<in> set build_router \<Longrightarrow> distinct (map fst ms)"
proof -
  have "list_all (\<lambda>r. distinct (map fst (snd r))) build_router"
    by code_simp
  then show "(pat, ms) \<in> set build_router \<Longrightarrow> distinct (map fst ms)"
    by (auto simp: list_all_iff)
qed

lemma routed_iff:
  "Option.bind (path_segments path) (find_route build_router) = Some (ms, ps) \<longleftrightarrow>
     (\<exists>pat. (pat, ms) \<in> set build_router \<and> captures pat ps \<and> path = path_of pat ps)"
proof -
  have "Option.bind (path_segments path) (find_route build_router) = Some (ms, ps) \<longleftrightarrow>
      (\<exists>pat. (pat, ms) \<in> set build_router \<and> Option.bind (path_segments path) (match_segments pat) = Some ps)"
    by (auto simp: bind_eq_Some_conv find_route_iff [OF build_router_apart])
  then show ?thesis
    using matching_path [OF build_router_clean] by blast
qed

section \<open>Extractors\<close>

text \<open>The status with which the framework or one of its extractors rejects a request, or the error of an extractor or handler.\<close>

datatype reply_error = Rejected nat | Failed http_error

record extractors =
  ex_uuid :: "rstr \<Rightarrow> nat + uuid"
  ex_json_content :: "headers \<Rightarrow> bool"
  ex_rule :: "bytes \<Rightarrow> nat + create_alert_rule_input"
  ex_alert_embedding :: "bytes \<Rightarrow> nat + alert_embedding_request"
  ex_source :: "bytes \<Rightarrow> nat + create_source_policy"
  ex_page :: "bytes \<Rightarrow> nat + page_ingest_request"
  ex_reverse :: "bytes \<Rightarrow> nat + reverse_page_request"
  ex_search :: "bytes \<Rightarrow> nat + embedding_search_request"
  ex_evaluate :: "bytes \<Rightarrow> nat + evaluate_matches_request"
  ex_upgrade :: "headers \<Rightarrow> nat + unit"

definition BODY_LIMIT :: nat where "BODY_LIMIT = 6 * 1024 * 1024"

text \<open>\<^verbatim>\<open>Json\<close>: the content type, then the body within the limit of the router, then its decoding.\<close>

definition extract_json :: "extractors \<Rightarrow> (bytes \<Rightarrow> nat + 'a) \<Rightarrow> headers \<Rightarrow> bytes \<Rightarrow> reply_error + 'a" where
  "extract_json X decode headers body =
     (if \<not> ex_json_content X headers then Inl (Rejected 415)
      else if length body > BODY_LIMIT then Inl (Rejected 413)
      else map_err Rejected (decode body))"

text \<open>\<^verbatim>\<open>Path\<close>: a parameter as a UUID; the framework answers 500 when the number of parameters does not fit.\<close>

definition extract_path :: "extractors \<Rightarrow> rstr list \<Rightarrow> reply_error + uuid" where
  "extract_path X params = (case params of [p] \<Rightarrow> map_err Rejected (ex_uuid X p) | _ \<Rightarrow> Inl (Rejected 500))"

definition extract_auth :: "server_deps \<Rightarrow> timestamp \<Rightarrow> headers \<Rightarrow> app_state \<Rightarrow> reply_error + auth_context" where
  "extract_auth D now headers st = map_err Failed (authenticated D now headers st)"

text \<open>The parameters of each handler, in their order.\<close>

fun extract_request :: "server_deps \<Rightarrow> extractors \<Rightarrow> timestamp \<Rightarrow> app_state \<Rightarrow> endpoint \<Rightarrow> rstr list \<Rightarrow> headers \<Rightarrow> bytes \<Rightarrow>
    reply_error + request" where
  "extract_request D X now st Ep_health params h body = Inr Health_Request"
| "extract_request D X now st Ep_list_records params h body =
     bindr (extract_auth D now h st) (\<lambda>_. Inr List_Records)"
| "extract_request D X now st Ep_get_record params h body =
     bindr (extract_auth D now h st) (\<lambda>_.
     bindr (extract_path X params) (\<lambda>i. Inr (Get_Record i)))"
| "extract_request D X now st Ep_create_record params h body =
     bindr (extract_auth D now h st) (\<lambda>_.
     bindr (extract_json X (ex_rule X) h body) (\<lambda>input. Inr (Create_Record input)))"
| "extract_request D X now st Ep_upsert_alert_embedding params h body =
     bindr (extract_path X params) (\<lambda>i.
     bindr (extract_json X (ex_alert_embedding X) h body) (\<lambda>input. Inr (Upsert_Alert_Embedding i input)))"
| "extract_request D X now st Ep_list_sources params h body =
     bindr (extract_auth D now h st) (\<lambda>_. Inr List_Sources)"
| "extract_request D X now st Ep_get_source params h body =
     bindr (extract_auth D now h st) (\<lambda>_.
     bindr (extract_path X params) (\<lambda>i. Inr (Get_Source i)))"
| "extract_request D X now st Ep_create_source params h body =
     bindr (extract_auth D now h st) (\<lambda>_.
     bindr (extract_json X (ex_source X) h body) (\<lambda>input. Inr (Create_Source input)))"
| "extract_request D X now st Ep_ingest_page params h body =
     bindr (extract_path X params) (\<lambda>i.
     bindr (extract_json X (ex_page X) h body) (\<lambda>input. Inr (Ingest_Page i input)))"
| "extract_request D X now st Ep_reverse_match_page params h body =
     bindr (extract_path X params) (\<lambda>i.
     bindr (extract_json X (ex_reverse X) h body) (\<lambda>input. Inr (Reverse_Match_Page i input)))"
| "extract_request D X now st Ep_search_embeddings params h body =
     bindr (extract_auth D now h st) (\<lambda>_.
     bindr (extract_json X (ex_search X) h body) (\<lambda>input. Inr (Search_Embeddings input)))"
| "extract_request D X now st Ep_evaluate_matches params h body =
     bindr (extract_auth D now h st) (\<lambda>_.
     bindr (extract_json X (ex_evaluate X) h body) (\<lambda>input. Inr (Evaluate_Matches input)))"
| "extract_request D X now st Ep_ws_upgrade params h body =
     bindr (extract_auth D now h st) (\<lambda>_.
     bindr (map_err Failed (authorize_websocket_origin h (as_allowed_origins st))) (\<lambda>_.
     bindr (map_err Rejected (ex_upgrade X h)) (\<lambda>_. Inr Ws_Upgrade)))"

record http_request =
  hr_method :: string
  hr_path :: rstr
  hr_headers :: headers
  hr_body :: bytes

definition respond :: "(http_error + nat \<times> body) \<times> app_state \<Rightarrow> (reply_error + nat \<times> body) \<times> app_state" where
  "respond = apfst (map_err Failed)"

definition handle ::
  "server_deps \<Rightarrow> extractors \<Rightarrow> timestamp \<Rightarrow> http_request \<Rightarrow> app_state \<Rightarrow> (reply_error + nat \<times> body) \<times> app_state" where
  "handle D X now r st =
     (case dispatch (hr_method r) (hr_path r) of
        Inl status \<Rightarrow> (Inl (Rejected status), st)
      | Inr (ep, params) \<Rightarrow>
          (case extract_request D X now st ep params (hr_headers r) (hr_body r) of
             Inl e \<Rightarrow> (Inl e, st)
           | Inr req \<Rightarrow> respond (route D now (hr_headers r) req st)))"

section \<open>The CORS layer and the address\<close>

record cors_config =
  co_origins :: "bytes list"
  co_credentials :: bool
  co_methods :: "string list"
  co_headers :: "string list"

definition cors_layer :: "bytes list \<Rightarrow> cors_config" where
  "cors_layer origins =
     \<lparr>co_origins = origins, co_credentials = True, co_methods = [''GET'', ''POST''],
      co_headers = [''authorization'', ''content-type'', TENANT_HEADER, SUBJECT_HEADER, ROLES_HEADER]\<rparr>"

text \<open>
  The layer's crate panics on a wildcard in the list of origins, and on wildcard methods or headers
  together with credentials. A service that has started never does: a wildcard is no origin of an HTTP URL.
\<close>

definition usable_cors :: "cors_config \<Rightarrow> bool" where
  "usable_cors c \<longleftrightarrow> as_bytes (lit ''*'') \<notin> set (co_origins c) \<and>
     (co_credentials c \<longrightarrow> ''*'' \<notin> set (co_methods c) \<and> ''*'' \<notin> set (co_headers c))"

lemma cors_layer_usable:
  assumes "startup D connect rest_ok = Inr st"
    and "\<forall>u b. url_scheme u \<in> {lit ''http'', lit ''https''} \<longrightarrow> sd_header_value D (sd_origin_ascii D u) = Some b \<longrightarrow>
      take 4 b = as_bytes (lit ''http'')"
  shows "usable_cors (cors_layer (as_allowed_origins st))"
proof -
  obtain environment where "configured_origins D environment = Inr (as_allowed_origins st)"
    by (rule startup_Inr [OF assms(1)]) blast
  then obtain raw where "parse_origins D raw = Inr (as_allowed_origins st)"
    by (auto simp: configured_origins_def)
  then have "\<forall>b \<in> set (as_allowed_origins st). take 4 b = as_bytes (lit ''http'')"
    using parse_origins_Inr(3) assms(2) by (fastforce simp: explicit_origin_def)
  moreover have "take 4 (as_bytes (lit ''*'')) \<noteq> as_bytes (lit ''http'')"
    by code_simp
  ultimately show ?thesis
    by (auto simp: usable_cors_def cors_layer_def TENANT_HEADER_def SUBJECT_HEADER_def ROLES_HEADER_def)
qed

definition listen_address :: "environment \<Rightarrow> rstr" where
  "listen_address env =
     (case env ''HOST'' of None \<Rightarrow> lit ''127.0.0.1'' | Some host \<Rightarrow> host) @ lit '':'' @
     (case env ''PORT'' of None \<Rightarrow> lit ''8080'' | Some port \<Rightarrow> port)"

section \<open>Requests that only read\<close>

interpretation still: state_relation "\<lambda>st st'. st' = st" "\<lambda>d d'. d' = d" "\<lambda>e. False"
  by unfold_locales simp_all

lemma reads_still:
  "snd (list_alert_rules E t s a d) = d" "snd (get_alert_rule E t i s a d) = d" "snd (list_sources t d) = d"
  "snd (get_source t i d) = d" "snd (search_embeddings E t request d) = d"
  by (simp_all add: read_only_rules search_embeddings_read_only list_sources_def get_source_def query_def)

fun reading :: "request \<Rightarrow> bool" where
  "reading Health_Request = True"
| "reading List_Records = True"
| "reading (Get_Record _) = True"
| "reading List_Sources = True"
| "reading (Get_Source _) = True"
| "reading (Search_Embeddings _) = True"
| "reading Ws_Upgrade = True"
| "reading _ = False"

lemma reading_still: "reading req \<Longrightarrow> snd (route D now h req st) = st"
  by (cases req; simp only: reading.simps route.simps list_records_def get_record_def route_list_sources_def
      route_get_source_def route_search_embeddings_def ws_upgrade_def; (intro still.H_intros reads_still)?)

text \<open>The endpoints whose handler takes the verified identity.\<close>

definition user_endpoint :: "endpoint \<Rightarrow> bool" where
  "user_endpoint ep \<longleftrightarrow>
     ep \<notin> {Ep_health, Ep_upsert_alert_embedding, Ep_ingest_page, Ep_reverse_match_page}"

definition get_endpoint :: "endpoint \<Rightarrow> bool" where
  "get_endpoint ep \<longleftrightarrow>
     ep \<in> {Ep_health, Ep_list_records, Ep_get_record, Ep_list_sources, Ep_get_source, Ep_ws_upgrade}"

lemma build_router_get: "(pat, ms) \<in> set build_router \<Longrightarrow> (m, ep) \<in> set ms \<Longrightarrow> m = ''POST'' \<or> get_endpoint ep"
proof -
  have "list_all (\<lambda>r. list_all (\<lambda>(m, ep). m = ''POST'' \<or> get_endpoint ep) (snd r)) build_router"
    by code_simp
  then show "(pat, ms) \<in> set build_router \<Longrightarrow> (m, ep) \<in> set ms \<Longrightarrow> m = ''POST'' \<or> get_endpoint ep"
    by (fastforce simp: list_all_iff)
qed

lemma dispatch_Inr:
  "dispatch m path = Inr (ep, ps) \<longleftrightarrow>
     (\<exists>pat ms. (pat, ms) \<in> set build_router \<and> (served_method m, ep) \<in> set ms \<and> captures pat ps \<and> path = path_of pat ps)"
proof -
  have "dispatch m path = Inr (ep, ps) \<longleftrightarrow> (\<exists>ms. Option.bind (path_segments path) (find_route build_router) = Some (ms, ps) \<and>
      map_of ms (served_method m) = Some ep)"
    by (auto simp: dispatch_def split: option.splits)
  also have "\<dots> \<longleftrightarrow> (\<exists>ms pat. ((pat, ms) \<in> set build_router \<and> captures pat ps \<and> path = path_of pat ps) \<and>
      (served_method m, ep) \<in> set ms)"
    unfolding routed_iff using build_router_methods by (metis map_of_eq_Some_iff)
  finally show ?thesis by blast
qed

lemma extract_get: "get_endpoint ep \<Longrightarrow> extract_request D X now st ep ps h b = Inr req \<Longrightarrow> reading req"
  by (cases ep) (auto simp: get_endpoint_def)

lemma extract_unauthenticated:
  "user_endpoint ep \<Longrightarrow> authenticated D now h st = Inl e \<Longrightarrow> extract_request D X now st ep ps h b = Inl (Failed e)"
  by (cases ep) (auto simp: user_endpoint_def extract_auth_def map_err_def)

lemma handle_effect:
  assumes "handle D X now r st = (resp, st')" and "st' \<noteq> st"
  obtains ep ps req t where "dispatch (hr_method r) (hr_path r) = Inr (ep, ps)" and "hr_method r = ''POST''"
    and "extract_request D X now st ep ps (hr_headers r) (hr_body r) = Inr req"
    and "request_tenant D now (hr_headers r) req st = Some t" and "state_frame t st st'"
proof -
  from assms obtain ep ps req where d: "dispatch (hr_method r) (hr_path r) = Inr (ep, ps)"
    and x: "extract_request D X now st ep ps (hr_headers r) (hr_body r) = Inr req"
    and res: "respond (route D now (hr_headers r) req st) = (resp, st')"
    by (auto simp: handle_def split: sum.splits)
  obtain q where q: "route D now (hr_headers r) req st = (q, st')"
    using res by (cases "route D now (hr_headers r) req st") (simp add: respond_def)
  have "\<not> reading req"
    using reading_still [of req D now "hr_headers r" st] q assms(2) by auto
  then have "\<not> get_endpoint ep"
    using extract_get [OF _ x] by blast
  with d have "served_method (hr_method r) = ''POST''"
    unfolding dispatch_Inr using build_router_get by blast
  then have "hr_method r = ''POST''"
    by (simp add: served_method_def split: if_splits)
  moreover obtain t where "request_tenant D now (hr_headers r) req st = Some t" "state_frame t st st'"
    using route_frame [OF q] assms(2) by (cases "request_tenant D now (hr_headers r) req st") auto
  ultimately show ?thesis
    using that d x by blast
qed

section \<open>Properties\<close>


text \<open>
  C6. At the level of HTTP only an accepted POST changes anything: when a request changes the state of the service at
  all, it is a POST request whose path, headers and body were decoded and whose caller acts for a tenant, and the change is
  within the frame of that tenant; GET and HEAD are safe methods. For the handlers that take a verified
  identity, authentication comes before everything else: without it the answer is the error of the
  authentication whatever path parameter, content type and body were sent, so that nothing is decoded.
\<close>

theorem http_effects:
  assumes "handle D X now r st = (resp, st')"
  shows "(st' \<noteq> st \<longrightarrow> hr_method r = ''POST'' \<and>
      (\<exists>ep ps req t. dispatch (hr_method r) (hr_path r) = Inr (ep, ps) \<and>
         extract_request D X now st ep ps (hr_headers r) (hr_body r) = Inr req \<and>
         request_tenant D now (hr_headers r) req st = Some t \<and> state_frame t st st')) \<and>
    (\<forall>ep ps e. dispatch (hr_method r) (hr_path r) = Inr (ep, ps) \<longrightarrow> user_endpoint ep \<longrightarrow>
       authenticated D now (hr_headers r) st = Inl e \<longrightarrow> resp = Inl (Failed e) \<and> err_status e = 401 \<and> st' = st)"
proof (intro conjI impI allI)
  show "hr_method r = ''POST''" if "st' \<noteq> st"
    using handle_effect [OF assms that] by blast
  show "\<exists>ep ps req t. dispatch (hr_method r) (hr_path r) = Inr (ep, ps) \<and>
         extract_request D X now st ep ps (hr_headers r) (hr_body r) = Inr req \<and>
         request_tenant D now (hr_headers r) req st = Some t \<and> state_frame t st st'" if "st' \<noteq> st"
    by (rule handle_effect [OF assms that]) (intro exI conjI)
  fix ep ps e
  assume d: "dispatch (hr_method r) (hr_path r) = Inr (ep, ps)" and u: "user_endpoint ep"
    and a: "authenticated D now (hr_headers r) st = Inl e"
  note x = extract_unauthenticated [OF u a, of X ps "hr_body r"]
  show "resp = Inl (Failed e)" "st' = st"
    using assms by (simp_all add: handle_def d x)
  show "err_status e = 401"
    using a by (rule authenticated_error)
qed

section \<open>Examples\<close>

definition example_extractors :: extractors where
  "example_extractors = \<lparr>ex_uuid = (\<lambda>p. case parse_hyphenated p of None \<Rightarrow> Inl 400 | Some i \<Rightarrow> Inr i), ex_json_content = (\<lambda>_. True),
     ex_rule = (\<lambda>_. Inr example_rule), ex_alert_embedding = (\<lambda>_. Inl 400), ex_source = (\<lambda>_. Inl 400), ex_page = (\<lambda>_. Inl 400),
     ex_reverse = (\<lambda>_. Inl 400), ex_search = (\<lambda>_. Inl 400), ex_evaluate = (\<lambda>_. Inl 400), ex_upgrade = (\<lambda>_. Inr ())\<rparr>"

definition create_request :: "headers \<Rightarrow> http_request" where
  "create_request h = \<lparr>hr_method = ''POST'', hr_path = lit ''/v1/alerts'', hr_headers = h, hr_body = []\<rparr>"

lemma create_request_dispatch:
  "dispatch (hr_method (create_request h)) (hr_path (create_request h)) = Inr (Ep_create_record, [])"
proof -
  have "dispatch ''POST'' (lit ''/v1/alerts'') = Inr (Ep_create_record, [])"
    by code_simp
  then show ?thesis by (simp add: create_request_def)
qed

lemma example_create_handled:
  "\<exists>e st'. handle api_deps example_extractors 5 (create_request api_headers) (api_state (empty_db False)) =
     (Inr (201, Rule_Body (rule_of_input 1 2 5 7 (lit ''user-1'') example_rule_normal)), st') \<and> as_events st' = [e]"
proof -
  have x: "extract_request api_deps example_extractors 5 (api_state (empty_db False)) Ep_create_record [] api_headers [] =
      Inr (Create_Record example_rule)"
    by (simp add: extract_auth_def api_authenticated map_err_def extract_json_def example_extractors_def BODY_LIMIT_def)
  have f: "hr_headers (create_request h) = h" "hr_body (create_request h) = []" for h
    by (simp_all add: create_request_def)
  show ?thesis
    using api_create unfolding handle_def create_request_dispatch f sum.case prod.case x
    by (auto simp: respond_def map_err_def simp del: route.simps)
qed

theorem http_effects_witness:
  "\<exists>x st'. handle api_deps example_extractors 5 (create_request api_headers) (api_state (empty_db False)) = (Inr (201, x), st') \<and>
     st' \<noteq> api_state (empty_db False) \<and> (\<exists>t. state_frame t (api_state (empty_db False)) st') \<and>
     (\<exists>e. handle api_deps example_extractors 5 (create_request []) (api_state (empty_db False)) =
        (Inl (Failed e), api_state (empty_db False)))"
proof -
  let ?st = "api_state (empty_db False)"
  obtain x st' e where run: "handle api_deps example_extractors 5 (create_request api_headers) ?st = (Inr (201, x), st')"
    and ev: "as_events st' = [e]"
    using example_create_handled by blast
  have ne: "st' \<noteq> ?st"
    using ev api_ready(3) by auto
  have frame: "\<exists>t. state_frame t ?st st'"
    using conjunct2 [OF conjunct1 [OF http_effects [OF run], THEN mp, OF ne]] by (elim exE conjE) (rule exI)
  obtain resp st2 where bad: "handle api_deps example_extractors 5 (create_request []) ?st = (resp, st2)"
    by (cases "handle api_deps example_extractors 5 (create_request []) ?st")
  obtain err where "authenticated api_deps 5 (hr_headers (create_request [])) ?st = Inl err"
    using api_unauthenticated [of 5 "empty_db False"] by (auto simp: create_request_def)
  then have "resp = Inl (Failed err)" "st2 = ?st"
    using conjunct2 [OF http_effects [OF bad], rule_format, OF create_request_dispatch] by (simp_all add: user_endpoint_def)
  with bad have "handle api_deps example_extractors 5 (create_request []) ?st = (Inl (Failed err), ?st)"
    by simp
  then show ?thesis
    using run ne frame by (intro exI [of _ x] exI [of _ st'] conjI exI [of _ err])
qed

end
