(* ===== verification/Responses.thy ===== *)
theory Responses
  imports Router Evaluation
begin

text \<open>
  What a client can receive from each endpoint: the status and type of a success, and the statuses of its errors. The contract
  of the errors is the locale \<open>errors_within\<close>: a class of errors that contains the database's is kept by statements,
  transactions and handlers. It is interpreted on every list of statuses.
\<close>

section \<open>Errors of statements and handlers\<close>

definition within :: "('e \<Rightarrow> bool) \<Rightarrow> ('s \<Rightarrow> ('e + 'a) \<times> 's) \<Rightarrow> bool" where
  "within P m \<longleftrightarrow> (\<forall>st e. fst (m st) = Inl e \<longrightarrow> P e)"

lemma withinI: "(\<And>st e st'. m st = (Inl e, st') \<Longrightarrow> P e) \<Longrightarrow> within P m"
  unfolding within_def by (metis prod.collapse)

lemma withinD: "within P m \<Longrightarrow> m st = (Inl e, st') \<Longrightarrow> P e"
  unfolding within_def by (metis fst_conv)

lemma within_mono: "within P m \<Longrightarrow> (\<And>e. P e \<Longrightarrow> Q e) \<Longrightarrow> within Q m"
  by (auto simp: within_def)

locale errors_within =
  fixes P :: "http_error \<Rightarrow> bool"
  assumes P_db: "P db_error"
begin

lemma P_internal: "P (HttpError_internal m)"
  using P_db unfolding db_error_def HttpError_internal_def .

lemma W_ret: "within P (ret x)"
  by (simp add: within_def ret_def)

lemma W_fail: "P e \<Longrightarrow> within P (fail e)"
  by (simp add: within_def fail_def)

lemma W_of_result: "(\<And>e. r = Inl e \<Longrightarrow> P e) \<Longrightarrow> within P (of_result r)"
  by (auto simp: within_def of_result_def)

lemma W_statement: "within P (statement f)"
  using P_db by (auto simp: within_def statement_def split: option.splits)

lemma W_query: "within P (query f)"
  by (simp add: within_def query_def)

lemma W_new_uuid: "within P (new_uuid E)"
  by (simp add: within_def new_uuid_def)

lemma W_set_request_context: "within P (set_request_context t s a)"
  unfolding set_request_context_def by (rule W_statement)

lemma W_seq: "within P m \<Longrightarrow> (\<And>x. within P (k x)) \<Longrightarrow> within P (seq m k)"
  by (rule withinI) (auto simp: seq_def dest: withinD split: prod.splits sum.splits)

lemma W_seq_result:
  assumes "within P m" and "\<And>x st st'. m st = (Inr x, st') \<Longrightarrow> within P (k x)"
  shows "within P (seq m k)"
  by (rule withinI) (auto simp: seq_def dest: withinD [OF assms(1)] withinD [OF assms(2)] split: prod.splits sum.splits)

lemma W_transaction: "within P m \<Longrightarrow> within P (transaction m)"
  by (rule withinI) (auto simp: transaction_def dest: withinD split: prod.splits sum.splits)

lemma W_map_stmt: "(\<And>x. within P (f x)) \<Longrightarrow> within P (map_stmt f xs)"
  by (induction xs) (simp_all add: W_ret W_seq)

lemma W_decode: "decode_json_row row = Inl e \<Longrightarrow> P e"
  using P_db by (simp add: decode_json_row_def)

lemma W_decode_row: "decode_row f rows = Inl e \<Longrightarrow> P e"
  using W_decode by (auto simp: decode_row_def bindr_eq_Inl split: list.splits)

lemma W_decode_rows: "traverse (\<lambda>row. decode_json_row (f row)) rows = Inl e \<Longrightarrow> P e"
  using W_decode by (induction rows) (auto simp: bindr_eq_Inl)

lemma W_candidate_upsert: "P missing \<Longrightarrow> within P (candidate_upsert E row_of existing decode missing)"
  unfolding candidate_upsert_def by (intro W_seq W_statement W_of_result) (auto intro: W_decode_row)

lemma W_hret: "within P (hret x)"
  by (simp add: within_def hret_def)

lemma W_hres: "(\<And>e. r = Inl e \<Longrightarrow> P e) \<Longrightarrow> within P (hres r)"
  by (auto simp: within_def hres_def)

lemma W_hask: "(\<And>st e. f st = Inl e \<Longrightarrow> P e) \<Longrightarrow> within P (hask f)"
  by (auto simp: within_def hask_def)

lemma W_hseq: "within P m \<Longrightarrow> (\<And>x. within P (k x)) \<Longrightarrow> within P (hseq m k)"
  by (rule withinI) (auto simp: hseq_def dest: withinD split: prod.splits sum.splits)

lemma W_prod: "(\<And>a b. within P (f a b)) \<Longrightarrow> within P (case_prod f p)"
  by (cases p) simp

lemma W_hmap: "within P m \<Longrightarrow> within P (hmap f m)"
  unfolding hmap_def by (intro W_hseq W_hret)

lemma W_execute: "within P m \<Longrightarrow> P HttpError_database_required \<Longrightarrow> within P (execute m)"
  by (rule withinI) (auto simp: execute_def dest: withinD split: prod.splits option.splits)

lemma W_publish_event: "within P (publish_event D now t a ty x)"
  using P_internal by (auto simp: within_def publish_event_def split: sum.splits)

lemma W_publish_candidates: "within P (publish_candidates D now t owner cs)"
  by (induction cs rule: rev_induct)
    (auto simp: publish_candidates_snoc publish_candidates_def [of _ _ _ _ "[]"] intro: W_hret W_hseq W_publish_event)

lemmas W_intros = W_ret W_fail W_of_result W_statement W_query W_new_uuid W_set_request_context W_seq W_transaction
  W_map_stmt W_candidate_upsert W_hret W_hres W_hask W_hseq W_prod W_hmap W_execute W_publish_event W_publish_candidates

lemmas W_dests = W_decode W_decode_row W_decode_rows

end

definition status_in :: "nat list \<Rightarrow> http_error \<Rightarrow> bool" where
  "status_in ss e \<longleftrightarrow> err_status e = 500 \<or> err_status e \<in> set ss"

interpretation status: errors_within "status_in ss" for ss
  by unfold_locales (simp add: status_in_def db_error_def)

lemma status_in_mono: "within (status_in ss) m \<Longrightarrow> set ss \<subseteq> set ss' \<Longrightarrow> within (status_in ss') m"
  by (erule within_mono) (auto simp: status_in_def)

section \<open>Errors of the store\<close>

lemma validated_error: "validated r = Inl e \<Longrightarrow> err_status e = 422"
  by (auto simp: validated_def split: sum.splits)

lemma store_errors:
  "within (status_in ss) (list_alert_rules E t s a)" "within (status_in ss) (get_alert_rule E t i s a)"
  "within (status_in ss) (create_alert_rule E now t s rule)" "within (status_in ss) (list_sources t)"
  "within (status_in ss) (get_source t i)" "within (status_in ss) (ingest_page E now t i page orig fin)"
  "within (status_in ss) (search_embeddings E t search)" "within (status_in ss) (evaluate_matches E now t i v th search)"
proof -
  show s: "within (status_in ss) (search_embeddings E t search)" for search
    unfolding search_embeddings_def by (intro status.W_intros) (auto dest: status.W_dests)
  show "within (status_in ss) (evaluate_matches E now t i v th search)"
    unfolding evaluate_matches_def upsert_candidate_def by (intro status.W_intros s status.P_internal)
  show "within (status_in ss) (ingest_page E now t i page orig fin)"
    unfolding ingest_page_def
    by (rule status.W_seq [OF status.W_statement]) (auto intro: status.W_intros status.P_internal split: list.split)
  have one: "within (status_in ss) (require_one what n)" for what n
    by (simp add: require_one_def status.W_ret status.W_fail status.P_internal)
  show "within (status_in ss) (create_alert_rule E now t s rule)"
    unfolding create_alert_rule_def creation_def [symmetric]
  proof (intro status.W_seq [OF status.W_new_uuid] status.W_seq_result status.W_of_result)
    fix i j e st st' and x :: "http_error + alert_rule"
    show "within (status_in ss) (transaction (creation E now t s rule i j))"
      unfolding creation_def insert_rule_def insert_rule_revision_def activate_rule_def
      by (intro status.W_intros one) (auto dest: status.W_dests)
    assume "transaction (creation E now t s rule i j) st = (Inr x, st')" "x = Inl e"
    then obtain r where "ok_or (HttpError_internal (lit ''alert-rule creation returned no durable record'')) r = Inl e"
      by (auto simp: creation_def seq_Inr transaction_Inr ret_eq dest!: sym [of "Inl e"])
    then show "status_in ss e"
      using status.P_internal by simp
  qed
qed (unfold list_alert_rules_def get_alert_rule_def list_sources_def get_source_def,
    (intro status.W_intros; auto dest: status.W_dests)+)

lemma require_alert_rule_errors: "404 \<in> set ss \<Longrightarrow> within (status_in ss) (require_alert_rule E t i s a)"
  unfolding require_alert_rule_def
  by (intro status.W_intros store_errors) (auto simp: status_in_def)

lemma create_source_errors: "409 \<in> set ss \<Longrightarrow> within (status_in ss) (create_source E now t input root)"
  unfolding create_source_def by (intro status.W_intros) (auto simp: status_in_def)

lemma upsert_alert_rule_embedding_errors:
  assumes "409 \<in> set ss" and "422 \<in> set ss"
  shows "within (status_in ss) (upsert_alert_rule_embedding E V now t i request)"
  unfolding upsert_alert_rule_embedding_def
  by (intro status.W_seq status.W_statement status.W_of_result)
    (use assms in \<open>auto simp: status_in_def dest: validated_error intro!: status.W_intros split: list.split\<close>)

lemma upsert_page_revision_errors: "within (status_in ss) (upsert_page_revision E now t s request orig fin)"
  unfolding upsert_page_revision_def
  by (rule status.W_seq [OF status.W_statement]) (auto intro!: status.W_intros status.P_internal split: list.split)

lemma ingest_and_reverse_match_errors:
  assumes "409 \<in> set ss" and "422 \<in> set ss"
  shows "within (status_in ss) (ingest_and_reverse_match E V now t s request orig fin)"
  unfolding ingest_and_reverse_match_def persist_reverse_candidate_def find_alert_candidates_def
  by (intro status.W_intros upsert_page_revision_errors)
    (use assms in \<open>auto simp: status_in_def dest: validated_error status.W_dests\<close>)

section \<open>Errors of the endpoints\<close>

text \<open>The statuses an endpoint may answer with, other than a success or a rejection by the framework.\<close>

fun failures :: "endpoint \<Rightarrow> nat list" where
  "failures Ep_health = []"
| "failures Ep_list_records = [401, 500, 503]"
| "failures Ep_get_record = [401, 404, 500, 503]"
| "failures Ep_create_record = [401, 422, 500, 503]"
| "failures Ep_upsert_alert_embedding = [401, 409, 422, 500, 503]"
| "failures Ep_list_sources = [401, 500, 503]"
| "failures Ep_get_source = [401, 404, 500, 503]"
| "failures Ep_create_source = [401, 403, 409, 422, 500, 503]"
| "failures Ep_ingest_page = [400, 401, 404, 422, 500, 503]"
| "failures Ep_reverse_match_page = [400, 401, 404, 409, 422, 500, 503]"
| "failures Ep_search_embeddings = [401, 422, 500, 503]"
| "failures Ep_evaluate_matches = [401, 404, 422, 500, 503]"
| "failures Ep_ws_upgrade = [401, 403]"

fun endpoint_of :: "request \<Rightarrow> endpoint" where
  "endpoint_of Health_Request = Ep_health"
| "endpoint_of List_Records = Ep_list_records"
| "endpoint_of (Get_Record _) = Ep_get_record"
| "endpoint_of (Create_Record _) = Ep_create_record"
| "endpoint_of (Upsert_Alert_Embedding _ _) = Ep_upsert_alert_embedding"
| "endpoint_of List_Sources = Ep_list_sources"
| "endpoint_of (Get_Source _) = Ep_get_source"
| "endpoint_of (Create_Source _) = Ep_create_source"
| "endpoint_of (Ingest_Page _ _) = Ep_ingest_page"
| "endpoint_of (Reverse_Match_Page _ _) = Ep_reverse_match_page"
| "endpoint_of (Search_Embeddings _) = Ep_search_embeddings"
| "endpoint_of (Evaluate_Matches _) = Ep_evaluate_matches"
| "endpoint_of Ws_Upgrade = Ep_ws_upgrade"

lemma extract_endpoint: "extract_request D X now st ep ps h b = Inr req \<Longrightarrow> endpoint_of req = ep"
  by (cases ep) auto

lemma check_errors:
  "require_database st = Inl e \<Longrightarrow> err_status e = 503" "require_tenant_admin auth = Inl e \<Longrightarrow> err_status e = 403"
  "map_err HttpError_validation r = Inl e \<Longrightarrow> err_status e = 422" "same_source_id i j = Inl e \<Longrightarrow> err_status e = 400"
  "require_enabled_alert_rule b = Inl e \<Longrightarrow> err_status e = 422"
  "authorize_websocket_origin h os = Inl e \<Longrightarrow> err_status e = 403"
  by (auto simp: require_database_def require_tenant_admin_def map_err_def same_source_id_def require_enabled_alert_rule_def
      authorize_websocket_origin_def bindr_eq_Inl split: if_splits option.splits sum.splits)

lemmas endpoint_errors = store_errors require_alert_rule_errors create_source_errors upsert_alert_rule_embedding_errors
  ingest_and_reverse_match_errors

lemmas error_dests = authenticated_error worker_tenant_error validated_error check_errors

lemma route_errors:
  assumes "endpoint_of req \<noteq> Ep_health" and "endpoint_of req \<noteq> Ep_ws_upgrade"
  shows "within (status_in (failures (endpoint_of req))) (route D now h req)"
  using assms
  by (cases req; simp only: endpoint_of.simps failures.simps route.simps list_records_def get_record_def create_record_def
      route_upsert_alert_embedding_def route_list_sources_def route_get_source_def route_create_source_def
      route_ingest_page_def reverse_match_page_def route_search_embeddings_def route_evaluate_matches_def page_source_def Let_def;
    (intro status.W_intros endpoint_errors)?)
    (auto simp: status_in_def dest!: error_dests split: if_splits)

lemma route_error_status:
  assumes "route D now h req st = (Inl e, st')"
  shows "err_status e \<in> set (failures (endpoint_of req))"
proof (cases "endpoint_of req = Ep_health \<or> endpoint_of req = Ep_ws_upgrade")
  case True
  with assms show ?thesis
    by (cases req) (auto simp: hask_def hmap_def ws_upgrade_def hseq_def hret_def
        dest!: error_dests split: sum.splits prod.splits)
next
  case False
  then have "status_in (failures (endpoint_of req)) e"
    using withinD [OF route_errors assms] by simp
  moreover have "500 \<in> set (failures (endpoint_of req))"
    using False by (cases req) simp_all
  ultimately show ?thesis
    by (auto simp: status_in_def)
qed

section \<open>Types of the responses\<close>

fun well_typed :: "endpoint \<Rightarrow> nat \<Rightarrow> body \<Rightarrow> bool" where
  "well_typed Ep_health code b \<longleftrightarrow> code = 200 \<and> (\<exists>x. b = Health_Body x)"
| "well_typed Ep_list_records code b \<longleftrightarrow> code = 200 \<and> (\<exists>x. b = Rules_Body x)"
| "well_typed Ep_get_record code b \<longleftrightarrow> code = 200 \<and> (\<exists>x. b = Rule_Body x)"
| "well_typed Ep_create_record code b \<longleftrightarrow> code = 201 \<and> (\<exists>x. b = Rule_Body x)"
| "well_typed Ep_upsert_alert_embedding code b \<longleftrightarrow> (case b of Receipt_Body x \<Rightarrow> code = (if rc_created x then 201 else 200) | _ \<Rightarrow> False)"
| "well_typed Ep_list_sources code b \<longleftrightarrow> code = 200 \<and> (\<exists>x. b = Sources_Body x)"
| "well_typed Ep_get_source code b \<longleftrightarrow> code = 200 \<and> (\<exists>x. b = Source_Body x)"
| "well_typed Ep_create_source code b \<longleftrightarrow> code = 201 \<and> (\<exists>x. b = Source_Body x)"
| "well_typed Ep_ingest_page code b \<longleftrightarrow> (case b of Revision_Body x \<Rightarrow> code = (if pv_changed x then 201 else 200) | _ \<Rightarrow> False)"
| "well_typed Ep_reverse_match_page code b \<longleftrightarrow> (case b of Reverse_Body x \<Rightarrow> code = (if rm_changed x then 201 else 200) | _ \<Rightarrow> False)"
| "well_typed Ep_search_embeddings code b \<longleftrightarrow> code = 200 \<and> (\<exists>x y. b = Search_Body x y)"
| "well_typed Ep_evaluate_matches code b \<longleftrightarrow> code = 200 \<and> (\<exists>x. b = Candidates_Body x)"
| "well_typed Ep_ws_upgrade code b \<longleftrightarrow> code = 101 \<and> (\<exists>x. b = Socket_Body x)"

lemma hmap_Inr: "hmap f m st = (Inr y, st') \<longleftrightarrow> (\<exists>x. m st = (Inr x, st') \<and> y = f x)"
  by (auto simp: hmap_def hseq_Inr hret_Inr)

lemma success_codes:
  "create_record D now h rule st = (Inr (c, x), st') \<Longrightarrow> c = 201"
  "route_upsert_alert_embedding D now h i embedding st = (Inr (c, y), st') \<Longrightarrow> c = (if rc_created y then 201 else 200)"
  "route_create_source D now h source st = (Inr (c, z), st') \<Longrightarrow> c = 201"
  "route_ingest_page D now h i page st = (Inr (c, v), st') \<Longrightarrow> c = (if pv_changed v then 201 else 200)"
  "reverse_match_page D now h i reverse st = (Inr (c, w), st') \<Longrightarrow> c = (if rm_changed w then 201 else 200)"
  unfolding create_record_def route_upsert_alert_embedding_def route_create_source_def route_ingest_page_def
    reverse_match_page_def hseq_Inr hret_Inr
  by (auto simp: hseq_Inr hret_Inr split: prod.splits)

lemma route_success_type: "route D now h req st = (Inr (code, b), st') \<Longrightarrow> well_typed (endpoint_of req) code b"
  by (cases req) (auto simp: hmap_Inr hask_Inr dest: success_codes)

lemma extract_Failed:
  "extract_json X decode h b \<noteq> Inl (Failed e)" "extract_path X ps \<noteq> Inl (Failed e)"
  "extract_auth D now h st = Inl (Failed e) \<longleftrightarrow> authenticated D now h st = Inl e"
  by (auto simp: extract_json_def extract_path_def extract_auth_def split: list.splits)

section \<open>Properties\<close>

text \<open>
  C7. Every endpoint keeps to its contract. What a request that reaches a handler is answered with is one of
  three: a success with the status and the type of body of that endpoint, 201 exactly when something was created or changed where the
  endpoint distinguishes it; an error of the service with one of the statuses listed for that endpoint; or the rejection of an extractor,
  and then nothing has happened.
\<close>

theorem response_typed:
  assumes "handle D X now r st = (resp, st')" and "dispatch (hr_method r) (hr_path r) = Inr (ep, ps)"
  shows "case resp of
      Inr (code, b) \<Rightarrow> well_typed ep code b
    | Inl (Failed e) \<Rightarrow> err_status e \<in> set (failures ep)
    | Inl (Rejected status) \<Rightarrow> extract_request D X now st ep ps (hr_headers r) (hr_body r) = Inl (Rejected status) \<and> st' = st"
proof (cases "extract_request D X now st ep ps (hr_headers r) (hr_body r)")
  case (Inl e)
  have "err_status x \<in> set (failures ep)" if "e = Failed x" for x
    using Inl that
    by (cases ep) (auto simp: bindr_eq_Inl extract_Failed dest!: error_dests)
  with Inl assms show ?thesis
    by (auto simp: handle_def split: reply_error.splits)
next
  case (Inr req)
  obtain q where q: "route D now (hr_headers r) req st = (q, st')" "resp = map_err Failed q"
    using assms Inr by (cases "route D now (hr_headers r) req st") (simp add: handle_def respond_def)
  have ep: "endpoint_of req = ep"
    using Inr by (rule extract_endpoint)
  show ?thesis
    using q route_error_status route_success_type unfolding ep [symmetric] by (cases q) fastforce+
qed

theorem response_typed_witness:
  "\<exists>x st'. handle api_deps example_extractors 5 (create_request api_headers) (api_state (empty_db False)) =
       (Inr (201, Rule_Body x), st') \<and>
     (\<forall>code b st'. handle api_deps example_extractors 5 (create_request api_headers) (api_state (empty_db False)) =
        (Inr (code, b), st') \<longrightarrow> well_typed Ep_create_record code b)"
proof -
  obtain x st' where "handle api_deps example_extractors 5 (create_request api_headers) (api_state (empty_db False)) =
      (Inr (201, Rule_Body x), st')"
    using example_create_handled by blast
  then show ?thesis
    using response_typed [OF _ create_request_dispatch, of api_deps example_extractors 5 api_headers "api_state (empty_db False)"]
    by fastforce
qed

end
