(* ===== verification/Spec2Isabelle.thy ===== *)
theory Spec2Isabelle
  imports Http_Errors Source_Scope Alerts Indexing Worker_Auth Auth Alert_Embeddings Query_Embedding Tenant_Reads
    Evaluation Responses
begin

text \<open>
  Verification of the Embedded Alerts API (the Rust crates under \<^verbatim>\<open>src/\<close>).

  \<^bold>\<open>The program.\<close> A multi-tenant HTTP and WebSocket service. Users store alert rules: a text query, an
  embedding model, a similarity threshold and source filters. A crawler delivers pages with their embeddings. The
  service matches pages and rules in both directions: a user evaluates a rule against the stored pages
  (historical search), and a delivered page is matched against the stored rule embeddings (reverse
  stream). Matches are durable evidence in PostgreSQL, and are announced on a broadcast channel that
  WebSocket clients read. Every request acts for one tenant, taken from a verified JWT, or from a header for an
  authenticated crawler.

  \<^bold>\<open>Shared theories.\<close> \<open>Prelude\<close> holds results with early return, ordered sets as \<^verbatim>\<open>BTreeSet\<close> provides them
  (locale \<open>ordered_set\<close>, interpreted on sorted lists) and list lemmas. \<open>Rust_Text\<close> models Rust's strings as lists of
  code points with trimming, splitting and case folding. \<open>Uuid_Text\<close> has the hyphenated form of UUIDs and the
  contract of a UUID codec. \<open>Json\<close> models \<^verbatim>\<open>serde_json\<close> values. \<open>Floats\<close> and \<open>Float_Arith\<close> model
  IEEE-754 singles and doubles on their bit patterns: conversions, comparison, the order PostgreSQL uses, and
  correctly rounded addition, multiplication, division and square root on exact integers, so that no
  rounding is assumed away.

  \<^bold>\<open>Components.\<close>
  \<^item> \<open>Http_Errors\<close> (\<^verbatim>\<open>error.rs\<close>): the error constructors and their responses.
  \<^item> \<open>Source_Scope\<close> (\<^verbatim>\<open>source_scope.rs\<close>): filter parsing and the sources an evaluation may search. The code refines the
    set-level policy of \<^verbatim>\<open>formal/source-scope/model.py\<close>.
  \<^item> \<open>Alerts\<close> (\<^verbatim>\<open>alerts.rs\<close>): normalisation and validation of rules; normalising is idempotent and yields valid rules.
  \<^item> \<open>Indexing\<close> (\<^verbatim>\<open>indexing.rs\<close>): canonical URLs and the host and path allowlists, characterised exactly.
  \<^item> \<open>Worker_Auth\<close> (\<^verbatim>\<open>worker_auth.rs\<close>): the crawler's token and its constant-time comparison.
  \<^item> \<open>Auth\<close> (\<^verbatim>\<open>auth_runtime.rs\<close>, \<^verbatim>\<open>tenant.rs\<close>): configuration, credential extraction, HS256
    tokens with their claims and validity window, roles; acceptance is characterised exactly.
  \<^item> \<open>Database\<close> and \<open>Integrity\<close> (the tables of \<^verbatim>\<open>migrations/\<close>): rows, keys, checks, references,
    row-level security and the limit trigger; statements, transactions and rollback as a state-and-error
    monad. The locale \<open>upsert_table\<close> is the contract of an insert with a conflict clause, interpreted on each of the eight
    tables; \<open>stmt_relation\<close> lifts a relation between states from statements to whole programs, interpreted on the
    invariant \<open>db_wf\<close>, on \<open>evidence_kept\<close> (evidence is only appended) and on \<open>tenant_frame\<close> (other tenants' rows are as before).
  \<^item> \<open>Alert_Store\<close> (\<^verbatim>\<open>alert_store.rs\<close>): listing, reading and creating rules under row-level security.
  \<^item> \<open>Store\<close>, \<open>Store_Integrity\<close>, \<open>Search\<close>, \<open>Matching\<close> (\<^verbatim>\<open>store.rs\<close>): sources, page ingestion, vector search with
    cursors, match keys and evaluation. The locale \<open>retry_safe\<close> is the contract of an upsert that can be repeated;
    it is interpreted on the historical and on the reverse candidates.
  \<^item> \<open>Reverse_Match\<close>, \<open>Reverse_Stream\<close>, \<open>Alert_Embeddings\<close> (\<^verbatim>\<open>reverse_match.rs\<close>): rule embeddings, page revisions and reverse
    candidates: bounds, retry safety, immutability, fingerprints.
  \<^item> \<open>Query\<close> (\<^verbatim>\<open>crates/query\<close>) and \<open>Query_Embedding\<close> (\<^verbatim>\<open>query_embedding.rs\<close>, \<^verbatim>\<open>crates/interfaces-compat\<close>,
    \<^verbatim>\<open>bin/semantic_query_probe.rs\<close>): query analysis with its reference definition; the embedding provider's endpoint
    policy, reply checks and the bounds of the computed vector.
  \<^item> \<open>Migrations\<close> (\<^verbatim>\<open>migrations.rs\<close>): the scripts in order in one transaction, and the readiness query.
  \<^item> \<open>Server_Runtime\<close> (\<^verbatim>\<open>server_runtime.rs\<close>, \<^verbatim>\<open>main.rs\<close>): the application state as one record, start-up and its policy, health.
  \<^item> \<open>Server_Websocket\<close> (\<^verbatim>\<open>server_websocket.rs\<close>): origins, event visibility, and the delivery loops of a client as
    a step relation over the broadcast log, interleaved with publishers.
  \<^item> \<open>Server_Routes\<close> (\<^verbatim>\<open>server_routes.rs\<close>): every handler, as a function from the application state to a
    response and the state afterwards, and \<open>route\<close>, which runs the handler of a decoded request.
  \<^item> \<open>Router\<close> (\<^verbatim>\<open>build_router\<close> of \<^verbatim>\<open>server_runtime.rs\<close>, the parameter lists of \<^verbatim>\<open>server_routes.rs\<close>, \<^verbatim>\<open>cors_layer\<close> of
    \<^verbatim>\<open>server_websocket.rs\<close>): from an HTTP request to a handler: the routing table, the choice by path and method, the extractors
    in the order of each handler's parameters (\<open>extract_request\<close>), the body limit, and \<open>handle\<close>, which composes them with
    \<open>route\<close>. Routing is exact, only an accepted POST changes anything, and authentication precedes
    decoding for every handler that takes a verified identity. The CORS configuration of a started service is one its crate accepts.
  \<^item> \<open>Responses\<close>: the contract of every endpoint, its success codes and type of body, and the errors it can answer with. The
    locale \<open>errors_within\<close> carries a bound on statuses through the combinators of the handlers.

  \<^bold>\<open>The service as a whole.\<close> \<open>Api\<close> states what any request, and any sequence of requests, does to the state. Its locale
  \<open>state_relation\<close> is the contract between handlers and store: what every store operation and
  every published event establishes, every handler establishes; it is interpreted on the frame of a tenant, and on equality
  in \<open>Router\<close> for the requests that only read.
  \<open>Tenant_Reads\<close> shows that reading requests depend on the tenant's own rows only, so that other tenants cannot be observed
  through them. \<open>Evaluation\<close> follows one evaluation through authentication, rule, scope, search, evidence and announcement; the
  property at the end of this theory follows it further to the clients: who is told of the matches, and of which.

  \<^bold>\<open>Parameters.\<close> Code outside the repository is an argument, with what is needed of it as hypotheses of the
  theorems: PostgreSQL's vector type, UUID generation and JSON transport of floating-point columns, SHA-256, HMAC, base64 and
  hexadecimal coding (\<open>ext\<close>, \<open>auth_crates\<close>), the URL crate (\<open>url_crate\<close>), the interface crate's validators
  (\<open>interfaces\<close>), the embedding provider (\<open>provider\<close>), the framework's decoding of a path parameter, a JSON body and a
  WebSocket handshake (\<open>extractors\<close>), the Unicode tables of the query crate, the process environment and the clock. Every theorem with such a hypothesis has a witness at concrete functions.

  \<^bold>\<open>Atomicity.\<close> A store operation runs on the database as a whole, as its transaction or single statement does; a
  run of the service is a sequence of requests. The interleaving that is modelled is that of publishers and
  WebSocket tasks. Operations that the code performs without a transaction leave their partial effects in the model.

  \<^bold>\<open>Bounds and fuel.\<close> No definition of the service needs fuel: loops recurse on lists or have a termination proof.
  Only the client that follows search cursors takes a number of requests; the theorem about it
  shows that one more than the number of rows is enough. The broadcast channel keeps \<open>CHANNEL_CAPACITY\<close> events as the code does.

  \<^bold>\<open>Not modelled.\<close> Log lines and tracing, the answers of the CORS layer to preflight requests, the listener and its shutdown are
  the work of frameworks. Printing of the probe's report, tests, container images and scripts carry no logic of the
  service. The crawl-queue and semantic-input tables are created by the migrations, but no Rust code of the
  repository uses them. \<^verbatim>\<open>reverse_match.rs\<close> has private copies of helpers of \<^verbatim>\<open>store.rs\<close> (\<^verbatim>\<open>normalize_content\<close>,
  \<^verbatim>\<open>vector_literal\<close>, \<^verbatim>\<open>match_key\<close>, \<^verbatim>\<open>sha256_hex\<close> and others) with the same text; one definition models both.
\<close>

section \<open>Who is told of a match\<close>

lemma announced_visible:
  assumes "announces D now t owner c e"
  shows "event_visible_to e auth \<longleftrightarrow> ctx_tenant_id auth = t \<and> can_access_owner auth owner"
  using assms by (auto simp: announces_def event_visible_to_def)

lemma announced_payloads:
  assumes "list_all2 (announces D now t owner) cs es"
  shows "if ctx_tenant_id auth = t \<and> can_access_owner auth owner
    then list_all2 (\<lambda>c p. sd_to_json D ''match.candidate'' t now (Candidate_Data c) = Inr p) cs (visible_payloads auth es)
    else visible_payloads auth es = []"
  using assms
  by (induction rule: list_all2_induct) (auto simp: visible_payloads_def announced_visible announces_def split: if_splits)

text \<open>
  C5. The owner of a rule is notified, and nobody else learns of a match. When a rule has been evaluated, every connected client that
  had read all earlier events is sent, once its send loop waits again, the following: if the client belongs to the tenant and is the rule's
  owner or an administrator, one message for each candidate of the response, in the order of the response; if not, nothing at all.
  (A receiver keeps 512 events; a response with more candidates could outrun it.)
\<close>

theorem match_notification:
  assumes "route D now h (Evaluate_Matches input) st = (Inr (code, Candidates_Body cs), st')" and "as_db st = Some d" and "db_wf d"
    and "\<forall>x y. json_f32 (sd_ext D) x = Some y \<longrightarrow> y = x"
    and "length cs \<le> 512" and "su_next s = length (as_events st)"
  shows "\<exists>r \<in> set (db_rules d). \<exists>sent. rl_id r = em_alert_rule_id input \<and>
    drain (as_events st') s = s\<lparr>su_next := length (as_events st'), su_sent := su_sent s @ sent\<rparr> \<and>
    (if ctx_tenant_id (su_auth s) = rl_tenant_id r \<and> can_access_owner (su_auth s) (rl_owner_subject r)
     then list_all2 (\<lambda>c p. sd_to_json D ''match.candidate'' (rl_tenant_id r) now (Candidate_Data c) = Inr p) cs sent
     else sent = [])"
proof -
  from evaluate_route_sound [OF assms(1-4)] obtain auth r v cs' es where
      ev: "evaluable auth d (em_alert_rule_id input) r v" and cs: "cs' = cs" and es: "as_events st' = as_events st @ es"
    and ann: "list_all2 (announces D now (ctx_tenant_id auth) (rl_owner_subject r)) cs' es"
    by (elim exE conjE) simp
  have r: "r \<in> set (db_rules d)" "rl_id r = em_alert_rule_id input" "ctx_tenant_id auth = rl_tenant_id r"
    using ev by (simp_all add: evaluable_def)
  have "length es = length cs"
    using list_all2_lengthD [OF ann] cs by simp
  then have "drain (as_events st') s = s\<lparr>su_next := length (as_events st'),
      su_sent := su_sent s @ visible_payloads (su_auth s) es\<rparr>"
    using assms(5,6) by (simp add: drain_window es)
  with r announced_payloads [OF ann [unfolded r(3) cs], of "su_auth s"] show ?thesis
    by (intro bexI [of _ r] exI [of _ "visible_payloads (su_auth s) es"] conjI)
qed

theorem match_notification_witness:
  "\<exists>c st' p. route api_deps 9 api_headers (Evaluate_Matches example_evaluate) (api_state (example_alerts [])) =
       (Inr (200, Candidates_Body [c]), st') \<and>
     su_sent (drain (as_events st') (subscribe example_member [])) = [p] \<and>
     su_sent (drain (as_events st') (subscribe (example_member\<lparr>ctx_subject := lit ''user-2''\<rparr>) [])) = []"
proof -
  let ?st = "api_state (example_alerts [])"
  obtain c st' where run: "route api_deps 9 api_headers (Evaluate_Matches example_evaluate) ?st = (Inr (200, Candidates_Body [c]), st')"
    by (rule example_route)
  have h: "db_wf (example_alerts [])" "\<forall>x y. json_f32 (sd_ext api_deps) x = Some y \<longrightarrow> y = x" "length [c] \<le> 512"
    by (simp_all add: example_alerts_wf api_fields example_tables)
  have rules: "db_rules (example_alerts []) = [example_rule_row]" "rl_tenant_id example_rule_row = 7"
    "rl_owner_subject example_rule_row = lit ''user-1''"
    by (simp_all add: example_tables)
  have n: "su_next (subscribe a []) = length (as_events ?st)" "su_auth (subscribe a []) = a" "su_sent (subscribe a []) = []" for a
    by (simp_all add: subscribe_def api_ready)
  have own: "can_access_owner example_member (lit ''user-1'')"
    "\<not> can_access_owner (example_member\<lparr>ctx_subject := lit ''user-2''\<rparr>) (lit ''user-1'')" "ctx_tenant_id example_member = 7"
    using example_subject(5) by (simp_all add: can_access_owner_def example_member_def is_tenant_admin_def)
  note told = match_notification [OF run api_ready(2) h n(1), unfolded rules n]
  have "\<exists>p. su_sent (drain (as_events st') (subscribe example_member [])) = [p]"
    using told [of example_member] own by (auto simp: rules list_all2_Cons1)
  moreover have "su_sent (drain (as_events st') (subscribe (example_member\<lparr>ctx_subject := lit ''user-2''\<rparr>) [])) = []"
    using told [of "example_member\<lparr>ctx_subject := lit ''user-2''\<rparr>"] own by (auto simp: rules)
  ultimately show ?thesis
    using run by blast
qed

end
